(* ===== verification/Mms_Prelude.thy ===== *)
theory Mms_Prelude
  imports Main "HOL-Library.Word" "HOL-Library.Monad_Syntax"
begin

text \<open>
  Shared vocabulary of the development: the C memory model, and the algebra of
  byte emission on which the encoders of every protocol layer rest.

  \<^item> A result of type \<open>'a option\<close> is the outcome of running C code: \<open>None\<close>
    means that the code has no defined result (an access outside an array, a
    signed overflow, a read of a variable that was never assigned, a failed
    assertion, or a loop that does not end). Error codes of the C API are
    ordinary values below \<open>Some\<close>.
  \<^item> A pointer is a pair of the block it points into (the contents of the
    array) and an offset into that block; \<open>p + i\<close> in C is \<open>padd p i\<close>.
  \<^item> A pair of a pointer and an index is a write cursor, the C idiom
    \<open>(buffer, bufPos)\<close>; \<open>put\<close> is \<open>buffer[bufPos++] = x\<close>.
\<close>

unbundle bit_operations_syntax

type_synonym byte = "8 word"
type_synonym ptr = "byte list \<times> int"
type_synonym cursor = "ptr \<times> int"

named_theorems emits \<open>an encoder run is the emission of a byte string\<close>
named_theorems outlen \<open>lengths of encoded byte strings\<close>

section \<open>Memory\<close>

definition rd :: "ptr \<Rightarrow> int \<Rightarrow> byte option" where
  "rd p i = (let j = snd p + i in
     if 0 \<le> j \<and> j < int (length (fst p)) then Some (fst p ! nat j) else None)"

definition wr :: "ptr \<Rightarrow> int \<Rightarrow> byte \<Rightarrow> ptr option" where
  "wr p i x = (let j = snd p + i in
     if 0 \<le> j \<and> j < int (length (fst p)) then Some ((fst p)[nat j := x], snd p) else None)"

definition padd :: "ptr \<Rightarrow> int \<Rightarrow> ptr" where
  "padd p i = (fst p, snd p + i)"

fun rdn :: "ptr \<Rightarrow> int \<Rightarrow> nat \<Rightarrow> byte list option" where
  "rdn p i 0 = Some []"
| "rdn p i (Suc n) = do { x \<leftarrow> rd p i; xs \<leftarrow> rdn p (i + 1) n; Some (x # xs) }"

definition put :: "byte \<Rightarrow> cursor \<Rightarrow> cursor option" where
  "put x s = do { b \<leftarrow> wr (fst s) (snd s) x; Some (b, snd s + 1) }"

fun emit :: "byte list \<Rightarrow> cursor \<Rightarrow> cursor option" where
  "emit [] s = Some s"
| "emit (x # xs) s = do { s \<leftarrow> put x s; emit xs s }"

text \<open>\<open>for (i = lo; i < hi; i++) body\<close>, where the body keeps a state.\<close>

function for_range :: "int \<Rightarrow> int \<Rightarrow> (int \<Rightarrow> 's \<Rightarrow> 's option) \<Rightarrow> 's \<Rightarrow> 's option" where
  "for_range lo hi f s =
     (if lo < hi then do { s \<leftarrow> f lo s; for_range (lo + 1) hi f s } else Some s)"
  by pat_completeness auto
termination
  by (relation "measure (\<lambda>(lo, hi, f, s). nat (hi - lo))") auto

declare for_range.simps [simp del]

text \<open>A C \<open>int\<close> is 32 bits wide; leaving its range is undefined.\<close>

definition i32 :: "int \<Rightarrow> int option" where
  "i32 x = (if - (2 ^ 31) \<le> x \<and> x < 2 ^ 31 then Some x else None)"

text \<open>\<open>1 << k\<close> on a C \<open>int\<close>.\<close>

definition shl1 :: "int \<Rightarrow> int option" where
  "shl1 k = (if 0 \<le> k \<and> k < 31 then Some (2 ^ nat k) else None)"

section \<open>Reading and writing lists\<close>

lemma i32_Some [simp]: "- (2 ^ 31) \<le> x \<Longrightarrow> x < 2 ^ 31 \<Longrightarrow> i32 x = Some x"
  by (simp add: i32_def)

lemma padd_0 [simp]: "padd p 0 = p"
  by (simp add: padd_def)

lemma padd_padd [simp]: "padd (padd p i) j = padd p (i + j)"
  by (simp add: padd_def)

lemma rd_padd [simp]: "rd (padd p i) j = rd p (i + j)"
  by (simp add: rd_def padd_def Let_def add.assoc)

lemma fst_padd [simp]: "fst (padd p i) = fst p" and snd_padd [simp]: "snd (padd p i) = snd p + i"
  by (simp_all add: padd_def)

lemma rdn_padd [simp]: "rdn (padd p i) j n = rdn p (i + j) n"
  by (induction n arbitrary: j) (simp_all add: add.assoc)

text \<open>The range of offsets of a pointer that lie in its block.\<close>

definition valid_range :: "ptr \<Rightarrow> int \<Rightarrow> int \<Rightarrow> bool" where
  "valid_range p lo hi \<longleftrightarrow> 0 \<le> snd p + lo \<and> snd p + hi \<le> int (length (fst p))"

lemma rd_valid: "valid_range p lo hi \<Longrightarrow> lo \<le> i \<Longrightarrow> i < hi \<Longrightarrow> \<exists>x. rd p i = Some x"
  by (simp add: rd_def valid_range_def Let_def)

lemma valid_range_mono: "valid_range p lo hi \<Longrightarrow> lo \<le> lo' \<Longrightarrow> hi' \<le> hi \<Longrightarrow> valid_range p lo' hi'"
  by (simp add: valid_range_def)

lemma valid_range_padd [simp]: "valid_range (padd p k) lo hi = valid_range p (k + lo) (k + hi)"
  by (simp add: valid_range_def add.assoc)

lemma rd_eq_Some:
  "rd p i = Some x \<longleftrightarrow> 0 \<le> snd p + i \<and> snd p + i < int (length (fst p)) \<and> x = fst p ! nat (snd p + i)"
  by (auto simp: rd_def Let_def)

lemma length_rdn: "rdn p i n = Some xs \<Longrightarrow> length xs = n"
  by (induction n arbitrary: i xs) (auto simp: bind_eq_Some_conv)

lemma rdn_nth: "rdn p i n = Some xs \<Longrightarrow> k < n \<Longrightarrow> rd p (i + int k) = Some (xs ! k)"
proof (induction n arbitrary: i k xs)
  case (Suc n)
  then show ?case by (cases k) (auto simp: bind_eq_Some_conv add.assoc [symmetric])
qed simp

lemma rdn_drop: "rdn p i n = Some xs \<Longrightarrow> k \<le> n \<Longrightarrow> rdn p (i + int k) (n - k) = Some (drop k xs)"
proof (induction k arbitrary: i n xs)
  case (Suc k)
  then obtain m where "n = Suc m" by (cases n) auto
  then show ?case using Suc.prems Suc.IH [of "i + 1" m] by (auto simp: bind_eq_Some_conv add.assoc)
qed simp

lemma rdn_append:
  "rdn p i (m + n) = do { xs \<leftarrow> rdn p i m; ys \<leftarrow> rdn p (i + int m) n; Some (xs @ ys) }"
  by (induction m arbitrary: i) (simp_all add: bind_assoc add.assoc)

lemma rdn_valid:
  "valid_range p i (i + int n) \<Longrightarrow> rdn p i n = Some (take n (drop (nat (snd p + i)) (fst p)))"
proof (induction n arbitrary: i)
  case 0
  then show ?case by simp
next
  case (Suc n)
  then have "rdn p (i + 1) n = Some (take n (drop (nat (snd p + (i + 1))) (fst p)))"
    by (simp add: valid_range_def algebra_simps)
  moreover have "nat (snd p + (i + 1)) = Suc (nat (snd p + i))"
    using Suc.prems by (auto simp: valid_range_def)
  moreover have "nat (snd p + i) < length (fst p)"
    using Suc.prems by (auto simp: valid_range_def)
  ultimately show ?case
    using Suc.prems by (simp add: rd_def valid_range_def Cons_nth_drop_Suc[symmetric])
qed

lemma rdn_prefix [simp]: "rdn (xs @ ys, 0) 0 (length xs) = Some xs"
  by (subst rdn_valid) (simp_all add: valid_range_def)

lemma rdn_all [simp]: "rdn (xs, 0) 0 (length xs) = Some xs"
  using rdn_prefix [of xs "[]"] by simp

lemma rdn_at: "rdn (xs @ ys @ zs, 0) (int (length xs)) (length ys) = Some ys"
  by (subst rdn_valid) (simp_all add: valid_range_def)

section \<open>Counted loops\<close>

lemma for_range_empty [simp]: "hi \<le> lo \<Longrightarrow> for_range lo hi f s = Some s"
  by (simp add: for_range.simps)

lemma for_range_step: "lo < hi \<Longrightarrow> for_range lo hi f s = do { s \<leftarrow> f lo s; for_range (lo + 1) hi f s }"
  by (simp add: for_range.simps [of lo hi f s])

lemma for_range_rule:
  assumes "lo \<le> hi" and "P lo s"
    and "\<And>i s. lo \<le> i \<Longrightarrow> i < hi \<Longrightarrow> P i s \<Longrightarrow> \<exists>s'. f i s = Some s' \<and> P (i + 1) s'"
  shows "\<exists>s'. for_range lo hi f s = Some s' \<and> P hi s'"
  using assms
proof (induction lo hi f s rule: for_range.induct)
  case (1 lo hi f s)
  show ?case
  proof (cases "lo < hi")
    case True
    then obtain s1 where s1: "f lo s = Some s1" "P (lo + 1) s1"
      using "1.prems" by blast
    then have "\<exists>s'. for_range (lo + 1) hi f s1 = Some s' \<and> P hi s'"
      using True "1.prems" by (intro "1.IH") auto
    with True s1 show ?thesis by (simp add: for_range_step)
  next
    case False
    with "1.prems" show ?thesis by simp
  qed
qed

lemma for_range_det:
  assumes "lo \<le> hi" and "\<And>i. lo \<le> i \<Longrightarrow> i < hi \<Longrightarrow> f i (g i) = Some (g (i + 1))"
  shows "for_range lo hi f (g lo) = Some (g hi)"
  using for_range_rule [where P = "\<lambda>i s. s = g i", OF assms(1) refl] assms(2) by blast

section \<open>Emission\<close>

lemma emit_Nil_eq: "emit [] = Some"
  by (rule ext) simp

lemma emit_append: "emit (xs @ ys) s = do { s \<leftarrow> emit xs s; emit ys s }"
proof (induction xs arbitrary: s)
  case (Cons x xs)
  then show ?case by (cases "put x s") simp_all
qed simp

lemma emit_single: "put x = emit [x]"
  by (rule ext) (simp add: emit_Nil_eq)

text \<open>
  Rewriting with \<open>emit_fuse\<close> turns a sequence of emissions into one emission of
  the concatenation: an encoder made of \<open>put\<close> and of smaller encoders computes
  the byte string it stands for.
\<close>

lemma emit_fuse: "Option.bind (emit xs s) (emit ys) = emit (xs @ ys) s"
  and emit_fuse_bind: "Option.bind (emit xs s) (\<lambda>t. Option.bind (emit ys t) f) = Option.bind (emit (xs @ ys) s) f"
  by (simp_all add: emit_append bind_assoc)

lemma emit_Some:
  "valid_range (fst s) (snd s) (snd s + int (length xs)) \<Longrightarrow>
   emit xs s = Some ((take (nat (snd (fst s) + snd s)) (fst (fst s)) @ xs @
     drop (nat (snd (fst s) + snd s) + length xs) (fst (fst s)), snd (fst s)), snd s + int (length xs))"
proof (induction xs arbitrary: s)
  case Nil
  then show ?case by simp
next
  case (Cons x xs)
  obtain blk off pos where s: "s = ((blk, off), pos)" by (metis surj_pair)
  let ?j = "nat (off + pos)"
  have b: "0 \<le> off + pos" "off + pos + int (length xs) + 1 \<le> int (length blk)"
    using Cons.prems by (simp_all add: s valid_range_def)
  then have put: "put x s = Some ((blk[?j := x], off), pos + 1)"
    by (simp add: s put_def wr_def)
  have j: "nat (off + (pos + 1)) = Suc ?j" "?j < length blk" using b by simp_all
  have "emit xs ((blk[?j := x], off), pos + 1) = Some ((take (Suc ?j) (blk[?j := x]) @ xs @
     drop (Suc ?j + length xs) (blk[?j := x]), off), pos + 1 + int (length xs))"
    using Cons.IH [of "((blk[?j := x], off), pos + 1)"] b j by (simp add: valid_range_def)
  moreover have "take (Suc ?j) (blk[?j := x]) = take ?j blk @ [x]"
    using j(2) by (simp add: take_Suc_conv_app_nth)
  ultimately show ?case using put by (simp add: s)
qed

lemma emit_None:
  assumes "xs \<noteq> []" and "\<not> valid_range (fst s) (snd s) (snd s + int (length xs))"
  shows "emit xs s = None"
  using assms
proof (induction xs arbitrary: s)
  case (Cons x xs)
  obtain blk off pos where s: "s = ((blk, off), pos)" by (metis surj_pair)
  show ?case
  proof (cases "0 \<le> off + pos \<and> off + pos < int (length blk)")
    case True
    let ?t = "((blk[nat (off + pos) := x], off), pos + 1)"
    have ne: "xs \<noteq> []" using True Cons.prems by (auto simp: s valid_range_def)
    have "\<not> valid_range (fst ?t) (snd ?t) (snd ?t + int (length xs))"
      using True Cons.prems by (auto simp: s valid_range_def)
    then have "emit xs ?t = None" using ne Cons.IH by blast
    then show ?thesis using True by (simp add: s put_def wr_def)
  next
    case False
    then show ?thesis by (auto simp: s put_def wr_def Let_def)
  qed
qed simp

text \<open>The memory after writing a list of octets at an offset.\<close>

definition store :: "ptr \<Rightarrow> int \<Rightarrow> byte list \<Rightarrow> ptr" where
  "store p i xs = (take (nat (snd p + i)) (fst p) @ xs @ drop (nat (snd p + i) + length xs) (fst p), snd p)"

lemma emit_valid:
  "valid_range p i (i + int (length xs)) \<Longrightarrow> emit xs (p, i) = Some (store p i xs, i + int (length xs))"
  by (simp add: emit_Some store_def)

lemma snd_store [simp]: "snd (store p i xs) = snd p"
  by (simp add: store_def)

lemma length_store:
  "valid_range p i (i + int (length xs)) \<Longrightarrow> length (fst (store p i xs)) = length (fst p)"
  by (auto simp: store_def valid_range_def)

lemma valid_range_store:
  "valid_range p i (i + int (length xs)) \<Longrightarrow> valid_range (store p i xs) lo hi = valid_range p lo hi"
  by (auto simp: valid_range_def length_store [unfolded valid_range_def])

lemma store_append:
  assumes "valid_range p i (i + int (length xs) + int (length ys))" and "j = i + int (length xs)"
  shows "store (store p i xs) j ys = store p i (xs @ ys)"
proof -
  obtain k where k: "snd p + i = int k"
    using assms(1) by (metis valid_range_def nat_0_le)
  then have "snd p + j = int (k + length xs)" using assms(2) by simp
  moreover have "k + length xs + length ys \<le> length (fst p)"
    using assms(1) k by (simp add: valid_range_def)
  ultimately show ?thesis using k
    by (simp add: store_def nat_int_add del: of_nat_add) (simp add: add.commute add.left_commute)
qed

lemma emit_after_store:
  assumes "valid_range p i (i + int (length xs) + int (length ys))" and "j = i + int (length xs)"
  shows "emit ys (store p i xs, j) = Some (store p i (xs @ ys), j + int (length ys))"
proof -
  have v: "valid_range p i (i + int (length xs))"
    using assms(1) by (rule valid_range_mono) auto
  have "valid_range (store p i xs) j (j + int (length ys))"
    unfolding valid_range_store [OF v] using assms by (simp add: valid_range_def)
  from emit_valid [OF this] show ?thesis using store_append [OF assms(1,2)] by simp
qed

lemma put_after_store:
  assumes "valid_range p i (i + int (length xs) + 1)" and "j = i + int (length xs)"
  shows "put x (store p i xs, j) = Some (store p i (xs @ [x]), j + 1)"
  using emit_after_store [of p i xs "[x]" j] assms by (simp add: emit_single valid_range_def del: emit.simps)

lemma rdn_store:
  "valid_range p i (i + int (length xs)) \<Longrightarrow> n = length xs \<Longrightarrow> rdn (store p i xs) i n = Some xs"
  by (subst rdn_valid) (auto simp: store_def valid_range_def)

lemma rd_store_other:
  "valid_range p i (i + int (length xs)) \<Longrightarrow> j < i \<or> i + int (length xs) \<le> j \<Longrightarrow> rd (store p i xs) j = rd p j"
  by (auto simp: rd_def Let_def store_def valid_range_def nth_append min_def nat_less_iff)

lemma rdn_store_other:
  "valid_range p i (i + int (length xs)) \<Longrightarrow> j + int n \<le> i \<or> i + int (length xs) \<le> j \<Longrightarrow>
   rdn (store p i xs) j n = rdn p j n"
  by (induction n arbitrary: j) (auto simp: rd_store_other)

lemma store_Nil [simp]: "store p i [] = p"
  by (simp add: store_def)

text \<open>\<open>memcpy\<close> of the C library, for blocks that do not overlap.\<close>

definition memcpy :: "ptr \<Rightarrow> ptr \<Rightarrow> int \<Rightarrow> ptr option" where
  "memcpy dst src n = do { xs \<leftarrow> rdn src 0 (nat n); s \<leftarrow> emit xs (dst, 0); Some (fst s) }"

text \<open>Assignments to consecutive elements of an array are one emission.\<close>

lemma wr_emit: "Option.bind (wr p i x) f = Option.bind (emit [x] (p, i)) (\<lambda>s. f (fst s))"
  by (simp add: put_def bind_assoc)

lemma emit_position: "emit xs s = Some t \<Longrightarrow> snd t = snd s + int (length xs)"
  by (induction xs arbitrary: s) (auto simp: bind_eq_Some_conv put_def)

lemma emit_fuse_at:
  assumes "j = i + int (length xs)"
  shows "Option.bind (emit xs (p, i)) (\<lambda>s. Option.bind (emit ys (fst s, j)) f) = Option.bind (emit (xs @ ys) (p, i)) f"
proof (cases "emit xs (p, i)")
  case (Some s)
  then have "s = (fst s, j)" using emit_position [OF Some] assms by (simp add: prod_eq_iff)
  then show ?thesis using Some by (metis emit_append bind.bind_lunit)
qed (simp add: emit_append)

text \<open>
  The contract of an encoder: on every cursor it does what emitting its byte
  string does. Success, the new position, the bytes written and the frame
  (nothing outside the written range changes) follow once and for all.
\<close>

locale byte_encoder =
  fixes enc :: "'a \<Rightarrow> cursor \<Rightarrow> cursor option"
    and out :: "'a \<Rightarrow> byte list"
  assumes enc_emits: "enc x s = emit (out x) s"
begin

lemma enc_position: "enc x s = Some t \<Longrightarrow> snd t = snd s + int (length (out x))"
  using emit_Some [of s "out x"] emit_None [of "out x" s]
  by (cases "out x = []"; cases "valid_range (fst s) (snd s) (snd s + int (length (out x)))")
    (auto simp: enc_emits)

lemma enc_bytes:
  assumes "enc x s = Some t" and "0 \<le> snd s" and "0 \<le> snd (fst s)"
  shows "rdn (fst t) (snd s) (length (out x)) = Some (out x)"
proof (cases "out x = []")
  case False
  then have v: "valid_range (fst s) (snd s) (snd s + int (length (out x)))"
    using assms emit_None [of "out x" s] by (auto simp: enc_emits)
  have t: "fst t = (take (nat (snd (fst s) + snd s)) (fst (fst s)) @ out x @
     drop (nat (snd (fst s) + snd s) + length (out x)) (fst (fst s)), snd (fst s))"
    using emit_Some [OF v] assms(1) by (auto simp: enc_emits)
  have "valid_range (fst t) (snd s) (snd s + int (length (out x)))"
    using v by (auto simp: t valid_range_def)
  then show ?thesis using v by (simp add: rdn_valid t valid_range_def)
qed simp

lemma enc_fails: "out x \<noteq> [] \<Longrightarrow> (enc x s = None) = (\<not> valid_range (fst s) (snd s) (snd s + int (length (out x))))"
  using emit_Some [of s "out x"] emit_None [of "out x" s] by (auto simp: enc_emits)

lemma enc_frame:
  assumes "enc x s = Some t" and "i < snd s \<or> snd s + int (length (out x)) \<le> i"
  shows "rd (fst t) i = rd (fst s) i"
proof (cases "out x = []")
  case True
  then show ?thesis using assms by (simp add: enc_emits)
next
  case False
  obtain blk off pos where s: "s = ((blk, off), pos)" by (metis surj_pair)
  have v: "valid_range (fst s) (snd s) (snd s + int (length (out x)))"
    using assms False emit_None [of "out x" s] by (auto simp: enc_emits)
  have t: "fst t = (take (nat (off + pos)) blk @ out x @ drop (nat (off + pos) + length (out x)) blk, off)"
    using emit_Some [OF v] assms(1) by (auto simp: enc_emits s)
  show ?thesis using v assms(2)
    by (auto simp: t s rd_def Let_def valid_range_def nth_append min_def nat_less_iff)
qed

end

end
