(* ===== verification/Ber_Encoder.thy ===== *)
theory Ber_Encoder
  imports Mms_Prelude "HOL-Library.Signed_Division"
begin

text \<open>
  The BER encoder, \<^verbatim>\<open>src/sources/mms/asn1/ber_encoder.c\<close>: tag and length
  octets, strings, bit strings, integers in minimal two's complement form,
  floating point numbers and object identifiers, each over a caller-supplied
  buffer. The C parameters \<open>(buffer, bufPos)\<close> and the returned position are
  the cursor; \<open>uint32_t\<close> is \<open>32 word\<close>, \<open>uint8_t\<close> is \<open>byte\<close>. The
  parameter \<open>le\<close> is the build option \<open>ORDER_LITTLE_ENDIAN\<close>.
\<close>

section \<open>Length octets\<close>

definition BerEncoder_encodeLength :: "32 word \<Rightarrow> cursor \<Rightarrow> cursor option" where
  "BerEncoder_encodeLength len s =
     (if len < 128 then put (ucast len) s
      else if len < 256 then do { s \<leftarrow> put 0x81 s; put (ucast len) s }
      else if len < 65535 then do {
        s \<leftarrow> put 0x82 s;
        s \<leftarrow> put (ucast (len div 256)) s;
        put (ucast (len mod 256)) s }
      else do {
        s \<leftarrow> put 0x83 s;
        s \<leftarrow> put (ucast (len div 0x10000)) s;
        s \<leftarrow> put (ucast ((len AND 0xffff) div 0x100)) s;
        put (ucast (len mod 256)) s })"

definition BerEncoder_encodeTL :: "byte \<Rightarrow> 32 word \<Rightarrow> cursor \<Rightarrow> cursor option" where
  "BerEncoder_encodeTL tag len s = do { s \<leftarrow> put tag s; BerEncoder_encodeLength len s }"

definition BerEncoder_determineLengthSize :: "32 word \<Rightarrow> int" where
  "BerEncoder_determineLengthSize len =
     (if len < 128 then 1 else if len < 256 then 2 else if len < 65536 then 3 else 4)"

section \<open>Strings, booleans, bit strings\<close>

text \<open>
  The loop \<open>for (i = 0; i < n; i++) buffer[bufPos++] = src[i]\<close> that ends most of
  the encoders; \<open>memcpy(buffer + bufPos, src, n); bufPos += n\<close> has the same effect.
\<close>

definition copy_bytes :: "ptr \<Rightarrow> int \<Rightarrow> cursor \<Rightarrow> cursor option" where
  "copy_bytes src n s = for_range 0 n (\<lambda>i s. do { x \<leftarrow> rd src i; put x s }) s"

definition BerEncoder_encodeBoolean :: "byte \<Rightarrow> bool \<Rightarrow> cursor \<Rightarrow> cursor option" where
  "BerEncoder_encodeBoolean tag v s = do {
     s \<leftarrow> put tag s;
     s \<leftarrow> put 1 s;
     if v then put 1 s else put 0 s }"

text \<open>A C string is its characters before the terminating NUL; \<open>None\<close> is \<open>NULL\<close>.\<close>

definition BerEncoder_encodeStringWithTag :: "byte \<Rightarrow> byte list option \<Rightarrow> cursor \<Rightarrow> cursor option" where
  "BerEncoder_encodeStringWithTag tag str s = do {
     s \<leftarrow> put tag s;
     case str of
       Some cs \<Rightarrow> do {
         let len = int (length cs);
         s \<leftarrow> BerEncoder_encodeLength (word_of_int len) s;
         copy_bytes (cs, 0) len s }
     | None \<Rightarrow> put 0 s }"

definition BerEncoder_determineEncodedStringSize :: "byte list option \<Rightarrow> int" where
  "BerEncoder_determineEncodedStringSize str = (case str of
       Some cs \<Rightarrow> 1 + BerEncoder_determineLengthSize (word_of_int (int (length cs))) + int (length cs)
     | None \<Rightarrow> 2)"

definition BerEncoder_encodeOctetString :: "byte \<Rightarrow> ptr \<Rightarrow> 32 word \<Rightarrow> cursor \<Rightarrow> cursor option" where
  "BerEncoder_encodeOctetString tag octets n s = do {
     s \<leftarrow> put tag s;
     s \<leftarrow> BerEncoder_encodeLength n s;
     copy_bytes octets (uint n) s }"

definition bit_string_byte_size :: "int \<Rightarrow> int" where
  "bit_string_byte_size bits = (let n = bits sdiv 8 in if bits smod 8 \<noteq> 0 then n + 1 else n)"

definition BerEncoder_encodeBitString :: "byte \<Rightarrow> int \<Rightarrow> ptr \<Rightarrow> cursor \<Rightarrow> cursor option" where
  "BerEncoder_encodeBitString tag bits bitString s = do {
     s \<leftarrow> put tag s;
     let byteSize = bit_string_byte_size bits;
     let padding = byteSize * 8 - bits;
     s \<leftarrow> BerEncoder_encodeLength (word_of_int (byteSize + 1)) s;
     s \<leftarrow> put (word_of_int padding) s;
     s \<leftarrow> copy_bytes bitString byteSize s;
     paddingMask \<leftarrow> for_range 0 padding (\<lambda>i m. Some (m + push_bit (nat i) 1)) (0 :: byte);
     let paddingMask = NOT paddingMask;
     x \<leftarrow> rd (fst s) (snd s - 1);
     b \<leftarrow> wr (fst s) (snd s - 1) (x AND paddingMask);
     Some (b, snd s) }"

definition BerEncoder_determineEncodedBitStringSize :: "int \<Rightarrow> int" where
  "BerEncoder_determineEncodedBitStringSize bits =
     (let byteSize = bit_string_byte_size bits
      in 2 + BerEncoder_determineLengthSize (word_of_int byteSize) + byteSize)"

section \<open>Integers\<close>

text \<open>The bytes of an integer in memory: \<open>(uint8_t*) &value\<close>.\<close>

fun le_bytes :: "nat \<Rightarrow> 'a::len word \<Rightarrow> byte list" where
  "le_bytes 0 v = []"
| "le_bytes (Suc n) v = ucast v # le_bytes n (drop_bit 8 v)"

definition native_bytes :: "bool \<Rightarrow> nat \<Rightarrow> 'a::len word \<Rightarrow> byte list" where
  "native_bytes le n v = (if le then le_bytes n v else rev (le_bytes n v))"

definition BerEncoder_revertByteOrder :: "ptr \<Rightarrow> int \<Rightarrow> ptr option" where
  "BerEncoder_revertByteOrder octets n =
     for_range 0 (n sdiv 2) (\<lambda>i octets. do {
       temp \<leftarrow> rd octets i;
       x \<leftarrow> rd octets ((n - 1) - i);
       octets \<leftarrow> wr octets i x;
       wr octets ((n - 1) - i) temp }) octets"

text \<open>The scan for redundant leading octets; \<open>lst\<close> is \<open>integerEnd - integer\<close>.\<close>

function compressInteger_scan :: "ptr \<Rightarrow> int \<Rightarrow> int \<Rightarrow> int option" where
  "compressInteger_scan p i lst =
     (if i < lst then do {
        b0 \<leftarrow> rd p i;
        if b0 = 0x00 then do {
          b1 \<leftarrow> rd p (i + 1);
          if b1 AND 0x80 = 0 then compressInteger_scan p (i + 1) lst else Some i }
        else if b0 = 0xff then do {
          b1 \<leftarrow> rd p (i + 1);
          if b1 AND 0x80 = 0x80 then compressInteger_scan p (i + 1) lst else Some i }
        else Some i }
      else Some i)"
  by pat_completeness auto
termination
  by (relation "measure (\<lambda>(p, i, lst). nat (lst - i))") auto

declare compressInteger_scan.simps [simp del]

definition BerEncoder_compressInteger :: "ptr \<Rightarrow> int \<Rightarrow> (ptr \<times> int) option" where
  "BerEncoder_compressInteger integer originalSize = do {
     bytesToDelete \<leftarrow> compressInteger_scan integer 0 (originalSize - 1);
     if bytesToDelete \<noteq> 0 then do {
       let newSize = originalSize - bytesToDelete;
       integer \<leftarrow> for_range 0 newSize (\<lambda>k p. do { x \<leftarrow> rd p (bytesToDelete + k); wr p k x }) integer;
       Some (integer, newSize) }
     else Some (integer, originalSize) }"

text \<open>\<open>valueBuffer[0] = 0\<close>, the four value bytes behind it, and the swap on a little endian host.\<close>

definition uint32_valueBuffer :: "bool \<Rightarrow> 32 word \<Rightarrow> ptr option" where
  "uint32_valueBuffer le v = do {
     let vb = (0 # native_bytes le 4 v, 0);
     if le then do { q \<leftarrow> BerEncoder_revertByteOrder (padd vb 1) 4; Some (padd q (- 1)) } else Some vb }"

definition BerEncoder_encodeUInt32 :: "bool \<Rightarrow> 32 word \<Rightarrow> cursor \<Rightarrow> cursor option" where
  "BerEncoder_encodeUInt32 le v s = do {
     vb \<leftarrow> uint32_valueBuffer le v;
     (vb, n) \<leftarrow> BerEncoder_compressInteger vb 5;
     copy_bytes vb n s }"

definition BerEncoder_encodeInt32 :: "bool \<Rightarrow> 32 word \<Rightarrow> cursor \<Rightarrow> cursor option" where
  "BerEncoder_encodeInt32 le v s = do {
     let valueArray = native_bytes le 4 v;
     let vb = (if le then rev valueArray else valueArray, 0);
     (vb, n) \<leftarrow> BerEncoder_compressInteger vb 4;
     copy_bytes vb n s }"

definition BerEncoder_encodeUInt32WithTL :: "bool \<Rightarrow> byte \<Rightarrow> 32 word \<Rightarrow> cursor \<Rightarrow> cursor option" where
  "BerEncoder_encodeUInt32WithTL le tag v s = do {
     vb \<leftarrow> uint32_valueBuffer le v;
     (vb, n) \<leftarrow> BerEncoder_compressInteger vb 5;
     s \<leftarrow> put tag s;
     s \<leftarrow> put (word_of_int n) s;
     copy_bytes vb n s }"

definition BerEncoder_UInt32determineEncodedSize :: "bool \<Rightarrow> 32 word \<Rightarrow> int option" where
  "BerEncoder_UInt32determineEncodedSize le v = do {
     vb \<leftarrow> uint32_valueBuffer le v;
     (vb, n) \<leftarrow> BerEncoder_compressInteger vb 5;
     Some n }"

text \<open>The argument is \<open>int32_t\<close>; the body is the one of the unsigned variant.\<close>

definition BerEncoder_Int32determineEncodedSize :: "bool \<Rightarrow> 32 word \<Rightarrow> int option" where
  "BerEncoder_Int32determineEncodedSize le v = do {
     vb \<leftarrow> uint32_valueBuffer le v;
     (vb, n) \<leftarrow> BerEncoder_compressInteger vb 5;
     Some n }"

definition BerEncoder_encodeFloat :: "bool \<Rightarrow> ptr \<Rightarrow> byte \<Rightarrow> byte \<Rightarrow> cursor \<Rightarrow> cursor option" where
  "BerEncoder_encodeFloat le floatValue formatWidth exponentWidth s = do {
     let valueBuffer = padd (fst s) (snd s);
     let byteSize = uint formatWidth div 8;
     vb \<leftarrow> wr valueBuffer 0 exponentWidth;
     vb \<leftarrow> for_range 0 byteSize (\<lambda>i vb. do { x \<leftarrow> rd floatValue i; wr vb (i + 1) x }) vb;
     vb \<leftarrow> (if le then do { q \<leftarrow> BerEncoder_revertByteOrder (padd vb 1) byteSize; Some (padd q (- 1)) }
           else Some vb);
     Some (padd vb (- snd s), snd s + 1 + byteSize) }"

section \<open>Object identifiers\<close>

text \<open>\<open>strchr\<close>: the suffix that starts with the first occurrence of the character.\<close>

definition strchr :: "string \<Rightarrow> char \<Rightarrow> string option" where
  "strchr cs c = (case dropWhile (\<lambda>x. x \<noteq> c) cs of [] \<Rightarrow> None | t \<Rightarrow> Some t)"

text \<open>\<open>atoi\<close>: white space, a sign, digits; out of the range of \<open>int\<close> it is undefined.\<close>

definition is_digit :: "char \<Rightarrow> bool" where
  "is_digit c \<longleftrightarrow> 48 \<le> (of_char c :: nat) \<and> (of_char c :: nat) \<le> 57"

definition is_space :: "char \<Rightarrow> bool" where
  "is_space c \<longleftrightarrow> (of_char c :: nat) = 32 \<or> 9 \<le> (of_char c :: nat) \<and> (of_char c :: nat) \<le> 13"

definition atoi :: "string \<Rightarrow> int option" where
  "atoi cs = (let t = dropWhile is_space cs;
      digits = (\<lambda>u. foldl (\<lambda>a c. a * 10 + (of_char c - 48)) (0 :: int) (takeWhile is_digit u))
    in case t of
         [] \<Rightarrow> Some 0
       | c # u \<Rightarrow> if c = CHR ''-'' then i32 (- digits u)
                 else if c = CHR ''+'' then i32 (digits u) else i32 (digits t))"

function oid_requiredBytes :: "int \<Rightarrow> int" where
  "oid_requiredBytes val2 = (if val2 > 0 then 1 + oid_requiredBytes (val2 div 128) else 0)"
  by pat_completeness auto
termination
  by (relation "measure nat") auto

declare oid_requiredBytes.simps [simp del]

text \<open>
  The loop that writes the base 128 digits of one arc. \<open>Inl\<close> is the early
  \<open>return 0\<close> of the function when the buffer is full.
\<close>

fun oid_emitArc :: "int \<Rightarrow> int \<Rightarrow> nat \<Rightarrow> cursor \<Rightarrow> (ptr + cursor) option" where
  "oid_emitArc val maxBufLen 0 s = Some (Inr s)"
| "oid_emitArc val maxBufLen (Suc r) s = do {
     let val2 = (val div 2 ^ (7 * r)) AND 0x7f;
     let val2 = (if Suc r > 1 then val2 + 128 else val2);
     if snd s = maxBufLen then Some (Inl (fst s))
     else do { s \<leftarrow> put (word_of_int val2) s; oid_emitArc val maxBufLen r s } }"

lemma strchr_shorter: "strchr (tl sep) c = Some sep' \<Longrightarrow> length sep' < length sep"
proof -
  assume "strchr (tl sep) c = Some sep'"
  then have "sep' = dropWhile (\<lambda>x. x \<noteq> c) (tl sep)" and "sep' \<noteq> []"
    by (auto simp: strchr_def split: list.splits)
  then show ?thesis
    using length_dropWhile_le [of "\<lambda>x. x \<noteq> c" "tl sep"] by (cases sep) auto
qed

function oid_arcs :: "char \<Rightarrow> string \<Rightarrow> int \<Rightarrow> cursor \<Rightarrow> cursor option" where
  "oid_arcs sepChar separator maxBufLen s =
     (case strchr (tl separator) sepChar of
        None \<Rightarrow> Some s
      | Some separator' \<Rightarrow> do {
          val \<leftarrow> atoi (tl separator');
          if val = 0 then do { s \<leftarrow> put 0 s; oid_arcs sepChar separator' maxBufLen s }
          else do {
            r \<leftarrow> oid_emitArc val maxBufLen (nat (oid_requiredBytes val)) s;
            case r of Inl buffer \<Rightarrow> Some (buffer, 0)
            | Inr s \<Rightarrow> oid_arcs sepChar separator' maxBufLen s } })"
  by pat_completeness auto
termination
  by (relation "measure (\<lambda>(c, sep, m, s). length sep)") (auto dest: strchr_shorter)

declare oid_arcs.simps [simp del]

definition BerEncoder_encodeOIDToBuffer :: "string \<Rightarrow> ptr \<Rightarrow> int \<Rightarrow> cursor option" where
  "BerEncoder_encodeOIDToBuffer oidString buffer maxBufLen = do {
     x \<leftarrow> atoi oidString;
     let found = (case strchr oidString CHR ''.'' of Some t \<Rightarrow> Some (CHR ''.'', t)
       | None \<Rightarrow> (case strchr oidString CHR '','' of Some t \<Rightarrow> Some (CHR '','', t)
       | None \<Rightarrow> (case strchr oidString CHR '' '' of Some t \<Rightarrow> Some (CHR '' '', t) | None \<Rightarrow> None)));
     case found of
       None \<Rightarrow> Some (buffer, 0)
     | Some (sepChar, separator) \<Rightarrow> do {
         y \<leftarrow> atoi (tl separator);
         v \<leftarrow> i32 (x * 40);
         val \<leftarrow> i32 (v + y);
         if 0 < maxBufLen then do {
           s \<leftarrow> put (word_of_int val) (buffer, 0);
           oid_arcs sepChar separator maxBufLen s }
         else Some (buffer, 0) } }"

section \<open>What the encoders emit\<close>

lemma sdiv_nonneg [simp]: "0 \<le> n \<Longrightarrow> 0 < d \<Longrightarrow> (n :: int) sdiv d = n div d"
  by (cases "n = 0") (simp_all add: signed_divide_int_def)

lemma smod_nonneg [simp]: "0 \<le> n \<Longrightarrow> 0 < d \<Longrightarrow> (n :: int) smod d = n mod d"
  by (cases "n = 0") (simp_all add: signed_modulo_int_def)

text \<open>The length octets of a length, as a byte string.\<close>

definition len_octets :: "int \<Rightarrow> byte list" where
  "len_octets n =
     (if n < 128 then [word_of_int n]
      else if n < 256 then [0x81, word_of_int n]
      else if n < 65535 then [0x82, word_of_int (n div 256), word_of_int n]
      else [0x83, word_of_int (n div 65536), word_of_int (n div 256), word_of_int n])"

lemma byte_of_int_mod: "word_of_int (n mod 256) = (word_of_int n :: byte)"
  by (simp add: word_of_int_eq_iff take_bit_eq_mod)

lemma byte_of_int_mod_div: "word_of_int (n mod 65536 div 256) = (word_of_int (n div 256) :: byte)"
  using drop_bit_take_bit [of 8 16 n]
  by (simp add: word_of_int_eq_iff take_bit_eq_mod drop_bit_eq_div)

lemma uint_and_ffff: "uint ((w :: 32 word) AND 0xffff) = uint w mod 65536"
proof -
  have "w AND 0xffff = take_bit 16 w"
    by (simp add: take_bit_eq_mask mask_eq_exp_minus_1)
  then have "uint (w AND 0xffff) = take_bit 16 (uint w)"
    by (simp only: unsigned_take_bit_eq)
  then show ?thesis by (simp add: take_bit_eq_mod)
qed

lemma len_octet_casts:
  "ucast ((w :: 32 word) div 256) = (word_of_int (uint w div 256) :: byte)"
  "ucast (w mod 256) = (word_of_int (uint w) :: byte)"
  "ucast (w div 0x10000) = (word_of_int (uint w div 65536) :: byte)"
  "ucast ((w AND 0xffff) div 0x100) = (word_of_int (uint w div 256) :: byte)"
  by (simp_all only: ucast_eq uint_div uint_mod uint_and_ffff)
    (simp_all add: byte_of_int_mod byte_of_int_mod_div)

lemma encodeLength_emits [emits]: "BerEncoder_encodeLength len s = emit (len_octets (uint len)) s"
  unfolding BerEncoder_encodeLength_def len_octets_def len_octet_casts
  by (simp add: word_less_def emit_single emit_fuse uint_and_ffff byte_of_int_mod_div del: emit.simps)

lemma encodeTL_emits [emits]: "BerEncoder_encodeTL tag len s = emit (tag # len_octets (uint len)) s"
  by (simp add: BerEncoder_encodeTL_def encodeLength_emits emit_single emit_fuse del: emit.simps)

lemma encodeBoolean_emits [emits]:
  "BerEncoder_encodeBoolean tag v s = emit [tag, 1, if v then 1 else 0] s"
  by (simp add: BerEncoder_encodeBoolean_def emit_single emit_fuse del: emit.simps)

lemma copy_bytes_gen:
  "for_range i (i + int n) (\<lambda>i s. do { x \<leftarrow> rd src i; put x s }) s = do { xs \<leftarrow> rdn src i n; emit xs s }"
proof (induction n arbitrary: i s)
  case (Suc n)
  have "for_range (i + 1) (i + int (Suc n)) (\<lambda>i s. do { x \<leftarrow> rd src i; put x s }) t
     = do { xs \<leftarrow> rdn src (i + 1) n; emit xs t }" for t
    using Suc.IH [of "i + 1" t] by (simp add: algebra_simps)
  then show ?case
    by (cases "rd src i"; cases "rdn src (i + 1) n"; cases "put (the (rd src i)) s")
      (simp_all add: for_range_step)
qed simp

lemma copy_bytes_emits:
  assumes "rdn src 0 (nat n) = Some xs" and "0 \<le> n"
  shows "copy_bytes src n s = emit xs s"
  using copy_bytes_gen [of 0 "nat n" src s] assms by (simp add: copy_bytes_def)

lemma uint32_of_int: "0 \<le> n \<Longrightarrow> n < 2 ^ 32 \<Longrightarrow> uint (word_of_int n :: 32 word) = n"
  by (simp add: uint_word_of_int take_bit_eq_mod)

lemma encodeStringWithTag_emits [emits]:
  assumes "length cs < 2 ^ 32"
  shows "BerEncoder_encodeStringWithTag tag (Some cs) s = emit (tag # len_octets (int (length cs)) @ cs) s"
proof -
  have c: "copy_bytes (cs, 0) (int (length cs)) t = emit cs t" for t
    by (rule copy_bytes_emits) simp_all
  have l: "uint (word_of_int (int (length cs)) :: 32 word) = int (length cs)"
    using assms by (intro uint32_of_int) auto
  show ?thesis
    unfolding BerEncoder_encodeStringWithTag_def Let_def option.case encodeLength_emits l c
    by (simp add: emit_single emit_fuse del: emit.simps)
qed

lemma encodeString_null_emits [emits]:
  "BerEncoder_encodeStringWithTag tag None s = emit [tag, 0] s"
  by (simp add: BerEncoder_encodeStringWithTag_def emit_single emit_fuse del: emit.simps)

lemma encodeOctetString_emits [emits]:
  assumes "rdn octets 0 (unat n) = Some xs"
  shows "BerEncoder_encodeOctetString tag octets n s = emit (tag # len_octets (uint n) @ xs) s"
proof -
  have "copy_bytes octets (uint n) t = emit xs t" for t
    using assms by (intro copy_bytes_emits) simp_all
  then show ?thesis
    by (simp add: BerEncoder_encodeOctetString_def encodeLength_emits emit_single emit_fuse del: emit.simps)
qed

text \<open>The size announced for a length is the size written, except for the length 65535.\<close>

lemma length_len_octets [outlen]:
  "length (len_octets n) = (if n < 128 then 1 else if n < 256 then 2 else if n < 65535 then 3 else 4)"
  by (simp add: len_octets_def)

lemma determineLengthSize_correct:
  "uint len \<noteq> 65535 \<Longrightarrow> BerEncoder_determineLengthSize len = int (length (len_octets (uint len)))"
  by (auto simp: BerEncoder_determineLengthSize_def length_len_octets word_less_def)

section \<open>Minimal two's complement integers\<close>

text \<open>Big endian values of a byte string, unsigned and two's complement.\<close>

definition be_uint :: "byte list \<Rightarrow> int" where
  "be_uint bs = foldl (\<lambda>a b. a * 256 + uint b) 0 bs"

definition be_sint :: "byte list \<Rightarrow> int" where
  "be_sint bs = (case bs of [] \<Rightarrow> 0
     | b # _ \<Rightarrow> if 128 \<le> uint b then be_uint bs - 256 ^ length bs else be_uint bs)"

fun ber_compress :: "byte list \<Rightarrow> byte list" where
  "ber_compress (a # b # bs) =
     (if (a = 0x00 \<and> b AND 0x80 = 0) \<or> (a = 0xff \<and> b AND 0x80 = 0x80) then ber_compress (b # bs)
      else a # b # bs)"
| "ber_compress bs = bs"

text \<open>An integer encoding is minimal if its first nine bits are not all equal.\<close>

fun ber_minimal :: "byte list \<Rightarrow> bool" where
  "ber_minimal (a # b # bs) \<longleftrightarrow> \<not> (a = 0 \<and> uint b < 128) \<and> \<not> (a = 0xff \<and> 128 \<le> uint b)"
| "ber_minimal bs \<longleftrightarrow> bs \<noteq> []"

lemma byte_bound: "0 \<le> uint (b :: byte)" "uint (b :: byte) < 256"
  using unsigned_less [of b, where 'a = int] by simp_all

lemma byte_sign_bit: "(b :: byte) AND 0x80 = 0 \<longleftrightarrow> uint b < 128"
  "(b :: byte) AND 0x80 = 0x80 \<longleftrightarrow> 128 \<le> uint b"
proof -
  have "uint b div 128 = (if 128 \<le> uint b then 1 else 0)"
    using byte_bound [of b] by (auto simp: div_pos_geq)
  then have "bit b 7 \<longleftrightarrow> 128 \<le> uint b"
    using bit_uint_iff [of b 7] by (simp add: bit_iff_odd split: if_splits)
  moreover have e: "bit (128 :: byte) n \<longleftrightarrow> n = 7" for n
    using bit_exp_iff [of 7 n, where 'a = byte] by auto
  have "b AND 128 = (if bit b 7 then 128 else 0)"
    by (rule bit_word_eqI) (auto simp: bit_and_iff e simp del: bit_numeral_word_iff)
  ultimately show "b AND 0x80 = 0 \<longleftrightarrow> uint b < 128" "b AND 0x80 = 0x80 \<longleftrightarrow> 128 \<le> uint b"
    by (auto simp add: not_le split: if_splits)
qed

lemma be_uint_Nil [simp]: "be_uint [] = 0"
  by (simp add: be_uint_def)

lemma be_uint_snoc: "be_uint (bs @ [b]) = be_uint bs * 256 + uint b"
  by (simp add: be_uint_def)

lemma be_uint_Cons: "be_uint (b # bs) = uint b * 256 ^ length bs + be_uint bs"
proof -
  have "foldl (\<lambda>a b. a * 256 + uint b) (uint b) bs = uint b * 256 ^ length bs + be_uint bs"
    by (induction bs rule: rev_induct) (simp_all add: be_uint_def algebra_simps)
  then show ?thesis by (simp add: be_uint_def)
qed

lemma be_uint_bound: "0 \<le> be_uint bs \<and> be_uint bs < 256 ^ length bs"
proof (induction bs rule: rev_induct)
  case (snoc b bs)
  then show ?case using byte_bound [of b] by (simp add: be_uint_snoc)
qed simp

lemma ber_compress_ne [simp]: "ber_compress bs = [] \<longleftrightarrow> bs = []"
  by (induction bs rule: ber_compress.induct) auto

lemma length_ber_compress: "length (ber_compress bs) \<le> length bs"
  by (induction bs rule: ber_compress.induct) auto

lemma ber_compress_suffix: "\<exists>pre. bs = pre @ ber_compress bs"
proof (induction bs rule: ber_compress.induct)
  case (1 a b bs)
  show ?case
  proof (cases "(a = 0x00 \<and> b AND 0x80 = 0) \<or> (a = 0xff \<and> b AND 0x80 = 0x80)")
    case True
    then obtain pre where "b # bs = pre @ ber_compress (b # bs)" using "1.IH" by blast
    then have "a # b # bs = (a # pre) @ ber_compress (a # b # bs)" using True by simp
    then show ?thesis by blast
  next
    case False
    then show ?thesis by auto
  qed
qed simp_all

lemma be_sint_compress: "be_sint (ber_compress bs) = be_sint bs"
  by (induction bs rule: ber_compress.induct) (auto simp: be_sint_def be_uint_Cons byte_sign_bit)

lemma ber_minimal_compress: "bs \<noteq> [] \<Longrightarrow> ber_minimal (ber_compress bs)"
  by (induction bs rule: ber_compress.induct) (auto simp: byte_sign_bit)

lemma rd_append [simp]:
  "rd (pre @ b # bs, 0) (int (length pre)) = Some b"
  "rd (pre @ a # b # bs, 0) (int (length pre) + 1) = Some b"
  by (simp_all add: rd_def nth_append nat_add_distrib)

lemma compressInteger_scan_eq:
  "bs \<noteq> [] \<Longrightarrow> compressInteger_scan (pre @ bs, 0) (int (length pre)) (int (length pre + length bs) - 1) =
     Some (int (length pre + length bs) - int (length (ber_compress bs)))"
proof (induction bs arbitrary: pre rule: ber_compress.induct)
  case (1 a b bs)
  have "compressInteger_scan (pre @ a # b # bs, 0) (int (length pre) + 1)
      (int (length pre + length (a # b # bs)) - 1) =
     Some (int (length pre + length (a # b # bs)) - int (length (ber_compress (b # bs))))"
    if "(a = 0 \<and> b AND 0x80 = 0) \<or> (a = 0xff \<and> b AND 0x80 = 0x80)"
    using "1.IH" [of "pre @ [a]"] that by (simp add: algebra_simps)
  then show ?case
    by (subst compressInteger_scan.simps) (auto simp: byte_sign_bit)
qed (simp_all add: compressInteger_scan.simps)

lemma shift_down:
  assumes "d + n = length bs" and "0 < d"
  shows "for_range 0 (int n) (\<lambda>k p. do { x \<leftarrow> rd p (int d + k); wr p k x }) (bs, 0) =
     Some (drop d bs @ drop n bs, 0)"
proof -
  let ?g = "\<lambda>k. (take (nat k) (drop d bs) @ drop (nat k) bs, 0 :: int)"
  have "for_range 0 (int n) (\<lambda>k p. do { x \<leftarrow> rd p (int d + k); wr p k x }) (?g 0) = Some (?g (int n))"
  proof (rule for_range_det)
    fix k :: int assume k: "0 \<le> k" "k < int n"
    define j where "j = nat k"
    have j: "k = int j" "j < n" using k by (simp_all add: j_def)
    have "j < length bs" "d + j < length bs" using j assms by simp_all
    moreover have "take (Suc j) (drop d bs) = take j (drop d bs) @ [bs ! (d + j)]"
      using j assms by (simp add: take_Suc_conv_app_nth)
    moreover have "drop j bs = bs ! j # drop (Suc j) bs"
      using j assms by (simp add: Cons_nth_drop_Suc)
    ultimately show "do { x \<leftarrow> rd (?g k) (int d + k); wr (?g k) k x } = Some (?g (k + 1))"
      using j assms by (simp add: rd_def wr_def nat_add_distrib nth_append list_update_append add.commute)
  qed simp
  then show ?thesis using assms by simp
qed

lemma compressInteger_eq:
  assumes "bs \<noteq> []"
  shows "\<exists>junk. BerEncoder_compressInteger (bs, 0) (int (length bs)) =
     Some ((ber_compress bs @ junk, 0), int (length (ber_compress bs)))"
proof -
  define n where "n = length (ber_compress bs)"
  have n: "n \<le> length bs" by (simp add: n_def length_ber_compress)
  have scan: "compressInteger_scan (bs, 0) 0 (int (length bs) - 1) = Some (int (length bs - n))"
    using compressInteger_scan_eq [of bs "[]"] assms n by (simp add: n_def)
  obtain pre where "bs = pre @ ber_compress bs" using ber_compress_suffix by blast
  then have suffix: "ber_compress bs = drop (length bs - n) bs"
    by (metis append_eq_conv_conj length_append add_diff_cancel_right' n_def)
  show ?thesis
  proof (cases "n = length bs")
    case True
    then have "ber_compress bs = bs" using suffix by simp
    then show ?thesis using scan True by (simp add: BerEncoder_compressInteger_def)
  next
    case False
    then have "BerEncoder_compressInteger (bs, 0) (int (length bs)) =
       Some ((drop (length bs - n) bs @ drop n bs, 0), int n)"
      using scan n shift_down [of "length bs - n" n bs]
      by (simp add: BerEncoder_compressInteger_def of_nat_diff)
    then show ?thesis by (metis suffix n_def)
  qed
qed

lemma rd_middle: "i < length bs \<Longrightarrow> rd (pre @ bs @ post, int (length pre)) (int i) = Some (bs ! i)"
  by (simp add: rd_def nth_append flip: of_nat_add)

lemma wr_middle:
  "i < length bs \<Longrightarrow> wr (pre @ bs @ post, int (length pre)) (int i) x = Some (pre @ bs[i := x] @ post, int (length pre))"
  by (simp add: wr_def list_update_append flip: of_nat_add)

definition swapped :: "byte list \<Rightarrow> nat \<Rightarrow> byte list" where
  "swapped bs k = map (\<lambda>i. if i < k \<or> length bs - 1 - i < k then bs ! (length bs - 1 - i) else bs ! i) [0..<length bs]"

lemma length_swapped [simp]: "length (swapped bs k) = length bs"
  by (simp add: swapped_def)

lemma swapped_nth: "i < length bs \<Longrightarrow>
   swapped bs k ! i = (if i < k \<or> length bs - 1 - i < k then bs ! (length bs - 1 - i) else bs ! i)"
  by (simp add: swapped_def)

lemma swapped_0: "swapped bs 0 = bs"
  by (rule nth_equalityI) (simp_all add: swapped_nth)

lemma swapped_half: "swapped bs (length bs div 2) = rev bs"
proof (rule nth_equalityI)
  fix i assume i: "i < length (swapped bs (length bs div 2))"
  have "length bs - 1 - i = i" if "\<not> i < length bs div 2" "\<not> length bs - 1 - i < length bs div 2"
    using that i by simp
  then show "swapped bs (length bs div 2) ! i = rev bs ! i"
    using i by (auto simp: swapped_nth rev_nth)
qed simp

lemma swapped_step:
  assumes "k < length bs div 2"
  shows "(swapped bs k)[k := swapped bs k ! (length bs - 1 - k), length bs - 1 - k := swapped bs k ! k] =
     swapped bs (Suc k)"
proof (rule nth_equalityI)
  fix i
  assume "i < length ((swapped bs k)[k := swapped bs k ! (length bs - 1 - k), length bs - 1 - k := swapped bs k ! k])"
  then have i: "i < length bs" by simp
  have k: "k < length bs" "length bs - 1 - k < length bs" "k \<noteq> length bs - 1 - k"
    "length bs - 1 - (length bs - 1 - k) = k" "\<not> length bs - 1 - k < k"
    using assms by simp_all
  show "(swapped bs k)[k := swapped bs k ! (length bs - 1 - k), length bs - 1 - k := swapped bs k ! k] ! i =
     swapped bs (Suc k) ! i"
  proof (cases "i = k \<or> i = length bs - 1 - k")
    case True
    then show ?thesis using k i by (auto simp: nth_list_update swapped_nth)
  next
    case False
    then have "length bs - 1 - i \<noteq> k" using i by auto
    then show ?thesis using k i False by (auto simp: nth_list_update swapped_nth less_Suc_eq)
  qed
qed simp

text \<open>The in-place swap reverses exactly the given octets.\<close>

lemma revertByteOrder_eq:
  "BerEncoder_revertByteOrder (pre @ bs @ post, int (length pre)) (int (length bs)) =
     Some (pre @ rev bs @ post, int (length pre))"
proof -
  let ?n = "int (length bs)"
  let ?g = "\<lambda>k. (pre @ swapped bs (nat k) @ post, int (length pre))"
  have half: "?n sdiv 2 = int (length bs div 2)"
    by (simp add: zdiv_int)
  have "for_range 0 (?n sdiv 2) (\<lambda>i p. do { temp \<leftarrow> rd p i; x \<leftarrow> rd p ((?n - 1) - i);
       p \<leftarrow> wr p i x; wr p ((?n - 1) - i) temp }) (?g 0) = Some (?g (?n sdiv 2))"
  proof (rule for_range_det)
    fix i assume i: "0 \<le> i" "i < ?n sdiv 2"
    define j where "j = nat i"
    have j: "i = int j" "j < length bs div 2" using i half by (simp_all add: j_def)
    define m where "m = length bs - 1 - j"
    have m: "?n - 1 - i = int m" "m < length bs" "j < length bs"
      using j by (simp_all add: m_def of_nat_diff)
    have "(swapped bs j)[j := swapped bs j ! m, m := swapped bs j ! j] = swapped bs (Suc j)"
      using swapped_step [OF j(2)] by (simp add: m_def)
    then show "do { temp \<leftarrow> rd (?g i) i; x \<leftarrow> rd (?g i) ((?n - 1) - i); p \<leftarrow> wr (?g i) i x;
       wr p ((?n - 1) - i) temp } = Some (?g (i + 1))"
      unfolding m(1) using j m(2,3) by (simp add: rd_middle wr_middle nat_add_distrib)
  qed (simp add: half)
  then show ?thesis
    by (simp add: BerEncoder_revertByteOrder_def half swapped_0 swapped_half)
qed

section \<open>Integer encoders\<close>

definition uint32_octets :: "32 word \<Rightarrow> byte list" where
  "uint32_octets v = ber_compress (0 # rev (le_bytes 4 v))"

definition int32_octets :: "32 word \<Rightarrow> byte list" where
  "int32_octets v = ber_compress (rev (le_bytes 4 v))"

lemma length_le_bytes [simp]: "length (le_bytes n v) = n"
  by (induction n arbitrary: v) simp_all

lemma le_bytes_ne [simp]: "le_bytes n v = [] \<longleftrightarrow> n = 0"
  by (cases n) simp_all

lemma take_bit_uint: "take_bit LENGTH('a) (uint (v :: 'a::len word)) = uint v"
  by (simp add: take_bit_int_eq_self)

lemma be_uint_le_bytes: "be_uint (rev (le_bytes n v)) = uint v mod 256 ^ n"
proof (induction n arbitrary: v)
  case (Suc n)
  have "uint (drop_bit 8 v) = uint v div 256"
    by (simp only: unsigned_drop_bit_eq take_bit_uint) (simp add: drop_bit_eq_div)
  moreover have "uint (ucast v :: byte) = uint v mod 256"
    by (simp add: unsigned_ucast_eq take_bit_eq_mod)
  ultimately show ?case
    by (simp add: Suc be_uint_snoc zmod_zmult2_eq)
qed simp

lemma be_sint_alt:
  "bs \<noteq> [] \<Longrightarrow> be_sint bs = (if 256 ^ length bs \<le> 2 * be_uint bs then be_uint bs - 256 ^ length bs else be_uint bs)"
proof (cases bs)
  case (Cons b cs)
  let ?P = "256 ^ length cs :: int"
  have r: "0 \<le> be_uint cs" "be_uint cs < ?P" using be_uint_bound [of cs] by simp_all
  have "128 \<le> uint b \<longleftrightarrow> 128 * ?P \<le> uint b * ?P + be_uint cs"
  proof
    assume "128 \<le> uint b"
    then have "128 * ?P \<le> uint b * ?P" by (intro mult_right_mono) auto
    then show "128 * ?P \<le> uint b * ?P + be_uint cs" using r by linarith
  next
    assume *: "128 * ?P \<le> uint b * ?P + be_uint cs"
    show "128 \<le> uint b"
    proof (rule ccontr)
      assume "\<not> 128 \<le> uint b"
      then have "uint b * ?P \<le> 127 * ?P" by (intro mult_right_mono) auto
      then show False using * r by linarith
    qed
  qed
  then show ?thesis by (simp add: Cons be_sint_def be_uint_Cons)
qed simp

lemma sint_alt: "sint (v :: 'a::len word) =
   (if 2 ^ (LENGTH('a) - 1) \<le> uint v then uint v - 2 ^ LENGTH('a) else uint v)"
proof -
  have u: "0 \<le> uint v" "uint v < 2 ^ LENGTH('a)" by simp_all
  have l: "(2 :: int) ^ LENGTH('a) = 2 * 2 ^ (LENGTH('a) - 1)"
    by (metis One_nat_def Suc_pred len_gt_0 power_Suc)
  have "bit (uint v) (LENGTH('a) - 1) \<longleftrightarrow> 2 ^ (LENGTH('a) - 1) \<le> uint v"
  proof -
    have "uint v div 2 ^ (LENGTH('a) - 1) = (if 2 ^ (LENGTH('a) - 1) \<le> uint v then 1 else 0)"
      using u l by (auto simp: div_pos_geq)
    then show ?thesis by (simp add: bit_iff_odd)
  qed
  then show ?thesis
    by (simp add: sint_uint signed_take_bit_eq_take_bit_minus take_bit_uint)
qed

lemma be_uint_full:
  "LENGTH('a) = 8 * n \<Longrightarrow> be_uint (rev (le_bytes n (v :: 'a::len word))) = uint v"
  using unsigned_less [of v, where 'a = int]
  by (simp add: be_uint_le_bytes power_mult)

lemma be_sint_uint32: "be_sint (0 # rev (le_bytes 4 v)) = uint (v :: 32 word)"
  by (simp add: be_sint_def be_uint_Cons be_uint_full)

lemma be_sint_int32: "be_sint (rev (le_bytes 4 v)) = sint (v :: 32 word)"
  by (simp add: be_sint_alt sint_alt be_uint_full)

lemma uint32_octets_value: "be_sint (uint32_octets v) = uint v"
  by (simp add: uint32_octets_def be_sint_compress be_sint_uint32)

lemma int32_octets_value: "be_sint (int32_octets v) = sint v"
  by (simp add: int32_octets_def be_sint_compress be_sint_int32)

lemma uint32_octets_len: "uint32_octets v \<noteq> []" "length (uint32_octets v) \<le> 5"
  using length_ber_compress [of "0 # rev (le_bytes 4 v)"] by (simp_all add: uint32_octets_def)

lemma uint32_valueBuffer_eq: "uint32_valueBuffer le v = Some (0 # rev (le_bytes 4 v), 0)"
proof (cases le)
  case True
  have "BerEncoder_revertByteOrder (0 # le_bytes 4 v, 1) 4 = Some (0 # rev (le_bytes 4 v), 1)"
    using revertByteOrder_eq [of "[0]" "le_bytes 4 v" "[]"] by simp
  then show ?thesis using True by (simp add: uint32_valueBuffer_def native_bytes_def padd_def)
qed (simp add: uint32_valueBuffer_def native_bytes_def)

lemma compress_copy:
  assumes "bs \<noteq> []" and "n = int (length bs)"
  shows "(do { (vb, n) \<leftarrow> BerEncoder_compressInteger (bs, 0) n; f n (copy_bytes vb n) }) =
     f (int (length (ber_compress bs))) (emit (ber_compress bs))"
proof -
  obtain junk where "BerEncoder_compressInteger (bs, 0) (int (length bs)) =
     Some ((ber_compress bs @ junk, 0), int (length (ber_compress bs)))"
    using compressInteger_eq [OF assms(1)] by blast
  moreover have "copy_bytes (ber_compress bs @ junk, 0) (int (length (ber_compress bs))) = emit (ber_compress bs)"
    by (rule ext, rule copy_bytes_emits) simp_all
  ultimately show ?thesis by (simp add: assms(2))
qed

text \<open>The emitted octets do not depend on the byte order of the host.\<close>

lemma encodeUInt32_emits [emits]: "BerEncoder_encodeUInt32 le v s = emit (uint32_octets v) s"
  using compress_copy [of "0 # rev (le_bytes 4 v)" 5 "\<lambda>_ c. c s"]
  by (simp add: BerEncoder_encodeUInt32_def uint32_valueBuffer_eq uint32_octets_def del: ber_compress.simps)

lemma encodeInt32_emits [emits]: "BerEncoder_encodeInt32 le v s = emit (int32_octets v) s"
  using compress_copy [of "rev (le_bytes 4 v)" 4 "\<lambda>_ c. c s"]
  by (simp add: BerEncoder_encodeInt32_def native_bytes_def int32_octets_def)

lemma UInt32determineEncodedSize_eq:
  "BerEncoder_UInt32determineEncodedSize le v = Some (int (length (uint32_octets v)))"
  using compress_copy [of "0 # rev (le_bytes 4 v)" 5 "\<lambda>n _. Some n"]
  by (simp add: BerEncoder_UInt32determineEncodedSize_def uint32_valueBuffer_eq uint32_octets_def
      del: ber_compress.simps)

lemma encodeUInt32WithTL_emits [emits]:
  "BerEncoder_encodeUInt32WithTL le tag v s =
     emit (tag # word_of_int (int (length (uint32_octets v))) # uint32_octets v) s"
  using compress_copy [of "0 # rev (le_bytes 4 v)" 5
      "\<lambda>n c. do { s \<leftarrow> put tag s; s \<leftarrow> put (word_of_int n) s; c s }"]
  by (simp add: BerEncoder_encodeUInt32WithTL_def uint32_valueBuffer_eq uint32_octets_def
      emit_single emit_fuse del: ber_compress.simps emit.simps of_int_of_nat_eq)

section \<open>Bit strings and floating point numbers\<close>

lemma wr_rd_same: "wr p i x = Some q \<Longrightarrow> rd q i = Some x"
  by (auto simp: wr_def rd_def Let_def nat_less_iff split: if_splits)

lemma wr_wr_same: "wr p i x = Some q \<Longrightarrow> wr q i y = wr p i y"
  by (auto simp: wr_def Let_def split: if_splits)

lemma emit_patch_last:
  "(do { t \<leftarrow> emit (ys @ [x]) s; y \<leftarrow> rd (fst t) (snd t - 1); b \<leftarrow> wr (fst t) (snd t - 1) (y AND m);
      Some (b, snd t) }) = emit (ys @ [x AND m]) s"
proof (cases "emit ys s")
  case (Some u)
  show ?thesis
  proof (cases "wr (fst u) (snd u) x")
    case None
    then have "wr (fst u) (snd u) y = None" for y by (simp add: wr_def Let_def split: if_splits)
    then show ?thesis using Some None by (simp add: emit_append put_def)
  next
    case (Some q)
    then show ?thesis
      using \<open>emit ys s = Some u\<close> wr_rd_same [OF Some] wr_wr_same [OF Some]
      by (simp add: emit_append put_def)
  qed
qed (simp add: emit_append)

lemma padding_mask:
  assumes "0 \<le> n"
  shows "for_range 0 n (\<lambda>i m. Some (m + push_bit (nat i) 1)) (0 :: byte) = Some (2 ^ nat n - 1)"
proof -
  have "for_range 0 n (\<lambda>i m. Some (m + push_bit (nat i) 1)) (2 ^ nat 0 - 1 :: byte) = Some (2 ^ nat n - 1)"
    using assms by (intro for_range_det) (simp_all add: push_bit_eq_mult nat_add_distrib)
  then show ?thesis by simp
qed

text \<open>The octets of a bit string: the unused bits of the last octet are cleared.\<close>

definition bit_string_octets :: "int \<Rightarrow> byte list \<Rightarrow> byte list" where
  "bit_string_octets bits xs = (let padding = bit_string_byte_size bits * 8 - bits in
     if xs = [] then [word_of_int padding AND NOT (2 ^ nat padding - 1)]
     else word_of_int padding # butlast xs @ [last xs AND NOT (2 ^ nat padding - 1)])"

lemma bit_string_byte_size_nonneg:
  assumes "0 \<le> bits"
  shows "0 \<le> bit_string_byte_size bits" "0 \<le> bit_string_byte_size bits * 8 - bits"
    "bit_string_byte_size bits * 8 - bits < 8"
  using assms by (simp_all add: bit_string_byte_size_def Let_def) presburger+

lemma encodeBitString_emits [emits]:
  assumes "0 \<le> bits" and "bits < 2 ^ 31" and "rdn bitString 0 (nat (bit_string_byte_size bits)) = Some xs"
  shows "BerEncoder_encodeBitString tag bits bitString s =
     emit (tag # len_octets (bit_string_byte_size bits + 1) @ bit_string_octets bits xs) s"
proof -
  let ?n = "bit_string_byte_size bits"
  let ?p = "?n * 8 - bits"
  have b: "0 \<le> ?n" "0 \<le> ?p" "?n + 1 < 2 ^ 32"
    using bit_string_byte_size_nonneg [OF assms(1)] assms(2) by simp_all
  have c: "copy_bytes bitString ?n t = emit xs t" for t
    using assms(3) b(1) by (rule copy_bytes_emits)
  have l: "uint (word_of_int (?n + 1) :: 32 word) = ?n + 1"
    using b by (intro uint32_of_int) simp_all
  let ?h = "tag # len_octets (?n + 1)"
  have run: "BerEncoder_encodeBitString tag bits bitString s =
     (do { t \<leftarrow> emit (?h @ [word_of_int ?p] @ xs) s; y \<leftarrow> rd (fst t) (snd t - 1);
        b \<leftarrow> wr (fst t) (snd t - 1) (y AND NOT (2 ^ nat ?p - 1)); Some (b, snd t) })"
    unfolding BerEncoder_encodeBitString_def Let_def padding_mask [OF b(2)] encodeLength_emits l c
    by (simp add: emit_single emit_fuse emit_fuse_bind del: emit.simps of_int_add of_int_diff of_int_mult)
  show ?thesis
  proof (cases "xs = []")
    case True
    then show ?thesis
      using emit_patch_last [of ?h "word_of_int ?p" s "NOT (2 ^ nat ?p - 1)"]
      by (simp add: run bit_string_octets_def Let_def)
  next
    case False
    then have "?h @ [word_of_int ?p] @ xs = (?h @ word_of_int ?p # butlast xs) @ [last xs]" by simp
    then show ?thesis
      using False emit_patch_last [of "?h @ word_of_int ?p # butlast xs" "last xs" s "NOT (2 ^ nat ?p - 1)"]
      unfolding run by (simp add: bit_string_octets_def Let_def)
  qed
qed

lemma wr_padd: "wr (padd b p) k x = map_option (\<lambda>b'. padd b' p) (wr b (p + k) x)"
  by (simp add: wr_def padd_def Let_def algebra_simps)

lemma float_copy_gen:
  "for_range i (i + int n) (\<lambda>i vb. do { x \<leftarrow> rd src i; wr vb (i + 1) x }) (padd b p) =
     (do { xs \<leftarrow> rdn src i n; t \<leftarrow> emit xs (b, p + (i + 1)); Some (padd (fst t) p) })"
proof (induction n arbitrary: i b)
  case (Suc n)
  have "for_range (i + 1) (i + int (Suc n)) (\<lambda>i vb. do { x \<leftarrow> rd src i; wr vb (i + 1) x }) (padd c p)
     = (do { xs \<leftarrow> rdn src (i + 1) n; t \<leftarrow> emit xs (c, p + (i + 1) + 1); Some (padd (fst t) p) })" for c
    using Suc.IH [of "i + 1" c] by (simp add: algebra_simps)
  then show ?case
    by (cases "rd src i"; cases "rdn src (i + 1) n"; cases "wr b (p + (i + 1)) (the (rd src i))")
      (simp_all add: for_range_step wr_padd put_def)
qed simp

text \<open>A floating point number is its exponent width and its octets, most significant first.\<close>

lemma encodeFloat_emits [emits]:
  assumes "rdn src 0 (nat (uint fw div 8)) = Some xs"
  shows "BerEncoder_encodeFloat le src fw ew s = emit (ew # (if le then rev xs else xs)) s"
proof -
  obtain b pos where s: "s = (b, pos)" by (cases s)
  let ?n = "uint fw div 8"
  have n: "0 \<le> ?n" "length xs = nat ?n" using length_rdn [OF assms]
    by (simp_all add: pos_imp_zdiv_nonneg_iff)
  have loop: "for_range 0 ?n (\<lambda>i vb. do { x \<leftarrow> rd src i; wr vb (i + 1) x }) (padd c pos) =
     (do { t \<leftarrow> emit xs (c, pos + 1); Some (padd (fst t) pos) })" for c
    using float_copy_gen [of 0 "nat ?n" src c pos] assms n by simp
  have run: "BerEncoder_encodeFloat le src fw ew s = (do { t \<leftarrow> emit (ew # xs) s;
     vb \<leftarrow> (if le then do { q \<leftarrow> BerEncoder_revertByteOrder (padd (fst t) (pos + 1)) ?n; Some (padd q (- 1 - pos)) }
           else Some (fst t));
     Some (vb, pos + 1 + ?n) })"
    by (cases "wr b pos ew"; cases "emit xs (the (wr b pos ew), pos + 1)")
      (auto simp: BerEncoder_encodeFloat_def s Let_def wr_padd loop put_def bind_eq_Some_conv
        intro!: Option.bind_cong)
  show ?thesis
  proof (cases "valid_range b pos (pos + int (length (ew # xs)))")
    case False
    then have "emit (ew # xs) s = None" "emit (ew # (if le then rev xs else xs)) s = None"
      by (intro emit_None; simp add: s)+
    then show ?thesis by (simp add: run)
  next
    case True
    define pre where "pre = take (nat (snd b + pos)) (fst b) @ [ew]"
    define post where "post = drop (nat (snd b + pos) + length (ew # xs)) (fst b)"
    have lp: "int (length pre) = snd b + pos + 1"
      using True by (auto simp: pre_def valid_range_def)
    have em: "emit (ew # ys) s = Some ((pre @ ys @ post, snd b), pos + 1 + ?n)" if "length ys = length xs" for ys
      using emit_Some [of s "ew # ys"] True that n by (simp add: s pre_def post_def)
    have "BerEncoder_revertByteOrder (padd (pre @ xs @ post, snd b) (pos + 1)) ?n =
       Some (padd (pre @ rev xs @ post, snd b) (pos + 1))"
      using revertByteOrder_eq [of pre xs post] lp n by (simp add: padd_def add.assoc)
    then show ?thesis
      using em [of xs] em [of "rev xs"] by (simp add: run padd_def del: emit.simps)
  qed
qed

section \<open>The encoders meet the encoder contract\<close>

interpretation length_encoder: byte_encoder BerEncoder_encodeLength "\<lambda>len. len_octets (uint len)"
  by unfold_locales (rule encodeLength_emits)

interpretation tl_encoder: byte_encoder "\<lambda>(tag, len). BerEncoder_encodeTL tag len"
    "\<lambda>(tag, len). tag # len_octets (uint len)"
  by unfold_locales (simp add: encodeTL_emits split: prod.splits)

interpretation uint32_encoder: byte_encoder "BerEncoder_encodeUInt32 le" uint32_octets for le
  by unfold_locales (rule encodeUInt32_emits)

interpretation int32_encoder: byte_encoder "BerEncoder_encodeInt32 le" int32_octets for le
  by unfold_locales (rule encodeInt32_emits)

text \<open>
  C18: The size that \<open>BerEncoder_determineLengthSize\<close> announces for a length is the
  number of length octets that \<open>BerEncoder_encodeLength\<close> writes for every length but
  65535, for which it announces three octets and four are written.
\<close>

theorem announced_length_size:
  assumes "BerEncoder_encodeLength len (b, pos) = Some (b', pos')"
  shows "BerEncoder_determineLengthSize len = pos' - pos \<longleftrightarrow> len \<noteq> 65535"
proof -
  have p: "pos' - pos = int (length (len_octets (uint len)))"
    using length_encoder.enc_position [OF assms] by simp
  show ?thesis
  proof (cases "uint len = 65535")
    case True
    then have "len = 65535" by (metis uint_numeral word_uint_eqI of_int_numeral word_of_int_uint)
    then show ?thesis unfolding p
      by (simp add: BerEncoder_determineLengthSize_def length_len_octets)
  next
    case False
    then have "len \<noteq> 65535" by auto
    then show ?thesis using determineLengthSize_correct [OF False] p by simp
  qed
qed

theorem announced_length_size_witness:
  "BerEncoder_determineLengthSize 65535 \<noteq> 4 \<and> BerEncoder_determineLengthSize 300 = 3"
proof -
  have e: "BerEncoder_encodeLength len ((replicate 4 0, 0), 0) = Some ((len_octets (uint len) @ drop (length (len_octets (uint len))) (replicate 4 0), 0), int (length (len_octets (uint len))))"
    for len unfolding encodeLength_emits
    by (subst emit_Some) (simp_all add: valid_range_def length_len_octets)
  show ?thesis
    using announced_length_size [OF e, of 65535] announced_length_size [OF e, of 300]
    by (simp add: length_len_octets)
qed

text \<open>
  \<open>BerEncoder_Int32determineEncodedSize\<close> announces the size that
  \<open>BerEncoder_encodeInt32\<close> writes exactly for the numbers that are not negative; for
  every negative number it announces five octets, although at most four are written.
\<close>

theorem announced_int32_size:
  assumes "BerEncoder_encodeInt32 le v (b, pos) = Some (b', pos')"
  shows "\<exists>n. BerEncoder_Int32determineEncodedSize le v = Some n \<and>
     (n = pos' - pos \<longleftrightarrow> 0 \<le> sint v) \<and> (sint v < 0 \<longrightarrow> n = 5)"
proof -
  have p: "pos' - pos = int (length (int32_octets v))"
    using int32_encoder.enc_position [OF assms] by simp
  have n: "BerEncoder_Int32determineEncodedSize le v = Some (int (length (uint32_octets v)))"
    using UInt32determineEncodedSize_eq
    by (simp add: BerEncoder_Int32determineEncodedSize_def BerEncoder_UInt32determineEncodedSize_def)
  obtain x xs where x: "rev (le_bytes 4 v) = x # xs" by (cases "rev (le_bytes 4 v)") auto
  have "length (x # xs) = 4" using x by (metis length_rev length_le_bytes)
  then have len: "length (int32_octets v) \<le> 4"
    using length_ber_compress [of "x # xs"] by (simp add: int32_octets_def x)
  have sign: "sint v < 0 \<longleftrightarrow> 128 \<le> uint x"
    using be_sint_int32 [of v] be_uint_bound [of "x # xs"] by (auto simp: x be_sint_def split: if_splits)
  show ?thesis
  proof (cases "128 \<le> uint x")
    case True
    then have "length (uint32_octets v) = 5"
      using \<open>length (x # xs) = 4\<close> by (simp add: uint32_octets_def x byte_sign_bit)
    then show ?thesis using n p len sign True by auto
  next
    case False
    then have "uint32_octets v = int32_octets v"
      by (simp add: uint32_octets_def int32_octets_def x byte_sign_bit)
    then show ?thesis using n p sign False by auto
  qed
qed

theorem announced_int32_size_witness:
  "\<exists>n. BerEncoder_Int32determineEncodedSize True (- 1) = Some n \<and> n = 5 \<and>
     BerEncoder_encodeInt32 True (- 1) ((replicate 4 0, 0), 0) = Some ((0xff # replicate 3 0, 0), 1)"
proof -
  have "int32_octets (- 1) = [0xff]" by code_simp
  then have e: "BerEncoder_encodeInt32 True (- 1) ((replicate 4 0, 0), 0) = Some ((0xff # replicate 3 0, 0), 1)"
    unfolding encodeInt32_emits by code_simp
  show ?thesis using announced_int32_size [OF e] e by simp
qed

section \<open>Zero arcs of an object identifier\<close>

lemma is_digit_0: "is_digit CHR ''0''" "\<not> is_digit CHR ''.''" "is_digit CHR ''1''"
  "\<not> is_space CHR ''0''" "\<not> is_space CHR ''1''"
  by (simp_all add: is_digit_def is_space_def)

definition zero_arcs :: "nat \<Rightarrow> string" where
  "zero_arcs k = concat (replicate k ''.0'')"

lemma zero_arcs_simps [simp]: "zero_arcs 0 = []" "zero_arcs (Suc k) = CHR ''.'' # CHR ''0'' # zero_arcs k"
  by (simp_all add: zero_arcs_def)

lemma takeWhile_zero_arcs: "takeWhile is_digit (zero_arcs k) = []"
  by (cases k) (simp_all add: is_digit_0)

lemma oid_arcs_zero:
  "d \<noteq> CHR ''.'' \<Longrightarrow> oid_arcs CHR ''.'' (CHR ''.'' # d # zero_arcs k) maxBufLen s = emit (replicate k 0) s"
proof (induction k arbitrary: d s)
  case 0
  then show ?case by (simp add: oid_arcs.simps [of _ "[_, _]"] strchr_def)
next
  case (Suc k)
  have "atoi (CHR ''0'' # zero_arcs k) = Some 0"
    by (simp add: atoi_def is_digit_0 takeWhile_zero_arcs)
  then show ?case using Suc.prems
    by (subst oid_arcs.simps) (simp add: strchr_def Suc.IH cong: Option.bind_cong)
qed

lemma encodeOID_zero_arcs:
  assumes "0 < maxBufLen"
  shows "BerEncoder_encodeOIDToBuffer (''1.1'' @ zero_arcs k) buffer maxBufLen = emit (41 # replicate k 0) (buffer, 0)"
proof -
  have a: "atoi (CHR ''1'' # CHR ''.'' # cs) = Some 1" "atoi (CHR ''1'' # zero_arcs k) = Some 1" for cs
    by (simp_all add: atoi_def is_digit_0 takeWhile_zero_arcs)
  show ?thesis using assms oid_arcs_zero [of "CHR ''1''" k maxBufLen]
    by (simp add: BerEncoder_encodeOIDToBuffer_def strchr_def a cong: Option.bind_cong)
qed

text \<open>
  The bound on the output buffer is not checked for an arc of value zero.
\<close>

lemma oid_zero_arcs_overrun:
  assumes "length blk = 10"
  shows "BerEncoder_encodeOIDToBuffer (''1.1'' @ concat (replicate k ''.0'')) (blk, 0) 10 = None \<longleftrightarrow> 10 \<le> k"
proof -
  have "emit (41 # replicate k 0) ((blk, 0), 0) = None \<longleftrightarrow> 10 \<le> k"
  proof (cases "10 \<le> k")
    case True
    then have "emit (41 # replicate k 0) ((blk, 0), 0) = None"
      using assms by (intro emit_None) (auto simp: valid_range_def)
    then show ?thesis using True by simp
  next
    case False
    then show ?thesis
      using assms emit_Some [of "((blk, 0), 0)" "41 # replicate k 0"] by (simp add: valid_range_def)
  qed
  then show ?thesis using encodeOID_zero_arcs [of 10 k "(blk, 0)"] by (simp add: zero_arcs_def)
qed

end
