(* ===== verification/Ber_Decoder.thy ===== *)
theory Ber_Decoder
  imports Ber_Encoder
begin

text \<open>
  The BER decoder, \<^verbatim>\<open>src/sources/mms/asn1/ber_decode.c\<close>. A position that is
  \<open>-1\<close> reports a malformed encoding. The length comes back through a pointer
  in C; here it is the second component of the result, \<open>None\<close> when the
  function returns without having stored anything there.
\<close>

section \<open>Length octets\<close>

text \<open>
  The loop over the elements of an indefinite length value. \<open>dec\<close> decodes the
  length of one element; C calls \<open>BerDecoder_decodeLengthRecursive\<close> at the next depth.
\<close>

partial_function (option) getIndefiniteLength_loop ::
    "(int \<Rightarrow> (int \<times> int option) option) \<Rightarrow> ptr \<Rightarrow> int \<Rightarrow> int \<Rightarrow> int \<Rightarrow> int option" where
  "getIndefiniteLength_loop dec buffer maxBufPos bufPos len =
     (if bufPos < maxBufPos then do {
        b0 \<leftarrow> rd buffer bufPos;
        endOfContents \<leftarrow> (if b0 = 0 \<and> bufPos + 1 < maxBufPos
          then do { b1 \<leftarrow> rd buffer (bufPos + 1); Some (b1 = 0) } else Some False);
        if endOfContents then Some (len + 2)
        else do {
          let extended = (b0 AND 0x1f = 0x1f);
          let bufPos = (if extended then bufPos + 2 else bufPos + 1);
          let len = (if extended then len + 2 else len + 1);
          (newBufPos, stored) \<leftarrow> dec bufPos;
          let subLength = (case stored of None \<Rightarrow> - 1 | Some l \<Rightarrow> l);
          if newBufPos = - 1 then Some (- 1)
          else getIndefiniteLength_loop dec buffer maxBufPos (newBufPos + subLength)
                 (len + (subLength + newBufPos - bufPos)) } }
      else Some (- 1))"

text \<open>The loop of the long form; \<open>Inl\<close> is the early \<open>return -1\<close> with the length stored so far.\<close>

fun decodeLength_octets :: "ptr \<Rightarrow> int \<Rightarrow> nat \<Rightarrow> int \<Rightarrow> int \<Rightarrow> (int + int \<times> int) option" where
  "decodeLength_octets buffer maxBufPos 0 bufPos len = Some (Inr (bufPos, len))"
| "decodeLength_octets buffer maxBufPos (Suc n) bufPos len =
     (if bufPos \<ge> maxBufPos then Some (Inl len)
      else do {
        e \<leftarrow> i32 (bufPos + len);
        if e > maxBufPos then Some (Inl len)
        else do {
          len \<leftarrow> i32 (len * 256);
          b \<leftarrow> rd buffer bufPos;
          len \<leftarrow> i32 (len + uint b);
          decodeLength_octets buffer maxBufPos n (bufPos + 1) len } })"

text \<open>The two range checks that end \<open>BerDecoder_decodeLengthRecursive\<close>.\<close>

definition decodeLength_check :: "int \<Rightarrow> int \<Rightarrow> int \<Rightarrow> (int \<times> int option) option" where
  "decodeLength_check maxBufPos bufPos len =
     (if len < 0 then Some (- 1, Some len)
      else do {
        e \<leftarrow> i32 (bufPos + len);
        if e > maxBufPos then Some (- 1, Some len) else Some (bufPos, Some len) })"

function getIndefiniteLength :: "ptr \<Rightarrow> int \<Rightarrow> int \<Rightarrow> nat \<Rightarrow> nat \<Rightarrow> int option"
  and BerDecoder_decodeLengthRecursive :: "ptr \<Rightarrow> int \<Rightarrow> int \<Rightarrow> nat \<Rightarrow> nat \<Rightarrow> (int \<times> int option) option" where
  "getIndefiniteLength buffer bufPos maxBufPos depth maxDepth =
     (let depth = depth + 1 in
      if depth > maxDepth then Some (- 1)
      else getIndefiniteLength_loop
        (\<lambda>p. BerDecoder_decodeLengthRecursive buffer p maxBufPos depth maxDepth) buffer maxBufPos bufPos 0)"
| "BerDecoder_decodeLengthRecursive buffer bufPos maxBufPos depth maxDepth =
     (if bufPos \<ge> maxBufPos then Some (- 1, None)
      else do {
        len1 \<leftarrow> rd buffer bufPos;
        let bufPos = bufPos + 1;
        if len1 AND 0x80 \<noteq> 0 then
          let lenLength = len1 AND 0x7f in
          if lenLength = 0 then do {
            len \<leftarrow> getIndefiniteLength buffer bufPos maxBufPos depth maxDepth;
            decodeLength_check maxBufPos bufPos len }
          else do {
            r \<leftarrow> decodeLength_octets buffer maxBufPos (unat lenLength) bufPos 0;
            case r of Inl len \<Rightarrow> Some (- 1, Some len)
            | Inr (bufPos, len) \<Rightarrow> decodeLength_check maxBufPos bufPos len }
        else decodeLength_check maxBufPos bufPos (uint len1) })"
  by pat_completeness auto
termination
  by (relation "measure (\<lambda>x. case x of Inl (_, _, _, d, m) \<Rightarrow> 2 * (m - d) | Inr (_, _, _, d, m) \<Rightarrow> 2 * (m - d) + 1)")
    auto

declare getIndefiniteLength.simps [simp del] BerDecoder_decodeLengthRecursive.simps [simp del]

definition BerDecoder_decodeLength :: "ptr \<Rightarrow> int \<Rightarrow> int \<Rightarrow> (int \<times> int option) option" where
  "BerDecoder_decodeLength buffer bufPos maxBufPos =
     BerDecoder_decodeLengthRecursive buffer bufPos maxBufPos 0 50"

section \<open>Primitive values\<close>

text \<open>
  \<open>alloc n\<close> tells whether the allocation of \<open>n\<close> bytes succeeds. The result is the
  new string with its terminating NUL, or \<open>NULL\<close>.
\<close>

definition BerDecoder_decodeString :: "(int \<Rightarrow> bool) \<Rightarrow> ptr \<Rightarrow> int \<Rightarrow> int \<Rightarrow> int \<Rightarrow> byte list option option" where
  "BerDecoder_decodeString alloc buffer strlen bufPos maxBufPos =
     (if maxBufPos - bufPos < 0 then Some None
      else if alloc (strlen + 1) then
        (if strlen < 0 then None else do { cs \<leftarrow> rdn buffer bufPos (nat strlen); Some (Some (cs @ [0])) })
      else Some None)"

definition BerDecoder_decodeUint32 :: "ptr \<Rightarrow> int \<Rightarrow> int \<Rightarrow> 32 word option" where
  "BerDecoder_decodeUint32 buffer intLen bufPos =
     for_range 0 intLen (\<lambda>i v. do { b \<leftarrow> rd buffer (bufPos + i); Some (push_bit 8 v + ucast b) }) 0"

definition BerDecoder_decodeInt32 :: "ptr \<Rightarrow> int \<Rightarrow> int \<Rightarrow> 32 word option" where
  "BerDecoder_decodeInt32 buffer intlen bufPos = do {
     b0 \<leftarrow> rd buffer bufPos;
     let isNegative = (b0 AND 0x80 = 0x80);
     let v = (if isNegative then - 1 else 0);
     for_range 0 intlen (\<lambda>i v. do { b \<leftarrow> rd buffer (bufPos + i); Some (push_bit 8 v + ucast b) }) v }"

text \<open>A \<open>float\<close> or \<open>double\<close> is its image in memory.\<close>

definition BerDecoder_decodeFloat :: "bool \<Rightarrow> ptr \<Rightarrow> int \<Rightarrow> byte list option" where
  "BerDecoder_decodeFloat le buffer bufPos = do {
     let bufPos = bufPos + 1;
     xs \<leftarrow> rdn buffer bufPos 4;
     Some (if le then rev xs else xs) }"

definition BerDecoder_decodeDouble :: "bool \<Rightarrow> ptr \<Rightarrow> int \<Rightarrow> byte list option" where
  "BerDecoder_decodeDouble le buffer bufPos = do {
     let bufPos = bufPos + 1;
     xs \<leftarrow> rdn buffer bufPos 8;
     Some (if le then rev xs else xs) }"

definition BerDecoder_decodeBoolean :: "ptr \<Rightarrow> int \<Rightarrow> bool option" where
  "BerDecoder_decodeBoolean buffer bufPos = do { b \<leftarrow> rd buffer bufPos; Some (b \<noteq> 0) }"

record ItuObjectIdentifier =
  arc :: "16 word list"
  arcCount :: int

text \<open>The loop over the octets behind the first one; \<open>n\<close> octets are left.\<close>

fun decodeOID_arcs :: "ptr \<Rightarrow> nat \<Rightarrow> int \<Rightarrow> nat \<Rightarrow> 16 word list \<Rightarrow> (16 word list \<times> nat) option" where
  "decodeOID_arcs buffer 0 bufPos currentArc arcs = Some (arcs, currentArc)"
| "decodeOID_arcs buffer (Suc n) bufPos currentArc arcs =
     (if currentArc < 10 then do {
        let a = push_bit 7 (arcs ! currentArc);
        b \<leftarrow> rd buffer bufPos;
        if b < 0x80 then
          decodeOID_arcs buffer n (bufPos + 1) (Suc currentArc) (arcs[currentArc := a + ucast b])
        else
          decodeOID_arcs buffer n (bufPos + 1) currentArc (arcs[currentArc := a + ucast (b AND 0x7f)]) }
      else Some (arcs, currentArc))"

definition BerDecoder_decodeOID :: "ptr \<Rightarrow> int \<Rightarrow> int \<Rightarrow> ItuObjectIdentifier option" where
  "BerDecoder_decodeOID buffer bufPos len = do {
     let arcs = replicate 10 0;
     if len > 0 then do {
       b \<leftarrow> rd buffer bufPos;
       let arcs = arcs[0 := ucast b div 40, 1 := ucast b mod 40];
       (arcs, n) \<leftarrow> decodeOID_arcs buffer (nat (len - 1)) (bufPos + 1) 2 arcs;
       Some \<lparr>arc = arcs, arcCount = int n\<rparr> }
     else Some \<lparr>arc = arcs, arcCount = 0\<rparr> }"

section \<open>Decoding a length is safe and stays in the buffer\<close>

definition decode_ok :: "int \<Rightarrow> int \<Rightarrow> int \<times> int option \<Rightarrow> bool" where
  "decode_ok bufPos maxBufPos r \<longleftrightarrow>
     fst r = - 1 \<or> (\<exists>n. snd r = Some n \<and> 0 \<le> n \<and> bufPos < fst r \<and> fst r + n \<le> maxBufPos)"

lemma getIndefiniteLength_loop_safe:
  assumes dec: "\<And>p. lo \<le> p \<Longrightarrow> \<exists>r. dec p = Some r \<and> decode_ok p maxBufPos r"
    and v: "valid_range buffer lo maxBufPos" and lo: "0 \<le> lo"
  shows "lo \<le> bufPos \<Longrightarrow> 0 \<le> len \<Longrightarrow>
     \<exists>r. getIndefiniteLength_loop dec buffer maxBufPos bufPos len = Some r \<and>
       (r = - 1 \<or> len + 2 \<le> r \<and> r - len \<le> maxBufPos - bufPos)"
proof (induction "nat (maxBufPos - bufPos)" arbitrary: bufPos len rule: less_induct)
  case less
  show ?case
  proof (cases "bufPos < maxBufPos")
    case False
    then show ?thesis by (simp add: getIndefiniteLength_loop.simps)
  next
    case True
    obtain b0 where b0: "rd buffer bufPos = Some b0"
      using rd_valid [OF v less.prems(1) True] by blast
    obtain eoc where eoc: "(if b0 = 0 \<and> bufPos + 1 < maxBufPos
        then do { b1 \<leftarrow> rd buffer (bufPos + 1); Some (b1 = 0) } else Some False) = Some eoc"
      "eoc \<Longrightarrow> bufPos + 1 < maxBufPos"
      using rd_valid [OF v, of "bufPos + 1"] less.prems(1) by (cases "b0 = 0 \<and> bufPos + 1 < maxBufPos") auto
    show ?thesis
    proof (cases eoc)
      case True
      then show ?thesis
        using \<open>bufPos < maxBufPos\<close> b0 eoc less.prems by (simp add: getIndefiniteLength_loop.simps)
    next
      case False
      define p where "p = (if b0 AND 0x1f = 0x1f then bufPos + 2 else bufPos + 1)"
      define l where "l = (if b0 AND 0x1f = 0x1f then len + 2 else len + 1)"
      have p: "bufPos < p" "l - len = p - bufPos" "0 \<le> l" using less.prems by (simp_all add: p_def l_def)
      have step: "getIndefiniteLength_loop dec buffer maxBufPos bufPos len =
        (do { (newBufPos, stored) \<leftarrow> dec p;
          let subLength = (case stored of None \<Rightarrow> - 1 | Some l \<Rightarrow> l);
          if newBufPos = - 1 then Some (- 1)
          else getIndefiniteLength_loop dec buffer maxBufPos (newBufPos + subLength)
                 (l + (subLength + newBufPos - p)) })"
        using True False b0 eoc(1)
        by (subst getIndefiniteLength_loop.simps) (simp add: p_def l_def Let_def cong: if_cong)
      obtain q st where r: "dec p = Some (q, st)" "decode_ok p maxBufPos (q, st)"
        using dec [of p] less.prems p by fastforce
      show ?thesis
      proof (cases "q = - 1")
        case True
        then show ?thesis using r by (simp add: step)
      next
        case False
        then obtain n where n: "st = Some n" "0 \<le> n" "p < q" "q + n \<le> maxBufPos"
          using r(2) by (auto simp: decode_ok_def)
        have "nat (maxBufPos - (q + n)) < nat (maxBufPos - bufPos)"
          using n p True by simp
        then obtain r' where "getIndefiniteLength_loop dec buffer maxBufPos (q + n) (l + (n + q - p)) = Some r'"
          "r' = - 1 \<or> l + (n + q - p) + 2 \<le> r' \<and> r' - (l + (n + q - p)) \<le> maxBufPos - (q + n)"
          using less.hyps [of "q + n" "l + (n + q - p)"] less.prems n p by auto
        then show ?thesis using False n r(1) p by (auto simp: step)
      qed
    qed
  qed
qed

lemma decodeLength_octets_safe:
  assumes v: "valid_range buffer lo maxBufPos" and "maxBufPos < 2 ^ 22" and "0 \<le> lo"
  shows "lo \<le> bufPos \<Longrightarrow> 0 \<le> len \<Longrightarrow> len < 2 ^ 30 \<Longrightarrow> bufPos \<le> maxBufPos \<Longrightarrow>
     \<exists>r. decodeLength_octets buffer maxBufPos n bufPos len = Some r \<and>
       (\<forall>p l. r = Inr (p, l) \<longrightarrow> bufPos \<le> p \<and> p \<le> maxBufPos \<and> 0 \<le> l \<and> l \<le> 2 ^ 30 + 255)"
proof (induction n arbitrary: bufPos len)
  case (Suc n)
  show ?case
  proof (cases "bufPos \<ge> maxBufPos \<or> bufPos + len > maxBufPos")
    case True
    then show ?thesis using Suc.prems assms by auto
  next
    case False
    obtain b where b: "rd buffer bufPos = Some b"
      using rd_valid [OF v Suc.prems(1)] False by auto
    have l: "0 \<le> len * 256 + uint b" "len * 256 + uint b < 2 ^ 30"
      using False Suc.prems assms byte_bound [of b] by auto
    have "\<exists>r. decodeLength_octets buffer maxBufPos n (bufPos + 1) (len * 256 + uint b) = Some r \<and>
       (\<forall>p l. r = Inr (p, l) \<longrightarrow> bufPos + 1 \<le> p \<and> p \<le> maxBufPos \<and> 0 \<le> l \<and> l \<le> 2 ^ 30 + 255)"
      using Suc.IH [of "bufPos + 1" "len * 256 + uint b"] Suc.prems l False by simp
    then show ?thesis using False Suc.prems b l assms byte_bound [of b] by fastforce
  qed
qed simp

lemma decodeLength_check_safe:
  assumes "p0 < bufPos" and "0 \<le> bufPos" and "bufPos \<le> maxBufPos" and "maxBufPos < 2 ^ 22" and "len \<le> 2 ^ 30 + 255"
  shows "\<exists>r. decodeLength_check maxBufPos bufPos len = Some r \<and> decode_ok p0 maxBufPos r"
  using assms by (auto simp: decodeLength_check_def decode_ok_def)

lemma decodeLengthRecursive_safe:
  assumes v: "valid_range buffer lo maxBufPos" and m: "maxBufPos < 2 ^ 22" and lo: "0 \<le> lo"
  shows "lo \<le> bufPos \<Longrightarrow>
     \<exists>r. BerDecoder_decodeLengthRecursive buffer bufPos maxBufPos depth maxDepth = Some r \<and> decode_ok bufPos maxBufPos r"
proof (induction "maxDepth - depth" arbitrary: bufPos depth rule: less_induct)
  case less
  show ?case
  proof (cases "bufPos \<ge> maxBufPos")
    case True
    then show ?thesis by (simp add: BerDecoder_decodeLengthRecursive.simps decode_ok_def)
  next
    case False
    obtain len1 where len1: "rd buffer bufPos = Some len1"
      using rd_valid [OF v less.prems] False by auto
    consider (short) "len1 AND 0x80 = 0" | (indef) "len1 AND 0x80 \<noteq> 0" "len1 AND 0x7f = 0"
      | (long) "len1 AND 0x80 \<noteq> 0" "len1 AND 0x7f \<noteq> 0" by blast
    then show ?thesis
    proof cases
      case short
      then show ?thesis
        using decodeLength_check_safe [of bufPos "bufPos + 1" maxBufPos "uint len1"] False less.prems m lo len1
          byte_bound [of len1]
        by (simp add: BerDecoder_decodeLengthRecursive.simps)
    next
      case indef
      have "\<exists>l. getIndefiniteLength buffer (bufPos + 1) maxBufPos depth maxDepth = Some l \<and> l \<le> 2 ^ 30 + 255"
      proof (cases "depth + 1 > maxDepth")
        case True
        then show ?thesis by (simp add: getIndefiniteLength.simps)
      next
        case d: False
        have "\<exists>r. BerDecoder_decodeLengthRecursive buffer p maxBufPos (depth + 1) maxDepth = Some r \<and>
            decode_ok p maxBufPos r" if "lo \<le> p" for p
          using less.hyps [of "depth + 1" p] d that by auto
        from getIndefiniteLength_loop_safe [of lo "\<lambda>p. BerDecoder_decodeLengthRecursive buffer p maxBufPos (depth + 1) maxDepth",
            OF this v lo, of "bufPos + 1" 0]
        obtain l where "getIndefiniteLength_loop (\<lambda>p. BerDecoder_decodeLengthRecursive buffer p maxBufPos (depth + 1) maxDepth)
            buffer maxBufPos (bufPos + 1) 0 = Some l" "l = - 1 \<or> 0 \<le> l \<and> l \<le> maxBufPos - (bufPos + 1)"
          using less.prems by auto
        then show ?thesis using d m less.prems lo by (auto simp: getIndefiniteLength.simps)
      qed
      then show ?thesis
        using decodeLength_check_safe [of bufPos "bufPos + 1" maxBufPos] False less.prems m lo len1 indef
        by (auto simp: BerDecoder_decodeLengthRecursive.simps [of buffer bufPos])
    next
      case long
      obtain r where r: "decodeLength_octets buffer maxBufPos (unat (len1 AND 0x7f)) (bufPos + 1) 0 = Some r"
        "\<And>p l. r = Inr (p, l) \<Longrightarrow> bufPos + 1 \<le> p \<and> p \<le> maxBufPos \<and> 0 \<le> l \<and> l \<le> 2 ^ 30 + 255"
        using decodeLength_octets_safe [OF v m lo, of "bufPos + 1" 0 "unat (len1 AND 0x7f)"] less.prems False by auto
      show ?thesis
      proof (cases r)
        case (Inl l)
        then show ?thesis using r long len1 False
          by (simp add: BerDecoder_decodeLengthRecursive.simps decode_ok_def)
      next
        case (Inr x)
        then show ?thesis
          using r long len1 False less.prems lo m decodeLength_check_safe [of bufPos "fst x" maxBufPos "snd x"]
          by (cases x) (auto simp: BerDecoder_decodeLengthRecursive.simps)
      qed
    qed
  qed
qed

lemma decodeLength_safe:
  assumes "valid_range buffer lo maxBufPos" and "maxBufPos < 2 ^ 22" and "0 \<le> lo" and "lo \<le> bufPos"
  obtains p l where "BerDecoder_decodeLength buffer bufPos maxBufPos = Some (p, l)" "decode_ok bufPos maxBufPos (p, l)"
  using decodeLengthRecursive_safe [OF assms, of 0 50] by (auto simp: BerDecoder_decodeLength_def)

text \<open>A length of the indefinite form counts the two octets of the end marker.\<close>

lemma decodeLength_indefinite:
  assumes v: "valid_range buffer lo maxBufPos" "maxBufPos < 2 ^ 22" "0 \<le> lo" "lo \<le> bufPos" and b: "rd buffer bufPos = Some 0x80"
    and r: "BerDecoder_decodeLength buffer bufPos maxBufPos = Some (p, Some n)" "p \<noteq> -1"
  shows "2 \<le> n"
proof -
  have "\<exists>r. BerDecoder_decodeLengthRecursive buffer q maxBufPos 1 50 = Some r \<and> decode_ok q maxBufPos r" if "lo \<le> q" for q
    using decodeLengthRecursive_safe [OF v(1-3) that] .
  from getIndefiniteLength_loop_safe [of lo "\<lambda>q. BerDecoder_decodeLengthRecursive buffer q maxBufPos 1 50", OF this v(1,3), of "bufPos + 1" 0]
  obtain l where "getIndefiniteLength_loop (\<lambda>q. BerDecoder_decodeLengthRecursive buffer q maxBufPos 1 50) buffer maxBufPos (bufPos + 1) 0 = Some l"
    "l = -1 \<or> 2 \<le> l"
    using v(4) by auto
  then show ?thesis using r b
    by (auto simp: BerDecoder_decodeLength_def BerDecoder_decodeLengthRecursive.simps [of buffer bufPos] getIndefiniteLength.simps
        decodeLength_check_def bind_eq_Some_conv Let_def split: if_splits)
qed

section \<open>Decoding what the encoder writes\<close>

lemma rdn_Cons: "rdn p i (length (x # xs)) = Some (x # xs) \<longleftrightarrow> rd p i = Some x \<and> rdn p (i + 1) (length xs) = Some xs"
  by (auto simp: bind_eq_Some_conv)

lemma uint_byte_of_int: "uint (word_of_int n :: byte) = n mod 256"
  by (simp add: uint_word_of_int take_bit_eq_mod)

lemma decodeLength_octets_value:
  "rdn buffer p k = Some xs \<Longrightarrow> 0 \<le> p \<Longrightarrow> 0 \<le> l \<Longrightarrow> maxBufPos < 2 ^ 30 \<Longrightarrow>
   p + int k + (l * 256 ^ k + be_uint xs) \<le> maxBufPos \<Longrightarrow>
   decodeLength_octets buffer maxBufPos k p l = Some (Inr (p + int k, l * 256 ^ k + be_uint xs))"
proof (induction k arbitrary: p l xs)
  case (Suc k)
  then obtain x ys where x: "rd buffer p = Some x" "rdn buffer (p + 1) k = Some ys" "xs = x # ys"
    by (auto simp: bind_eq_Some_conv)
  have k: "length ys = k" using length_rdn [OF x(2)] .
  have v: "(l * 256 + uint x) * 256 ^ k + be_uint ys = l * 256 ^ Suc k + be_uint xs"
    by (simp add: x(3) k be_uint_Cons algebra_simps)
  have y: "0 \<le> be_uint ys" using be_uint_bound by simp
  have "1 \<le> (256 :: int) ^ k" by simp
  then have "l * 256 + uint x \<le> (l * 256 + uint x) * 256 ^ k"
    using Suc.prems(3) byte_bound [of x] by (metis add_nonneg_nonneg mult_le_cancel_left1 mult_nonneg_nonneg
        not_less order.strict_iff_not zero_le_numeral)
  then have le: "l * 256 + uint x + p + int k + 1 \<le> maxBufPos" using v y Suc.prems by simp
  have "decodeLength_octets buffer maxBufPos k (p + 1) (l * 256 + uint x) =
     Some (Inr (p + 1 + int k, (l * 256 + uint x) * 256 ^ k + be_uint ys))"
    using Suc.IH [OF x(2)] Suc.prems v byte_bound [of x] by (simp add: algebra_simps)
  moreover obtain u where u: "uint x = u" "0 \<le> u" by simp
  have "\<not> maxBufPos \<le> p" "i32 (p + l) = Some (p + l)" "\<not> maxBufPos < p + l"
    "i32 (l * 256) = Some (l * 256)" "i32 (l * 256 + u) = Some (l * 256 + u)"
    using le [unfolded u(1)] u(2) Suc.prems(2-4) by (simp_all add: i32_def)
  ultimately show ?case using x(1) v u(1) by simp
qed simp

lemma decodeLength_long:
  assumes "rd buffer p = Some b" and "rdn buffer (p + 1) k = Some xs"
    and "b AND 0x80 \<noteq> 0" and "unat (b AND 0x7f) = k" and "0 < k"
    and "0 \<le> p" and "maxBufPos < 2 ^ 30" and "p + 1 + int k + be_uint xs \<le> maxBufPos"
  shows "BerDecoder_decodeLength buffer p maxBufPos = Some (p + 1 + int k, Some (be_uint xs))"
proof -
  have "0 \<le> be_uint xs" using be_uint_bound by simp
  moreover have "b AND 0x7f \<noteq> 0" using assms(4,5) by auto
  moreover have "decodeLength_octets buffer maxBufPos k (p + 1) 0 = Some (Inr (p + 1 + int k, be_uint xs))"
    using decodeLength_octets_value [OF assms(2), of 0] assms by simp
  ultimately show ?thesis using assms
    by (simp add: BerDecoder_decodeLength_def BerDecoder_decodeLengthRecursive.simps decodeLength_check_def Let_def)
qed

lemma len_octets_long:
  assumes "\<not> n < 128" and "n < 2 ^ 24"
  shows "\<exists>b xs. len_octets n = b # xs \<and> b AND 0x80 \<noteq> 0 \<and> unat (b AND 0x7f) = length xs \<and> xs \<noteq> [] \<and> be_uint xs = n"
proof -
  consider "n < 256" | "256 \<le> n" "n < 65535" | "65535 \<le> n" by linarith
  then show ?thesis
  proof cases
    case 1
    then show ?thesis using assms by (simp add: len_octets_def be_uint_Cons uint_byte_of_int)
  next
    case 2
    then show ?thesis using assms by (simp add: len_octets_def be_uint_Cons uint_byte_of_int)
  next
    case 3
    have "n div 65536 = n div 256 div 256" by (simp add: zdiv_zmult2_eq [of 256 n 256, simplified])
    then have "n div 65536 * 65536 + (n div 256 mod 256 * 256 + n mod 256) = n"
      using div_mult_mod_eq [of n 256] div_mult_mod_eq [of "n div 256" 256] by linarith
    then show ?thesis using 3 assms by (simp add: len_octets_def be_uint_Cons uint_byte_of_int)
  qed
qed

lemma decodeLength_len_octets:
  assumes r: "rdn buffer p (length (len_octets n)) = Some (len_octets n)"
    and n: "0 \<le> n" "n < 2 ^ 24" and p: "0 \<le> p" "maxBufPos < 2 ^ 30"
    and fits: "p + int (length (len_octets n)) + n \<le> maxBufPos"
  shows "BerDecoder_decodeLength buffer p maxBufPos = Some (p + int (length (len_octets n)), Some n)"
proof (cases "n < 128")
  case True
  then have "rd buffer p = Some (word_of_int n)" using r by (simp add: len_octets_def bind_eq_Some_conv)
  moreover have "(word_of_int n :: byte) AND 0x80 = 0"
    using True n by (simp add: byte_sign_bit uint_byte_of_int)
  ultimately show ?thesis using True n p fits
    by (simp add: BerDecoder_decodeLength_def BerDecoder_decodeLengthRecursive.simps decodeLength_check_def
        len_octets_def uint_byte_of_int)
next
  case False
  obtain b xs where o: "len_octets n = b # xs" "b AND 0x80 \<noteq> 0" "unat (b AND 0x7f) = length xs" "xs \<noteq> []" "be_uint xs = n"
    using len_octets_long [of n] False n by auto
  have "rd buffer p = Some b" "rdn buffer (p + 1) (length xs) = Some xs"
    using r unfolding o(1) rdn_Cons by simp_all
  then show ?thesis
    using decodeLength_long [of buffer p b "length xs" xs maxBufPos] o p fits by simp
qed

lemma decode_word_loop:
  "rdn buffer (p + i) k = Some xs \<Longrightarrow>
   for_range i (i + int k) (\<lambda>i v. do { b \<leftarrow> rd buffer (p + i); Some (push_bit 8 v + ucast b) }) (v :: 'a::len word) =
     Some (v * 256 ^ k + word_of_int (be_uint xs))"
proof (induction k arbitrary: i v xs)
  case (Suc k)
  then obtain x ys where x: "rd buffer (p + i) = Some x" "rdn buffer (p + (i + 1)) k = Some ys" "xs = x # ys"
    by (auto simp: bind_eq_Some_conv add.assoc)
  have l: "length ys = k" using length_rdn [OF x(2)] .
  have "for_range (i + 1) (i + int (Suc k)) (\<lambda>i v. do { b \<leftarrow> rd buffer (p + i); Some (push_bit 8 v + ucast b) })
     (push_bit 8 v + ucast x) = Some ((push_bit 8 v + ucast x) * 256 ^ k + word_of_int (be_uint ys))"
    using Suc.IH [OF x(2)] by (simp add: algebra_simps)
  moreover have "(push_bit 8 v + ucast x) * 256 ^ k + word_of_int (be_uint ys) =
     v * 256 ^ Suc k + word_of_int (be_uint xs)"
    by (simp add: x(3) be_uint_Cons l push_bit_eq_mult algebra_simps ucast_eq del: of_int_uint)
  ultimately show ?case using x(1) by (simp add: for_range_step)
qed simp

lemma decodeUint32_value:
  "rdn buffer p k = Some xs \<Longrightarrow> BerDecoder_decodeUint32 buffer (int k) p = Some (word_of_int (be_uint xs))"
  using decode_word_loop [of buffer p 0 k xs 0] by (simp add: BerDecoder_decodeUint32_def)

lemma decodeInt32_value:
  assumes "rdn buffer p k = Some xs" and "xs \<noteq> []"
  shows "BerDecoder_decodeInt32 buffer (int k) p = Some (word_of_int (be_sint xs))"
proof -
  obtain x ys where x: "xs = x # ys" using assms(2) by (cases xs) auto
  have l: "length xs = k" using length_rdn [OF assms(1)] .
  have "rd buffer p = Some x" using assms(1) x l by (auto simp: bind_eq_Some_conv)
  moreover have "(- 1 :: 32 word) * 256 ^ k + word_of_int (be_uint xs) = word_of_int (be_uint xs - 256 ^ k)"
    by simp
  ultimately show ?thesis
    using decode_word_loop [of buffer p 0 k xs "if x AND 0x80 = 0x80 then - 1 else 0"] assms(1) l
    by (auto simp: BerDecoder_decodeInt32_def byte_sign_bit be_sint_def x)
qed

lemma be_uint_nonneg: "0 \<le> be_sint xs \<Longrightarrow> be_uint xs = be_sint xs"
  using be_uint_bound [of xs] by (auto simp: be_sint_def split: list.splits if_splits)

section \<open>Properties\<close>

text \<open>
  C13: Decoding a length terminates without undefined behaviour on every octet
  string of less than 4 MiB, indefinite lengths nested up to the depth limit
  included, and a length it accepts describes contents that lie inside the
  buffer, behind the octets that were read.
\<close>

theorem decodeLength_in_bounds:
  assumes "valid_range buffer lo maxBufPos" and "maxBufPos < 2 ^ 22" and "0 \<le> lo" and "lo \<le> bufPos"
  shows "\<exists>p l. BerDecoder_decodeLength buffer bufPos maxBufPos = Some (p, l) \<and>
     (p = - 1 \<or> (\<exists>n. l = Some n \<and> 0 \<le> n \<and> bufPos < p \<and> p + n \<le> maxBufPos))"
  using decodeLength_safe [OF assms] by (metis decode_ok_def fst_conv snd_conv)

theorem decodeLength_in_bounds_witness:
  "\<exists>p l. BerDecoder_decodeLength ([0x30, 0x80, 0x04, 0x01, 0x05, 0x00, 0x00], 0) 1 7 = Some (p, l) \<and>
     (p = - 1 \<or> (\<exists>n. l = Some n \<and> 0 \<le> n \<and> 1 < p \<and> p + n \<le> 7))"
  using decodeLength_in_bounds [of "([0x30, 0x80, 0x04, 0x01, 0x05, 0x00, 0x00], 0)" 0 7 1]
  by (simp add: valid_range_def)

text \<open>
  C14: What \<open>BerEncoder_encodeLength\<close> writes for a length below \<open>2^24\<close> is read
  back by \<open>BerDecoder_decodeLength\<close> as the same length, provided the announced
  contents fit into the buffer.
\<close>

theorem length_roundtrip:
  assumes "BerEncoder_encodeLength (word_of_int n) (b, pos) = Some (b', pos')"
    and "0 \<le> n" and "n < 2 ^ 24" and "0 \<le> pos" and "0 \<le> snd b"
    and "pos' + n \<le> maxBufPos" and "maxBufPos < 2 ^ 30"
  shows "BerDecoder_decodeLength b' pos maxBufPos = Some (pos', Some n)"
proof -
  have n: "uint (word_of_int n :: 32 word) = n" using assms by (intro uint32_of_int) simp_all
  have "pos' = pos + int (length (len_octets n))"
    using length_encoder.enc_position [OF assms(1)] n by simp
  moreover have "rdn b' pos (length (len_octets n)) = Some (len_octets n)"
    using length_encoder.enc_bytes [OF assms(1)] assms(4,5) n by simp
  ultimately show ?thesis using decodeLength_len_octets [of b' pos n maxBufPos] assms by simp
qed

theorem length_roundtrip_witness:
  "BerEncoder_encodeLength (word_of_int 300) ((replicate 400 0, 0), 5) =
     Some (([0, 0, 0, 0, 0, 0x82, 1, 44] @ replicate 392 0, 0), 8) \<and>
   BerDecoder_decodeLength ([0, 0, 0, 0, 0, 0x82, 1, 44] @ replicate 392 0, 0) 5 400 = Some (8, Some 300)"
proof -
  have o: "len_octets 300 = [0x82, 1, 44]" by (simp add: len_octets_def)
  have z: "replicate 5 (0 :: byte) = [0, 0, 0, 0, 0]" by (simp add: eval_nat_numeral)
  have "emit (len_octets 300) ((replicate 400 0, 0), 5) = Some (([0, 0, 0, 0, 0, 0x82, 1, 44] @ replicate 392 0, 0), 8)"
    unfolding o by (subst emit_Some) (simp_all add: valid_range_def z)
  then have e: "BerEncoder_encodeLength (word_of_int 300) ((replicate 400 0, 0), 5) =
     Some (([0, 0, 0, 0, 0, 0x82, 1, 44] @ replicate 392 0, 0), 8)"
    by (simp add: encodeLength_emits)
  show ?thesis using e length_roundtrip [OF e, of 400] by simp
qed

text \<open>
  C15: An unsigned number is written in its minimal two's complement form of at
  most five octets, on a little and on a big endian host alike, and is read back.
\<close>

theorem uint32_roundtrip:
  assumes "BerEncoder_encodeUInt32 le v (b, pos) = Some (b', pos')" and "0 \<le> pos" and "0 \<le> snd b"
  shows "BerDecoder_decodeUint32 b' (pos' - pos) pos = Some v \<and> pos' - pos \<le> 5 \<and>
     (\<exists>xs. rdn b' pos (nat (pos' - pos)) = Some xs \<and> ber_minimal xs \<and> be_sint xs = uint v) \<and>
     BerEncoder_encodeUInt32 (\<not> le) v (b, pos) = Some (b', pos')"
proof -
  have p: "pos' - pos = int (length (uint32_octets v))"
    using uint32_encoder.enc_position [OF assms(1)] by simp
  have r: "rdn b' pos (length (uint32_octets v)) = Some (uint32_octets v)"
    using uint32_encoder.enc_bytes [OF assms(1)] assms(2,3) by simp
  have "be_uint (uint32_octets v) = uint v"
    using be_uint_nonneg [of "uint32_octets v"] by (simp add: uint32_octets_value)
  then have "BerDecoder_decodeUint32 b' (pos' - pos) pos = Some v"
    using decodeUint32_value [OF r] by (simp add: p)
  moreover have "ber_minimal (uint32_octets v)"
    unfolding uint32_octets_def by (rule ber_minimal_compress) simp
  ultimately show ?thesis
    using p r uint32_octets_len [of v] assms(1) by (simp add: uint32_octets_value encodeUInt32_emits)
qed

theorem uint32_roundtrip_witness:
  "BerDecoder_decodeUint32 ([0, 0x00, 0x80, 0], 0) 2 1 = Some 128"
proof -
  have e: "BerEncoder_encodeUInt32 True 128 (([0, 0, 0, 0], 0), 1) = Some (([0, 0x00, 0x80, 0], 0), 3)"
    unfolding encodeUInt32_emits by code_simp
  show ?thesis using uint32_roundtrip [OF e] by simp
qed



end
