(* ===== verification/Ber_Integer.thy ===== *)
theory Ber_Integer
  imports Ber_Decoder
begin

text \<open>
  ASN.1 integers held in memory: \<^verbatim>\<open>src/sources/mms/asn1/asn1_ber_primitive_value.c\<close>
  and \<^verbatim>\<open>ber_integer.c\<close>. A value is a buffer of \<open>maxSize\<close> octets of which the
  first \<open>size\<close> are the big endian two's complement number. A function that
  allocates takes the outcome of each of its allocations as a \<open>bool\<close>; the
  result \<open>None\<close> of such a function is the pointer \<open>NULL\<close>.
\<close>

record Asn1PrimitiveValue =
  pv_size :: byte
  pv_maxSize :: byte
  pv_octets :: "byte list"

section \<open>Primitive values\<close>

definition Asn1PrimitiveValue_create :: "bool \<Rightarrow> bool \<Rightarrow> int \<Rightarrow> Asn1PrimitiveValue option" where
  "Asn1PrimitiveValue_create ok_self ok_octets n =
     (if ok_self then
        (if ok_octets then Some \<lparr>pv_size = 1, pv_maxSize = word_of_int n, pv_octets = replicate (nat n) 0\<rparr>
         else None)
      else None)"

definition Asn1PrimitiveValue_clone :: "bool \<Rightarrow> bool \<Rightarrow> Asn1PrimitiveValue \<Rightarrow> Asn1PrimitiveValue option option" where
  "Asn1PrimitiveValue_clone ok_self ok_octets self =
     (if ok_self then
        (if ok_octets then do {
           xs \<leftarrow> rdn (pv_octets self, 0) 0 (unat (pv_maxSize self));
           Some (Some \<lparr>pv_size = pv_size self, pv_maxSize = pv_maxSize self, pv_octets = xs\<rparr>) }
         else Some None)
      else Some None)"

definition Asn1PrimitivaValue_compare :: "Asn1PrimitiveValue \<Rightarrow> Asn1PrimitiveValue \<Rightarrow> bool option" where
  "Asn1PrimitivaValue_compare self otherValue =
     (if pv_size self = pv_size otherValue then do {
        xs \<leftarrow> rdn (pv_octets self, 0) 0 (unat (pv_size self));
        ys \<leftarrow> rdn (pv_octets otherValue, 0) 0 (unat (pv_size self));
        Some (xs = ys) }
      else Some False)"

definition BerEncoder_encodeAsn1PrimitiveValue :: "byte \<Rightarrow> Asn1PrimitiveValue \<Rightarrow> cursor \<Rightarrow> cursor option" where
  "BerEncoder_encodeAsn1PrimitiveValue tag v s = do {
     s \<leftarrow> put tag s;
     s \<leftarrow> BerEncoder_encodeLength (ucast (pv_size v)) s;
     copy_bytes (pv_octets v, 0) (uint (pv_size v)) s }"

section \<open>Integers\<close>

text \<open>\<open>memcpy(dst, src, n)\<close> into the octets of a value.\<close>

definition set_octets :: "byte list \<Rightarrow> byte list \<Rightarrow> byte list option" where
  "set_octets dst xs = (if length xs \<le> length dst then Some (xs @ drop (length xs) dst) else None)"

definition setIntegerValue :: "bool \<Rightarrow> Asn1PrimitiveValue \<Rightarrow> byte list \<Rightarrow> (Asn1PrimitiveValue \<times> bool) option" where
  "setIntegerValue le self valueBuffer = do {
     let bufferSize = int (length valueBuffer);
     vb \<leftarrow> (if le then BerEncoder_revertByteOrder (valueBuffer, 0) bufferSize else Some (valueBuffer, 0));
     (vb, n) \<leftarrow> BerEncoder_compressInteger vb bufferSize;
     if n \<le> uint (pv_maxSize self) then do {
       xs \<leftarrow> rdn vb 0 (nat n);
       octets \<leftarrow> set_octets (pv_octets self) xs;
       Some (self\<lparr>pv_size := word_of_int n, pv_octets := octets\<rparr>, True) }
     else Some (self, False) }"

definition BerInteger_createInt32 :: "bool \<Rightarrow> bool \<Rightarrow> Asn1PrimitiveValue option" where
  "BerInteger_createInt32 ok_self ok_octets = Asn1PrimitiveValue_create ok_self ok_octets 5"

definition BerInteger_createInt64 :: "bool \<Rightarrow> bool \<Rightarrow> Asn1PrimitiveValue option" where
  "BerInteger_createInt64 ok_self ok_octets = Asn1PrimitiveValue_create ok_self ok_octets 9"

definition BerInteger_createFromBuffer :: "bool \<Rightarrow> bool \<Rightarrow> ptr \<Rightarrow> int \<Rightarrow> Asn1PrimitiveValue option option" where
  "BerInteger_createFromBuffer ok_self ok_octets buf n = (
     let maxSize = (if n > 8 then n else 8) in
     case Asn1PrimitiveValue_create ok_self ok_octets maxSize of
       None \<Rightarrow> Some None
     | Some self \<Rightarrow> if n < 0 then None else do {
         xs \<leftarrow> rdn buf 0 (nat n);
         octets \<leftarrow> set_octets (pv_octets self) xs;
         Some (Some (self\<lparr>pv_octets := octets, pv_size := word_of_int n\<rparr>)) })"

definition BerInteger_setFromBerInteger ::
    "Asn1PrimitiveValue \<Rightarrow> Asn1PrimitiveValue \<Rightarrow> (Asn1PrimitiveValue \<times> bool) option" where
  "BerInteger_setFromBerInteger self v =
     (if pv_maxSize self \<ge> pv_size v then do {
        xs \<leftarrow> rdn (pv_octets v, 0) 0 (unat (pv_size v));
        octets \<leftarrow> set_octets (pv_octets self) xs;
        Some (self\<lparr>pv_size := pv_size v, pv_octets := octets\<rparr>, True) }
      else Some (self, False))"

definition BerInteger_setInt32 :: "bool \<Rightarrow> Asn1PrimitiveValue \<Rightarrow> 32 word \<Rightarrow> (Asn1PrimitiveValue \<times> bool) option" where
  "BerInteger_setInt32 le self v = setIntegerValue le self (native_bytes le 4 v)"

definition BerInteger_setUint8 :: "bool \<Rightarrow> Asn1PrimitiveValue \<Rightarrow> byte \<Rightarrow> (Asn1PrimitiveValue \<times> bool) option" where
  "BerInteger_setUint8 le self v = setIntegerValue le self (native_bytes le 1 v)"

definition BerInteger_setUint16 :: "bool \<Rightarrow> Asn1PrimitiveValue \<Rightarrow> 16 word \<Rightarrow> (Asn1PrimitiveValue \<times> bool) option" where
  "BerInteger_setUint16 le self v = setIntegerValue le self
     (if le then native_bytes le 2 v @ [0] else 0 # native_bytes le 2 v)"

definition BerInteger_setUint32 :: "bool \<Rightarrow> Asn1PrimitiveValue \<Rightarrow> 32 word \<Rightarrow> (Asn1PrimitiveValue \<times> bool) option" where
  "BerInteger_setUint32 le self v = setIntegerValue le self
     (if le then native_bytes le 4 v @ [0] else 0 # native_bytes le 4 v)"

definition BerInteger_setInt64 :: "bool \<Rightarrow> Asn1PrimitiveValue \<Rightarrow> 64 word \<Rightarrow> (Asn1PrimitiveValue \<times> bool) option" where
  "BerInteger_setInt64 le self v = setIntegerValue le self (native_bytes le 8 v)"

text \<open>The constructors ignore the result of the setter.\<close>

definition create_and_set ::
    "Asn1PrimitiveValue option \<Rightarrow> (Asn1PrimitiveValue \<Rightarrow> (Asn1PrimitiveValue \<times> bool) option) \<Rightarrow>
     Asn1PrimitiveValue option option" where
  "create_and_set created setter = (case created of
       None \<Rightarrow> Some None
     | Some self \<Rightarrow> do { (self, _) \<leftarrow> setter self; Some (Some self) })"

definition BerInteger_createFromInt32 :: "bool \<Rightarrow> bool \<Rightarrow> bool \<Rightarrow> 32 word \<Rightarrow> Asn1PrimitiveValue option option" where
  "BerInteger_createFromInt32 le ok_self ok_octets v =
     create_and_set (BerInteger_createInt32 ok_self ok_octets) (\<lambda>self. BerInteger_setInt32 le self v)"

definition BerInteger_createFromUint32 :: "bool \<Rightarrow> bool \<Rightarrow> bool \<Rightarrow> 32 word \<Rightarrow> Asn1PrimitiveValue option option" where
  "BerInteger_createFromUint32 le ok_self ok_octets v =
     create_and_set (BerInteger_createInt32 ok_self ok_octets) (\<lambda>self. BerInteger_setUint32 le self v)"

definition BerInteger_createFromInt64 :: "bool \<Rightarrow> bool \<Rightarrow> bool \<Rightarrow> 64 word \<Rightarrow> Asn1PrimitiveValue option option" where
  "BerInteger_createFromInt64 le ok_self ok_octets v =
     create_and_set (BerInteger_createInt64 ok_self ok_octets) (\<lambda>self. BerInteger_setInt64 le self v)"

text \<open>\<open>*nativeValue = (*nativeValue << 8) | buf[i]\<close> over the octets of the value.\<close>

definition toNative :: "Asn1PrimitiveValue \<Rightarrow> 'a::len word \<Rightarrow> 'a word option" where
  "toNative self v0 = for_range 0 (uint (pv_size self))
     (\<lambda>i v. do { b \<leftarrow> rd (pv_octets self, 0) i; Some (push_bit 8 v OR ucast b) }) v0"

definition BerInteger_toInt32 :: "Asn1PrimitiveValue \<Rightarrow> 32 word option" where
  "BerInteger_toInt32 self = do {
     b0 \<leftarrow> rd (pv_octets self, 0) 0;
     toNative self (if b0 AND 0x80 \<noteq> 0 then 0xffffffff else 0) }"

definition BerInteger_toUint32 :: "Asn1PrimitiveValue \<Rightarrow> 32 word option" where
  "BerInteger_toUint32 self = toNative self 0"

definition BerInteger_toInt64 :: "Asn1PrimitiveValue \<Rightarrow> 64 word option" where
  "BerInteger_toInt64 self = do {
     b0 \<leftarrow> rd (pv_octets self, 0) 0;
     toNative self (if b0 AND 0x80 \<noteq> 0 then 0xffffffffffffffff else 0) }"

section \<open>Well-formed values and the number they hold\<close>

text \<open>The buffer has \<open>maxSize\<close> octets, and between one and all of them are in use.\<close>

definition pv_wf :: "Asn1PrimitiveValue \<Rightarrow> bool" where
  "pv_wf v \<longleftrightarrow> length (pv_octets v) = unat (pv_maxSize v) \<and> 0 < pv_size v \<and> pv_size v \<le> pv_maxSize v"

definition pv_bytes :: "Asn1PrimitiveValue \<Rightarrow> byte list" where
  "pv_bytes v = take (unat (pv_size v)) (pv_octets v)"

definition pv_int :: "Asn1PrimitiveValue \<Rightarrow> int" where
  "pv_int v = be_sint (pv_bytes v)"

lemma pv_wf_bytes: "pv_wf v \<Longrightarrow> length (pv_bytes v) = unat (pv_size v) \<and> pv_bytes v \<noteq> []"
  by (auto simp: pv_wf_def pv_bytes_def word_le_nat_alt word_less_nat_alt)

lemma pv_wf_rdn: "pv_wf v \<Longrightarrow> rdn (pv_octets v, 0) 0 (unat (pv_size v)) = Some (pv_bytes v)"
  by (subst rdn_valid) (auto simp: valid_range_def pv_wf_def pv_bytes_def word_le_def)

lemma create_wf:
  assumes "0 < n" and "n < 256" and "Asn1PrimitiveValue_create ok1 ok2 n = Some v"
  shows "pv_wf v \<and> pv_maxSize v = word_of_int n"
proof -
  have u: "uint (word_of_int n :: byte) = n" using assms by (simp add: uint_byte_of_int)
  then have "unat (word_of_int n :: byte) = nat n" by (simp only: unat_eq_nat_uint)
  then show ?thesis using assms u
    by (auto simp: Asn1PrimitiveValue_create_def pv_wf_def word_le_def word_less_def split: if_splits)
qed

lemma unat_byte_bound: "unat (b :: byte) < 256"
  using unsigned_less [of b, where 'a = nat] by simp

text \<open>Storing a value: the octets in use become the minimal encoding, if there is room for it.\<close>

lemma setIntegerValue_eq:
  fixes le :: bool
  assumes wf: "pv_wf self" and ne: "xs \<noteq> []" and len: "length xs < 256"
  defines "be \<equiv> ber_compress (if le then rev xs else xs)"
  shows "setIntegerValue le self xs = Some (if length be \<le> unat (pv_maxSize self)
     then (self\<lparr>pv_size := word_of_int (int (length be)), pv_octets := be @ drop (length be) (pv_octets self)\<rparr>, True)
     else (self, False))"
proof -
  define ys where "ys = (if le then rev xs else xs)"
  have ys: "ys \<noteq> []" "length ys = length xs" using ne by (simp_all add: ys_def)
  have rev: "(if le then BerEncoder_revertByteOrder (xs, 0) (int (length xs)) else Some (xs, 0)) = Some (ys, 0)"
    using revertByteOrder_eq [of "[]" xs "[]"] by (simp add: ys_def)
  obtain junk where comp: "BerEncoder_compressInteger (ys, 0) (int (length xs)) = Some ((be @ junk, 0), int (length be))"
    using compressInteger_eq [OF ys(1)] ys(2) by (auto simp: be_def simp flip: ys_def)
  have max: "int (length be) \<le> uint (pv_maxSize self) \<longleftrightarrow> length be \<le> unat (pv_maxSize self)"
    by (metis nat_uint_eq le_nat_iff uint_ge_0 unat_eq_nat_uint)
  show ?thesis
    unfolding setIntegerValue_def Let_def rev bind.bind_lunit comp prod.case max
    using wf by (simp add: set_octets_def pv_wf_def)
qed

lemma set_result_wf:
  assumes wf: "pv_wf self" and be: "be \<noteq> []" "length be \<le> unat (pv_maxSize self)"
    and v: "v = self\<lparr>pv_size := word_of_int (int (length be)), pv_octets := be @ drop (length be) (pv_octets self)\<rparr>"
  shows "pv_wf v \<and> pv_bytes v = be"
proof -
  have l: "length be < 256" using be(2) unat_byte_bound [of "pv_maxSize self"] by linarith
  then have u: "unat (word_of_int (int (length be)) :: byte) = length be"
    by (simp only: unat_eq_nat_uint uint_byte_of_int) simp
  then show ?thesis using wf be
    by (auto simp: v pv_wf_def pv_bytes_def word_le_nat_alt word_less_nat_alt)
qed

lemma setIntegerValue_stores:
  assumes "pv_wf self" and "xs \<noteq> []" and "length xs < 256"
    and "length (ber_compress (if le then rev xs else xs)) \<le> unat (pv_maxSize self)"
  shows "\<exists>v. setIntegerValue le self xs = Some (v, True) \<and> pv_wf v \<and> pv_maxSize v = pv_maxSize self \<and>
     pv_bytes v = ber_compress (if le then rev xs else xs)"
  using setIntegerValue_eq [OF assms(1-3), of le] assms
    set_result_wf [OF assms(1), of "ber_compress (if le then rev xs else xs)"] by simp

lemma setIntegerValue_wf:
  assumes "pv_wf self" and "xs \<noteq> []" and "length xs < 256" and "setIntegerValue le self xs = Some (v, ok)"
  shows "pv_wf v \<and> (\<not> ok \<longrightarrow> v = self)"
  using setIntegerValue_eq [OF assms(1-3), of le] assms
    set_result_wf [OF assms(1), of "ber_compress (if le then rev xs else xs)" v] by (auto split: if_splits)

lemma native_be: "(if le then rev (native_bytes le n v) else native_bytes le n v) = rev (le_bytes n v)"
  by (simp add: native_bytes_def)

lemma be_sint_int64: "be_sint (rev (le_bytes 8 v)) = sint (v :: 64 word)"
  by (simp add: be_sint_alt sint_alt be_uint_full)

lemma or_is_add: "push_bit 8 v OR ucast (b :: byte) = (push_bit 8 v + ucast b :: 'a::len word)"
  by (subst disjunctive_add) (auto simp: bit_simps dest: bit_imp_le_length)

lemma toNative_eq:
  assumes "pv_wf self"
  shows "toNative self v0 = Some (v0 * 256 ^ unat (pv_size self) + word_of_int (be_uint (pv_bytes self)))"
  using decode_word_loop [of "(pv_octets self, 0)" 0 0 "unat (pv_size self)" "pv_bytes self" v0] pv_wf_rdn [OF assms]
  by (simp add: toNative_def or_is_add)

lemma pv_first_octet:
  assumes "pv_wf v"
  obtains b bs where "pv_bytes v = b # bs" "rd (pv_octets v, 0) 0 = Some b"
proof -
  obtain b bs where b: "pv_bytes v = b # bs" using pv_wf_bytes [OF assms] by (cases "pv_bytes v") auto
  then have "rdn (pv_octets v, 0) 0 (length (b # bs)) = Some (b # bs)"
    using pv_wf_rdn [OF assms] pv_wf_bytes [OF assms] by simp
  then show thesis using that b unfolding rdn_Cons by blast
qed

lemma toSigned_eq:
  assumes wf: "pv_wf v"
  shows "(do { b0 \<leftarrow> rd (pv_octets v, 0) 0; toNative v (if b0 AND 0x80 \<noteq> 0 then - 1 else 0) }) =
     Some (word_of_int (pv_int v) :: 'a::len word)"
proof -
  obtain b bs where b: "pv_bytes v = b # bs" "rd (pv_octets v, 0) 0 = Some b"
    using pv_first_octet [OF wf] .
  have "unat (pv_size v) = length (b # bs)" using pv_wf_bytes [OF wf] b(1) by simp
  then show ?thesis
    using b by (simp add: toNative_eq [OF wf] byte_sign_bit pv_int_def be_sint_def not_less)
qed

lemma toInt32_eq: "pv_wf v \<Longrightarrow> BerInteger_toInt32 v = Some (word_of_int (pv_int v))"
proof -
  have m: "(0xffffffff :: 32 word) = - 1" by simp
  show "pv_wf v \<Longrightarrow> ?thesis" unfolding BerInteger_toInt32_def m by (rule toSigned_eq)
qed

lemma toInt64_eq: "pv_wf v \<Longrightarrow> BerInteger_toInt64 v = Some (word_of_int (pv_int v))"
proof -
  have m: "(0xffffffffffffffff :: 64 word) = - 1" by simp
  show "pv_wf v \<Longrightarrow> ?thesis" unfolding BerInteger_toInt64_def m by (rule toSigned_eq)
qed

lemma toUint32_eq: "pv_wf v \<Longrightarrow> BerInteger_toUint32 v = Some (word_of_int (be_uint (pv_bytes v)))"
  by (simp add: BerInteger_toUint32_def toNative_eq)

lemma set_be_stores:
  assumes "pv_wf self" and "(if le then rev xs else xs) = be" and "be \<noteq> []" and "length be < 256"
    and "length (ber_compress be) \<le> unat (pv_maxSize self)"
  shows "\<exists>v. setIntegerValue le self xs = Some (v, True) \<and> pv_wf v \<and> pv_bytes v = ber_compress be"
proof -
  have "xs \<noteq> []" "length xs < 256" using assms by (auto split: if_splits)
  then show ?thesis using setIntegerValue_stores [of self xs le] assms by auto
qed

lemma compress_fits: "length be \<le> n \<Longrightarrow> length (ber_compress be) \<le> n"
  using length_ber_compress [of be] by simp

lemma create_and_set_stores:
  assumes "Asn1PrimitiveValue_create ok1 ok2 n = Some self0" and "0 < n" and "n < 256"
    and "\<And>self. pv_wf self \<Longrightarrow> unat (pv_maxSize self) = nat n \<Longrightarrow>
      \<exists>v. setter self = Some (v, True) \<and> pv_wf v \<and> pv_bytes v = be"
  shows "\<exists>v. create_and_set (Asn1PrimitiveValue_create ok1 ok2 n) setter = Some (Some v) \<and> pv_wf v \<and> pv_bytes v = be"
proof -
  have "unat (word_of_int n :: byte) = nat n"
    using assms(2,3) by (simp only: unat_eq_nat_uint uint_byte_of_int) simp
  then show ?thesis
    using assms(4) [of self0] create_wf [OF assms(2,3,1)] assms(1) by (auto simp: create_and_set_def)
qed

lemma createFromInt32_stores:
  "\<exists>s. BerInteger_createFromInt32 le True True v = Some (Some s) \<and> pv_wf s \<and> pv_bytes s = int32_octets v"
  unfolding BerInteger_createFromInt32_def BerInteger_createInt32_def BerInteger_setInt32_def int32_octets_def
  by (rule create_and_set_stores [where setter = "\<lambda>self. setIntegerValue le self (native_bytes le 4 v)"])
    (auto simp: Asn1PrimitiveValue_create_def native_be intro!: set_be_stores compress_fits)

lemma createFromUint32_stores:
  "\<exists>s. BerInteger_createFromUint32 le True True v = Some (Some s) \<and> pv_wf s \<and> pv_bytes s = uint32_octets v"
  unfolding BerInteger_createFromUint32_def BerInteger_createInt32_def BerInteger_setUint32_def uint32_octets_def
  by (rule create_and_set_stores [where setter = "\<lambda>self. setIntegerValue le self
      (if le then native_bytes le 4 v @ [0] else 0 # native_bytes le 4 v)"])
    (auto simp: Asn1PrimitiveValue_create_def native_bytes_def intro!: set_be_stores compress_fits)

lemma createFromInt64_stores:
  "\<exists>s. BerInteger_createFromInt64 le True True w = Some (Some s) \<and> pv_wf s \<and>
     pv_bytes s = ber_compress (rev (le_bytes 8 w))"
  unfolding BerInteger_createFromInt64_def BerInteger_createInt64_def BerInteger_setInt64_def
  by (rule create_and_set_stores [where setter = "\<lambda>self. setIntegerValue le self (native_bytes le 8 w)"])
    (auto simp: Asn1PrimitiveValue_create_def native_be intro!: set_be_stores compress_fits)


text \<open>
  \<open>BerInteger_setUint8\<close> stores the octet without a sign octet in front of it, so
  the integer it leaves is the argument only below 128; from 128 on the object holds
  the negative number \<open>v - 256\<close>, although reading it as unsigned gives \<open>v\<close> back.
\<close>

theorem setUint8_loses_sign:
  assumes "pv_wf self"
  shows "\<exists>s. BerInteger_setUint8 le self v = Some (s, True) \<and> pv_wf s \<and>
     BerInteger_toUint32 s = Some (ucast v) \<and> pv_int s = (if uint v < 128 then uint v else uint v - 256)"
proof -
  have "1 \<le> unat (pv_maxSize self)"
    using assms by (auto simp: pv_wf_def word_le_nat_alt word_less_nat_alt)
  then have "\<exists>s. setIntegerValue le self (native_bytes le 1 v) = Some (s, True) \<and> pv_wf s \<and> pv_bytes s = ber_compress [v]"
    using assms by (intro set_be_stores) (auto simp: native_bytes_def)
  then obtain s where s: "BerInteger_setUint8 le self v = Some (s, True)" "pv_wf s" "pv_bytes s = [v]"
    by (auto simp: BerInteger_setUint8_def)
  have "be_uint [v] = uint v" by (simp add: be_uint_Cons)
  then show ?thesis using s
    by (auto simp: toUint32_eq pv_int_def be_sint_def ucast_eq simp del: of_int_uint)
qed

theorem setUint8_loses_sign_witness:
  "\<exists>s. BerInteger_setUint8 True \<lparr>pv_size = 1, pv_maxSize = 5, pv_octets = [0, 0, 0, 0, 0]\<rparr> 200 = Some (s, True) \<and>
     pv_int s = - 56"
proof -
  have "pv_wf \<lparr>pv_size = 1, pv_maxSize = 5, pv_octets = [0, 0, 0, 0, 0]\<rparr>"
    by (simp add: pv_wf_def)
  from setUint8_loses_sign [OF this, of True 200] show ?thesis by auto
qed

end
