(* ===== verification/Stack_Buffers.thy ===== *)
theory Stack_Buffers
  imports Ber_Encoder
begin

text \<open>
  The two containers that carry protocol data between the layers of the stack:
  \<open>ByteBuffer\<close> (a received message, or the storage of a packet) and
  \<open>BufferChain\<close> (a message to send, as a list of parts so that every layer can
  put its header in front without copying). Their fields are those the sources
  access directly. The functions of \<^verbatim>\<open>byte_buffer.h\<close> are not part of the
  repository: they are the fields of the parameter \<open>ByteBufferApi\<close>, and
  \<open>bytebuffer_ok\<close> names what the sources rely on.
\<close>

section \<open>Received messages\<close>

record ByteBuffer =
  bb_buffer :: ptr
  bb_size :: int
  bb_maxSize :: int

record ByteBufferApi =
  ByteBuffer_create :: "int \<Rightarrow> ByteBuffer"
  ByteBuffer_wrap :: "ptr \<Rightarrow> int \<Rightarrow> int \<Rightarrow> ByteBuffer"
  ByteBuffer_getSize :: "ByteBuffer \<Rightarrow> int"
  ByteBuffer_getBuffer :: "ByteBuffer \<Rightarrow> ptr"
  ByteBuffer_setSize :: "ByteBuffer \<Rightarrow> int \<Rightarrow> ByteBuffer"

definition bb_wf :: "ByteBuffer \<Rightarrow> bool" where
  "bb_wf b \<longleftrightarrow> 0 \<le> bb_size b \<and> bb_size b \<le> bb_maxSize b \<and> valid_range (bb_buffer b) 0 (bb_maxSize b)"

text \<open>The octets a pointer leads to.\<close>

definition octets_at :: "ptr \<Rightarrow> int \<Rightarrow> byte list" where
  "octets_at p n = take (nat n) (drop (nat (snd p)) (fst p))"

definition bb_bytes :: "ByteBuffer \<Rightarrow> byte list" where
  "bb_bytes b = octets_at (bb_buffer b) (bb_size b)"

definition bytebuffer_ok :: "ByteBufferApi \<Rightarrow> bool" where
  "bytebuffer_ok api \<longleftrightarrow>
     (\<forall>n \<ge> 0. bb_wf (ByteBuffer_create api n) \<and> bb_size (ByteBuffer_create api n) = 0 \<and>
        bb_maxSize (ByteBuffer_create api n) = n) \<and>
     (\<forall>p n m. ByteBuffer_wrap api p n m = \<lparr>bb_buffer = p, bb_size = n, bb_maxSize = m\<rparr>) \<and>
     (\<forall>b. ByteBuffer_getSize api b = bb_size b) \<and>
     (\<forall>b. ByteBuffer_getBuffer api b = bb_buffer b) \<and>
     (\<forall>b n. ByteBuffer_setSize api b n = b\<lparr>bb_size := n\<rparr>)"

text \<open>An instance of the parameter, for the examples.\<close>

definition plain_bytebuffer :: ByteBufferApi where
  "plain_bytebuffer = \<lparr>
     ByteBuffer_create = (\<lambda>n. \<lparr>bb_buffer = (replicate (nat n) 0, 0), bb_size = 0, bb_maxSize = n\<rparr>),
     ByteBuffer_wrap = (\<lambda>p n m. \<lparr>bb_buffer = p, bb_size = n, bb_maxSize = m\<rparr>),
     ByteBuffer_getSize = bb_size,
     ByteBuffer_getBuffer = bb_buffer,
     ByteBuffer_setSize = (\<lambda>b n. b\<lparr>bb_size := n\<rparr>)\<rparr>"

section \<open>Messages to send\<close>

datatype BufferChain = BufferChain
  (bc_length: int) (bc_partLength: int) (bc_partMaxLength: int) (bc_buffer: ptr)
  (bc_nextPart: "BufferChain option")

fun chain_bytes :: "BufferChain \<Rightarrow> byte list" where
  "chain_bytes (BufferChain len n m buf next) =
     octets_at buf n @ (case next of None \<Rightarrow> [] | Some c \<Rightarrow> chain_bytes c)"

text \<open>
  The length of a part covers everything from that part on, and only the first
  part may be empty.
\<close>

fun chain_wf :: "BufferChain \<Rightarrow> bool" where
  "chain_wf (BufferChain len n m buf next) \<longleftrightarrow>
     0 \<le> n \<and> valid_range buf 0 n \<and>
     (case next of None \<Rightarrow> len = n
      | Some c \<Rightarrow> len = n + bc_length c \<and> 0 < bc_partLength c \<and> chain_wf c)"

section \<open>Lemmas\<close>

lemma plain_bytebuffer_ok: "bytebuffer_ok plain_bytebuffer"
  by (simp add: bytebuffer_ok_def plain_bytebuffer_def bb_wf_def valid_range_def)

lemma bytebuffer_simps:
  assumes "bytebuffer_ok api"
  shows "ByteBuffer_wrap api p n m = \<lparr>bb_buffer = p, bb_size = n, bb_maxSize = m\<rparr>"
    and "ByteBuffer_getSize api b = bb_size b"
    and "ByteBuffer_getBuffer api b = bb_buffer b"
    and "ByteBuffer_setSize api b n = b\<lparr>bb_size := n\<rparr>"
    and "0 \<le> n \<Longrightarrow> bb_wf (ByteBuffer_create api n)"
    and "0 \<le> n \<Longrightarrow> bb_size (ByteBuffer_create api n) = 0"
    and "0 \<le> n \<Longrightarrow> bb_maxSize (ByteBuffer_create api n) = n"
  using assms by (simp_all add: bytebuffer_ok_def del: split_paired_All)

lemma length_octets_at: "valid_range p 0 n \<Longrightarrow> length (octets_at p n) = nat n"
  by (auto simp: octets_at_def valid_range_def)

lemma rdn_octets_at: "valid_range p 0 n \<Longrightarrow> 0 \<le> n \<Longrightarrow> rdn p 0 (nat n) = Some (octets_at p n)"
  by (simp add: rdn_valid octets_at_def)

lemma rd_octets_at:
  "valid_range p 0 n \<Longrightarrow> 0 \<le> i \<Longrightarrow> i < n \<Longrightarrow> rd p i = Some (octets_at p n ! nat i)"
  by (auto simp: rd_def Let_def valid_range_def octets_at_def nat_add_distrib)

lemma octets_at_store:
  assumes "valid_range p 0 (int (length xs))" and "n = int (length xs)"
  shows "octets_at (store p 0 xs) n = xs"
  using rdn_store [of p 0 xs "length xs"] rdn_octets_at [of "store p 0 xs" n] assms
  by (simp add: valid_range_store)

lemma chain_length: "chain_wf c \<Longrightarrow> int (length (chain_bytes c)) = bc_length c"
  by (induction c rule: chain_bytes.induct) (auto simp: length_octets_at split: option.splits)

lemma chain_length_nonneg: "chain_wf c \<Longrightarrow> 0 \<le> bc_length c"
  using chain_length [of c] by simp

lemma bb_bytes_length: "bb_wf b \<Longrightarrow> int (length (bb_bytes b)) = bb_size b"
  using valid_range_mono [of "bb_buffer b" 0 "bb_maxSize b" 0 "bb_size b"]
  by (auto simp: bb_wf_def bb_bytes_def length_octets_at)

lemma octets_at_append:
  assumes "valid_range p 0 (n + int (length ys))" and "0 \<le> n"
  shows "octets_at (store p n ys) (n + int (length ys)) = octets_at p n @ ys"
proof -
  have v: "valid_range p n (n + int (length ys))" "valid_range p 0 n"
    using assms by (auto simp: valid_range_def)
  have "octets_at (store p n ys) (n + int (length ys)) = the (rdn (store p n ys) 0 (nat n + length ys))"
    using rdn_octets_at [of "store p n ys" "n + int (length ys)"] assms v
    by (simp add: valid_range_store nat_add_distrib)
  also have "\<dots> = octets_at p n @ ys"
    using assms v by (simp add: rdn_append rdn_store rdn_store_other rdn_octets_at)
  finally show ?thesis .
qed

lemma bb_wf_range: "bb_wf b \<Longrightarrow> valid_range (bb_buffer b) 0 (bb_size b)"
  by (auto simp: bb_wf_def valid_range_def)

lemma rd_bb_bytes:
  assumes "bb_wf b" and "i < length (bb_bytes b)"
  shows "rd (bb_buffer b) (int i) = Some (bb_bytes b ! i)"
  using assms bb_bytes_length [OF assms(1)] rd_octets_at [OF bb_wf_range [OF assms(1)], of "int i"]
  by (simp add: bb_bytes_def)

lemma rdn_bb_bytes: "bb_wf b \<Longrightarrow> rdn (bb_buffer b) 0 (length (bb_bytes b)) = Some (bb_bytes b)"
  using rdn_octets_at [OF bb_wf_range] length_octets_at [OF bb_wf_range] by (simp add: bb_wf_def bb_bytes_def)

lemma memcpy_append:
  assumes "bb_wf b" and "rdn src 0 (nat n) = Some xs" and "0 \<le> n" and "bb_size b + n \<le> bb_maxSize b"
  shows "memcpy (padd (bb_buffer b) (bb_size b)) src n = Some (padd (store (bb_buffer b) (bb_size b) xs) (bb_size b))"
    and "bb_wf (b\<lparr>bb_buffer := store (bb_buffer b) (bb_size b) xs, bb_size := bb_size b + n\<rparr>)"
    and "bb_bytes (b\<lparr>bb_buffer := store (bb_buffer b) (bb_size b) xs, bb_size := bb_size b + n\<rparr>) = bb_bytes b @ xs"
proof -
  have len: "int (length xs) = n" using length_rdn [OF assms(2)] assms(3) by simp
  have v: "valid_range (bb_buffer b) 0 (bb_size b + int (length xs))" "0 \<le> bb_size b"
    "valid_range (bb_buffer b) (bb_size b) (bb_size b + int (length xs))"
    using assms(1,4) len by (auto simp: bb_wf_def valid_range_def)
  have "emit xs (padd (bb_buffer b) (bb_size b), 0) = Some (store (padd (bb_buffer b) (bb_size b)) 0 xs, int (length xs))"
    using emit_valid [of "padd (bb_buffer b) (bb_size b)" 0 xs] v by simp
  then show "memcpy (padd (bb_buffer b) (bb_size b)) src n = Some (padd (store (bb_buffer b) (bb_size b) xs) (bb_size b))"
    using assms(2) by (simp add: memcpy_def store_def padd_def)
  show "bb_wf (b\<lparr>bb_buffer := store (bb_buffer b) (bb_size b) xs, bb_size := bb_size b + n\<rparr>)"
    using assms v by (simp add: bb_wf_def valid_range_store)
  show "bb_bytes (b\<lparr>bb_buffer := store (bb_buffer b) (bb_size b) xs, bb_size := bb_size b + n\<rparr>) = bb_bytes b @ xs"
    using octets_at_append [OF v(1,2)] len by (simp add: bb_bytes_def)
qed

text \<open>A header in front of a payload is a chain again.\<close>

lemma chain_header:
  assumes "chain_wf payload" and "0 < bc_partLength payload" and "valid_range p 0 (int (length xs))"
    and "n = int (length xs)" and "m = bc_length payload + n"
  shows "chain_wf (BufferChain m n k (store p 0 xs) (Some payload))"
    and "chain_bytes (BufferChain m n k (store p 0 xs) (Some payload)) = xs @ chain_bytes payload"
  using assms by (simp_all add: octets_at_store valid_range_store)

section \<open>Messages as octet strings\<close>

text \<open>
  \<open>holds p i xs\<close>: the octets \<open>xs\<close> are in memory from \<open>p[i]\<close> on. The two rules below
  walk through a message the way the parsers do.
\<close>

definition holds :: "ptr \<Rightarrow> int \<Rightarrow> byte list \<Rightarrow> bool" where
  "holds p i xs \<longleftrightarrow> rdn p i (length xs) = Some xs"

lemma offset_add [simp]:
  "(i :: int) + 1 + 1 = i + 2" "i + numeral k + 1 = i + numeral (k + num.One)"
  "i + 1 + numeral k = i + numeral (num.One + k)" "i + numeral k + numeral l = i + numeral (k + l)"
  by simp_all

lemma holds_Nil [simp]: "holds p i []"
  by (simp add: holds_def)

lemma holds_Cons [simp]: "holds p i (x # xs) \<longleftrightarrow> rd p i = Some x \<and> holds p (i + 1) xs"
  by (auto simp: holds_def bind_eq_Some_conv)

lemma holds_append [simp]: "holds p i (xs @ ys) \<longleftrightarrow> holds p i xs \<and> holds p (i + int (length xs)) ys"
  by (induction xs arbitrary: i) (auto simp: add.assoc)

lemma holds_padd [simp]: "holds (padd p j) i xs \<longleftrightarrow> holds p (j + i) xs"
  by (simp add: holds_def)

lemma holds_bb_bytes: "bb_wf b \<Longrightarrow> bb_bytes b = xs \<Longrightarrow> holds (bb_buffer b) 0 xs"
  using rdn_bb_bytes by (auto simp: holds_def)

lemma holds_octets_at: "holds p i xs \<Longrightarrow> octets_at (padd p i) (int (length xs)) = xs"
proof (cases "xs = []")
  case False
  assume h: "holds p i xs"
  then have "rd p (i + int (length xs - 1)) \<noteq> None" "rd p i \<noteq> None"
    using rdn_nth [of p i "length xs" xs "length xs - 1"] rdn_nth [of p i "length xs" xs 0] False
    by (auto simp: holds_def)
  then have "valid_range p i (i + int (length xs))"
    using False by (auto simp: rd_def Let_def valid_range_def split: if_splits)
  then show ?thesis using h rdn_valid [of p i "length xs"] by (simp add: holds_def octets_at_def)
qed (simp add: octets_at_def)

lemma holds_inj: "holds p i xs \<Longrightarrow> holds p i ys \<Longrightarrow> length xs = length ys \<Longrightarrow> xs = ys"
  by (simp add: holds_def)

section \<open>Protocol layers\<close>

text \<open>
  The contract of a layer on the data path. A sender puts a header in front of a message
  (\<open>wrap\<close>, which uses the part of the buffer chain that the caller prepared); a receiver takes
  the header off again (\<open>unwrap\<close>). The size of a message is limited, and a header has a
  bounded size.
\<close>

locale pdu_layer =
  fixes wrap :: "'p \<Rightarrow> BufferChain \<Rightarrow> BufferChain option" and prepared :: "'p \<Rightarrow> bool"
    and unwrap :: "ByteBufferApi \<Rightarrow> ByteBuffer \<Rightarrow> ByteBuffer option" and limit :: int and overhead :: int
  assumes wrap: "chain_wf c \<Longrightarrow> 0 < bc_partLength c \<Longrightarrow> bc_length c \<le> limit \<Longrightarrow> prepared part \<Longrightarrow>
      \<exists>c'. wrap part c = Some c' \<and> chain_wf c' \<and> 0 < bc_partLength c' \<and> bc_length c' \<le> bc_length c + overhead"
    and unwrap: "chain_wf c \<Longrightarrow> 0 < bc_partLength c \<Longrightarrow> bc_length c \<le> limit \<Longrightarrow> prepared part \<Longrightarrow> wrap part c = Some c' \<Longrightarrow>
      bytebuffer_ok api \<Longrightarrow> bb_wf m \<Longrightarrow> bb_bytes m = chain_bytes c' \<Longrightarrow>
      \<exists>m'. unwrap api m = Some m' \<and> bb_wf m' \<and> bb_bytes m' = chain_bytes c"

text \<open>Two layers on top of each other are a layer.\<close>

locale pdu_stack = upper: pdu_layer wrap1 prepared1 unwrap1 limit1 overhead1 + lower: pdu_layer wrap2 prepared2 unwrap2 limit2 overhead2
  for wrap1 :: "'p \<Rightarrow> BufferChain \<Rightarrow> BufferChain option" and prepared1 unwrap1 limit1 overhead1
    and wrap2 :: "'q \<Rightarrow> BufferChain \<Rightarrow> BufferChain option" and prepared2 unwrap2 limit2 overhead2

sublocale pdu_stack \<subseteq> both: pdu_layer "\<lambda>(part1, part2) c. Option.bind (wrap1 part1 c) (wrap2 part2)"
  "\<lambda>(part1, part2). prepared1 part1 \<and> prepared2 part2" "\<lambda>api m. Option.bind (unwrap2 api m) (unwrap1 api)"
  "min limit1 (limit2 - overhead1)" "overhead1 + overhead2"
proof (unfold_locales, goal_cases)
  case (1 c part)
  obtain part1 part2 where part: "part = (part1, part2)" by (cases part)
  obtain c1 where c1: "wrap1 part1 c = Some c1" "chain_wf c1" "0 < bc_partLength c1" "bc_length c1 \<le> bc_length c + overhead1"
    using upper.wrap [OF 1(1,2), of part1] 1(3,4) part by auto
  then show ?case using lower.wrap [OF c1(2,3), of part2] 1(3,4) part by fastforce
next
  case (2 c part c2 api m)
  obtain part1 part2 where part: "part = (part1, part2)" by (cases part)
  obtain c1 where c1: "wrap1 part1 c = Some c1" "chain_wf c1" "0 < bc_partLength c1" "bc_length c1 \<le> bc_length c + overhead1"
    using upper.wrap [OF 2(1,2), of part1] 2(3,4) part by auto
  then have "wrap2 part2 c1 = Some c2" "bc_length c1 \<le> limit2" "prepared2 part2" "prepared1 part1" "bc_length c \<le> limit1"
    using 2(3-5) part by auto
  from lower.unwrap [OF c1(2,3) this(2,3,1) 2(6-8)] upper.unwrap [OF 2(1,2) this(5,4) c1(1) 2(6)]
  show ?case by fastforce
qed

section \<open>Examples\<close>

text \<open>A payload, an empty part for a header and a received message, for the instances of the properties.\<close>

definition example_payload :: BufferChain where
  "example_payload = BufferChain 3 3 3 ([0x31, 0x32, 0x33], 0) None"

definition example_part :: BufferChain where
  "example_part = BufferChain 0 0 640 (replicate 640 0, 0) None"

definition message_of :: "byte list \<Rightarrow> ByteBuffer" where
  "message_of xs = \<lparr>bb_buffer = (xs @ replicate 600 0, 0), bb_size = int (length xs), bb_maxSize = int (length xs) + 600\<rparr>"

lemma message_of [simp]: "bb_wf (message_of xs)" "bb_bytes (message_of xs) = xs" "bb_size (message_of xs) = int (length xs)"
  "bb_maxSize (message_of xs) = int (length xs) + 600"
  by (simp_all add: message_of_def bb_wf_def bb_bytes_def octets_at_def valid_range_def)

lemma example_parts [simp]: "chain_wf example_payload" "0 < bc_partLength example_payload" "bc_length example_payload = 3"
  "chain_bytes example_payload = [0x31, 0x32, 0x33]" "n \<le> 640 \<Longrightarrow> valid_range (bc_buffer example_part) 0 n"
  by (auto simp: example_payload_def example_part_def valid_range_def octets_at_def)

end
