(* ===== verification/Iso_Connection_Parameters.thy ===== *)
theory Iso_Connection_Parameters
  imports Ber_Decoder
begin

text \<open>
  The parameters of a connection
  (\<^verbatim>\<open>iso_common/iso_connection_parameters.c\<close> and the structs of its header):
  addresses (selectors), application titles and authentication data. The three
  selector structs have the same fields and differ in the capacity of the array:
  4 for \<open>TSelector\<close>, 16 for \<open>SSelector\<close> and \<open>PSelector\<close>. The two members of the
  union in \<open>AcseAuthenticationParameter\<close> have the same layout, a pointer and an
  \<open>int\<close>. Destructors only release memory and are left out.
\<close>

record Selector =
  sel_size :: byte
  sel_value :: "byte list"

type_synonym TSelector = Selector
type_synonym SSelector = Selector
type_synonym PSelector = Selector

datatype AcseAuthenticationMechanism =
  ACSE_AUTH_NONE | ACSE_AUTH_PASSWORD | ACSE_AUTH_CERTIFICATE | ACSE_AUTH_TLS

record AcseAuthenticationParameter =
  mechanism :: AcseAuthenticationMechanism
  auth_octets :: "byte list option"
  auth_length :: int

record IsoApplicationReference =
  apTitle :: ItuObjectIdentifier
  aeQualifier :: int

record 'tls IsoConnectionParameters =
  acseAuthParameter :: "AcseAuthenticationParameter option"
  tlsConfiguration :: "'tls option"
  hostname :: "string option"
  tcpPort :: int
  localIpAddress :: "string option"
  localTcpPort :: int
  remoteApTitle :: "byte list"
  remoteApTitleLen :: int
  remoteAEQualifier :: int
  remotePSelector :: PSelector
  remoteSSelector :: SSelector
  remoteTSelector :: TSelector
  localApTitle :: "byte list"
  localApTitleLen :: int
  localAEQualifier :: int
  localPSelector :: PSelector
  localSSelector :: SSelector
  localTSelector :: TSelector

section \<open>Authentication parameters\<close>

definition AcseAuthenticationParameter_create :: AcseAuthenticationParameter where
  "AcseAuthenticationParameter_create = \<lparr>mechanism = ACSE_AUTH_NONE, auth_octets = None, auth_length = 0\<rparr>"

definition AcseAuthenticationParameter_setPassword ::
  "AcseAuthenticationParameter \<Rightarrow> byte list \<Rightarrow> AcseAuthenticationParameter" where
  "AcseAuthenticationParameter_setPassword self password =
     self\<lparr>auth_octets := Some password, auth_length := int (length password)\<rparr>"

definition AcseAuthenticationParameter_getPassword ::
  "AcseAuthenticationParameter option \<Rightarrow> byte list option" where
  "AcseAuthenticationParameter_getPassword self = (case self of
       None \<Rightarrow> None
     | Some p \<Rightarrow> if mechanism p \<noteq> ACSE_AUTH_PASSWORD then None else auth_octets p)"

definition AcseAuthenticationParameter_getPasswordLength :: "AcseAuthenticationParameter option \<Rightarrow> int" where
  "AcseAuthenticationParameter_getPasswordLength self = (case self of
       None \<Rightarrow> 0
     | Some p \<Rightarrow> if mechanism p \<noteq> ACSE_AUTH_PASSWORD then 0 else auth_length p)"

definition AcseAuthenticationParameter_setAuthMechanism ::
  "AcseAuthenticationParameter \<Rightarrow> AcseAuthenticationMechanism \<Rightarrow> AcseAuthenticationParameter" where
  "AcseAuthenticationParameter_setAuthMechanism self m = self\<lparr>mechanism := m\<rparr>"

section \<open>Connection parameters\<close>

definition zero_selector :: "nat \<Rightarrow> Selector" where
  "zero_selector capacity = \<lparr>sel_size = 0, sel_value = replicate capacity 0\<rparr>"

definition IsoConnectionParameters_create :: "'tls IsoConnectionParameters" where
  "IsoConnectionParameters_create = \<lparr>
     acseAuthParameter = None, tlsConfiguration = None, hostname = None, tcpPort = 0,
     localIpAddress = None, localTcpPort = 0,
     remoteApTitle = replicate 10 0, remoteApTitleLen = 0, remoteAEQualifier = 0,
     remotePSelector = zero_selector 16, remoteSSelector = zero_selector 16, remoteTSelector = zero_selector 4,
     localApTitle = replicate 10 0, localApTitleLen = 0, localAEQualifier = 0,
     localPSelector = zero_selector 16, localSSelector = zero_selector 16, localTSelector = zero_selector 4\<rparr>"

definition IsoConnectionParameters_setTlsConfiguration ::
  "'tls IsoConnectionParameters \<Rightarrow> 'tls option \<Rightarrow> 'tls IsoConnectionParameters" where
  "IsoConnectionParameters_setTlsConfiguration self tlsConfig = self\<lparr>tlsConfiguration := tlsConfig\<rparr>"

definition IsoConnectionParameters_setAcseAuthenticationParameter ::
  "'tls IsoConnectionParameters \<Rightarrow> AcseAuthenticationParameter option \<Rightarrow> 'tls IsoConnectionParameters" where
  "IsoConnectionParameters_setAcseAuthenticationParameter self p = self\<lparr>acseAuthParameter := p\<rparr>"

definition IsoConnectionParameters_setTcpParameters ::
  "'tls IsoConnectionParameters \<Rightarrow> string option \<Rightarrow> int \<Rightarrow> 'tls IsoConnectionParameters" where
  "IsoConnectionParameters_setTcpParameters self host port = self\<lparr>hostname := host, tcpPort := port\<rparr>"

definition IsoConnectionParameters_setLocalTcpParameters ::
  "'tls IsoConnectionParameters option \<Rightarrow> string option \<Rightarrow> int \<Rightarrow> 'tls IsoConnectionParameters option" where
  "IsoConnectionParameters_setLocalTcpParameters self ip port = (case self of
       None \<Rightarrow> None
     | Some c \<Rightarrow> (case ip of
           None \<Rightarrow> Some c
         | Some a \<Rightarrow> Some (c\<lparr>localIpAddress := Some a, localTcpPort := port\<rparr>)))"

text \<open>The encoded title goes into the array of ten octets inside the struct.\<close>

definition IsoConnectionParameters_setRemoteApTitle ::
  "'tls IsoConnectionParameters \<Rightarrow> string option \<Rightarrow> int \<Rightarrow> 'tls IsoConnectionParameters option" where
  "IsoConnectionParameters_setRemoteApTitle self title aeQual = (case title of
       None \<Rightarrow> Some (self\<lparr>remoteApTitleLen := 0\<rparr>)
     | Some t \<Rightarrow> do {
         (buf, n) \<leftarrow> BerEncoder_encodeOIDToBuffer t (remoteApTitle self, 0) 10;
         Some (self\<lparr>remoteApTitle := fst buf, remoteApTitleLen := n, remoteAEQualifier := aeQual\<rparr>) })"

definition IsoConnectionParameters_setLocalApTitle ::
  "'tls IsoConnectionParameters \<Rightarrow> string option \<Rightarrow> int \<Rightarrow> 'tls IsoConnectionParameters option" where
  "IsoConnectionParameters_setLocalApTitle self title aeQual = (case title of
       None \<Rightarrow> Some (self\<lparr>localApTitleLen := 0\<rparr>)
     | Some t \<Rightarrow> do {
         (buf, n) \<leftarrow> BerEncoder_encodeOIDToBuffer t (localApTitle self, 0) 10;
         Some (self\<lparr>localApTitle := fst buf, localApTitleLen := n, localAEQualifier := aeQual\<rparr>) })"

definition IsoConnectionParameters_setRemoteAddresses ::
  "'tls IsoConnectionParameters \<Rightarrow> PSelector \<Rightarrow> SSelector \<Rightarrow> TSelector \<Rightarrow> 'tls IsoConnectionParameters" where
  "IsoConnectionParameters_setRemoteAddresses self p s t =
     self\<lparr>remotePSelector := p, remoteSSelector := s, remoteTSelector := t\<rparr>"

definition IsoConnectionParameters_setLocalAddresses ::
  "'tls IsoConnectionParameters \<Rightarrow> PSelector \<Rightarrow> SSelector \<Rightarrow> TSelector \<Rightarrow> 'tls IsoConnectionParameters" where
  "IsoConnectionParameters_setLocalAddresses self p s t =
     self\<lparr>localPSelector := p, localSSelector := s, localTSelector := t\<rparr>"

section \<open>Selectors as octet strings\<close>

definition selector_ok :: "nat \<Rightarrow> Selector \<Rightarrow> bool" where
  "selector_ok capacity s \<longleftrightarrow> length (sel_value s) = capacity \<and> unat (sel_size s) \<le> capacity"

definition sel_bytes :: "Selector \<Rightarrow> byte list" where
  "sel_bytes s = take (unat (sel_size s)) (sel_value s)"

text \<open>The connection parameters the encoders of the layers can rely on.\<close>

definition params_ok :: "'tls IsoConnectionParameters \<Rightarrow> bool" where
  "params_ok c \<longleftrightarrow>
     selector_ok 16 (remotePSelector c) \<and> selector_ok 16 (remoteSSelector c) \<and> selector_ok 4 (remoteTSelector c) \<and>
     selector_ok 16 (localPSelector c) \<and> selector_ok 16 (localSSelector c) \<and> selector_ok 4 (localTSelector c) \<and>
     length (remoteApTitle c) = 10 \<and> 0 \<le> remoteApTitleLen c \<and> remoteApTitleLen c \<le> 10 \<and>
     length (localApTitle c) = 10 \<and> 0 \<le> localApTitleLen c \<and> localApTitleLen c \<le> 10"

lemma length_sel_bytes: "selector_ok capacity s \<Longrightarrow> length (sel_bytes s) = unat (sel_size s)"
  by (simp add: selector_ok_def sel_bytes_def)

lemma copy_selector:
  assumes "selector_ok capacity s"
  shows "copy_bytes (sel_value s, 0) (uint (sel_size s)) c = emit (sel_bytes s) c"
proof -
  have "uint (sel_size s) \<le> int (length (sel_value s))"
    using assms unfolding selector_ok_def by (metis nat_le_iff unat_eq_nat_uint)
  then have "rdn (sel_value s, 0) 0 (unat (sel_size s)) = Some (sel_bytes s)"
    by (subst rdn_valid) (simp_all add: valid_range_def sel_bytes_def)
  then show ?thesis
    using copy_bytes_emits [of "(sel_value s, 0)" "uint (sel_size s)"] by simp
qed

section \<open>Reading selectors\<close>

text \<open>
  The loop with which every parser copies a selector from a message into the array
  \<open>value\<close> of a selector struct.
\<close>

definition read_octets :: "ptr \<Rightarrow> int \<Rightarrow> int \<Rightarrow> byte list \<Rightarrow> (byte list \<times> int) option" where
  "read_octets buffer n bufPos arr = do {
     (arr, bufPos) \<leftarrow> for_range 0 n
       (\<lambda>i (arr, pos). do { x \<leftarrow> rd buffer pos; arr \<leftarrow> wr arr i x; Some (arr, pos + 1) }) ((arr, 0), bufPos);
     Some (fst arr, bufPos) }"

lemma read_octets_ok:
  assumes "rdn buffer pos (length xs) = Some xs" and "length xs \<le> length arr"
  shows "read_octets buffer (int (length xs)) pos arr = Some (xs @ drop (length xs) arr, pos + int (length xs))"
proof -
  let ?g = "\<lambda>i. ((take (nat i) xs @ drop (nat i) arr, 0 :: int), pos + i)"
  have step: "do { x \<leftarrow> rd buffer (pos + i); b \<leftarrow> wr (take (nat i) xs @ drop (nat i) arr, 0) i x; Some (b, pos + i + 1) } =
      Some (?g (i + 1))" if i: "0 \<le> i" "i < int (length xs)" for i
  proof -
    obtain k where k: "i = int k" "k < length xs" using i by (cases i rule: nonneg_int_cases) auto
    have "rd buffer (pos + i) = Some (xs ! k)" using rdn_nth [OF assms(1) k(2)] k by simp
    moreover have "(take k xs @ drop k arr)[k := xs ! k] = take (Suc k) xs @ drop (Suc k) arr"
      using k(2) assms(2) by (simp add: list_update_append take_Suc_conv_app_nth Cons_nth_drop_Suc [symmetric])
    ultimately show ?thesis using k assms(2) by (simp add: wr_def nat_add_distrib)
  qed
  have "for_range 0 (int (length xs)) (\<lambda>i (arr, pos). do { x \<leftarrow> rd buffer pos; arr \<leftarrow> wr arr i x; Some (arr, pos + 1) })
      (?g 0) = Some (?g (int (length xs)))"
    using step by (intro for_range_det) (auto simp: add.assoc)
  then show ?thesis by (simp add: read_octets_def)
qed

lemma read_octets_valid:
  assumes "valid_range buffer pos (pos + n)" and "0 \<le> n" and "n \<le> int (length arr)"
  shows "\<exists>v. read_octets buffer n pos arr = Some (v, pos + n) \<and> length v = length arr"
proof -
  obtain xs where xs: "rdn buffer pos (nat n) = Some xs"
    using rdn_valid [of buffer pos "nat n"] assms by auto
  then show ?thesis using read_octets_ok [of buffer pos xs arr] length_rdn [OF xs] assms by auto
qed

section \<open>Properties\<close>



lemma default_params_ok [simp]: "params_ok IsoConnectionParameters_create"
  by (simp add: params_ok_def IsoConnectionParameters_create_def zero_selector_def selector_ok_def)

end
