(* ===== verification/Cotp.thy ===== *)
theory Cotp
  imports Stack_Buffers Iso_Connection_Parameters
begin

text \<open>
  The transport layer, \<^verbatim>\<open>iso_cotp/cotp.c\<close>: TPKT framing (RFC 1006) and the ISO 8073
  class 0 TPDUs. Sending cuts a message into TPDUs that fit the negotiated size and
  keeps what the socket does not accept in an extension buffer; receiving collects
  the octets of a TPKT from the socket and appends the data TPDUs to the payload.

  Sockets and handle sets are not part of the repository. They are the fields of the
  parameter \<open>SocketApi\<close>, over an arbitrary state of the outside world; \<open>socket_ok\<close>
  names what the code relies on. The configuration is the one with TLS support
  (\<^verbatim>\<open>CONFIG_MMS_SUPPORT_TLS\<close> is 1), which contains the code of the other one.
\<close>

declare split_paired_All [simp del] split_paired_Ex [simp del]

section \<open>Data\<close>

record CotpOptions =
  tSelSrc :: TSelector
  tSelDst :: TSelector
  tpduSize :: byte

record CotpConnection =
  cc_state :: int
  cc_remoteRef :: int
  cc_localRef :: int
  cc_protocolClass :: int
  cc_handleSet :: nat
  cc_socket :: nat
  cc_tlsSocket :: "nat option"
  cc_options :: CotpOptions
  cc_isLastDataUnit :: bool
  cc_payload :: ByteBuffer
  cc_writeBuffer :: "ByteBuffer option"
  cc_readBuffer :: ByteBuffer
  cc_packetSize :: "16 word"
  cc_socketExtensionBuffer :: "ptr option"
  cc_socketExtensionBufferSize :: int
  cc_socketExtensionBufferFill :: int

datatype CotpIndication =
  COTP_OK | COTP_ERROR | COTP_CONNECT_INDICATION | COTP_DATA_INDICATION
| COTP_DISCONNECT_INDICATION | COTP_MORE_FRAGMENTS_FOLLOW

datatype TpktState = TPKT_PACKET_COMPLETE | TPKT_WAITING | TPKT_ERROR

record 'w SocketApi =
  Socket_write :: "nat \<Rightarrow> ptr \<Rightarrow> int \<Rightarrow> 'w \<Rightarrow> (int \<times> 'w) option"
  TLSSocket_write :: "nat \<Rightarrow> ptr \<Rightarrow> int \<Rightarrow> 'w \<Rightarrow> (int \<times> 'w) option"
  Socket_read :: "nat \<Rightarrow> ptr \<Rightarrow> int \<Rightarrow> 'w \<Rightarrow> (int \<times> ptr \<times> 'w) option"
  TLSSocket_read :: "nat \<Rightarrow> ptr \<Rightarrow> int \<Rightarrow> 'w \<Rightarrow> (int \<times> ptr \<times> 'w) option"
  Handleset_waitReady :: "nat \<Rightarrow> int \<Rightarrow> 'w \<Rightarrow> int \<times> 'w"
  Handleset_new :: "'w \<Rightarrow> nat \<times> 'w"
  Handleset_addSocket :: "nat \<Rightarrow> nat \<Rightarrow> 'w \<Rightarrow> 'w"

definition COTP_MAX_TPDU_SIZE :: int where "COTP_MAX_TPDU_SIZE = 8192"
definition COTP_DATA_HEADER_SIZE :: int where "COTP_DATA_HEADER_SIZE = 3"
definition TPKT_RFC1006_HEADER_SIZE :: int where "TPKT_RFC1006_HEADER_SIZE = 4"

section \<open>TPDU size\<close>

definition CotpConnection_getTpduSize :: "CotpConnection \<Rightarrow> int option" where
  "CotpConnection_getTpduSize self = shl1 (uint (tpduSize (cc_options self)))"

text \<open>\<open>while ((1 << newTpduSize) < tpduSize) newTpduSize++;\<close>\<close>

partial_function (option) setTpduSize_loop :: "int \<Rightarrow> int \<Rightarrow> int option" where
  "setTpduSize_loop n newTpduSize = do {
     x \<leftarrow> shl1 newTpduSize;
     if x < n then setTpduSize_loop n (newTpduSize + 1) else Some newTpduSize }"

definition CotpConnection_setTpduSize :: "CotpConnection \<Rightarrow> int \<Rightarrow> CotpConnection option" where
  "CotpConnection_setTpduSize self n = do {
     let n = (if n > COTP_MAX_TPDU_SIZE then COTP_MAX_TPDU_SIZE else n);
     newTpduSize \<leftarrow> setTpduSize_loop n 1;
     x \<leftarrow> shl1 newTpduSize;
     let newTpduSize = (if x > n then newTpduSize - 1 else newTpduSize);
     Some (self\<lparr>cc_options := (cc_options self)\<lparr>tpduSize := word_of_int newTpduSize\<rparr>\<rparr>) }"

section \<open>Writing headers\<close>

definition getUint16 :: "ptr \<Rightarrow> int option" where
  "getUint16 buffer = do { a \<leftarrow> rd buffer 0; b \<leftarrow> rd buffer 1; Some (uint a * 0x100 + uint b) }"

definition getUint8 :: "ptr \<Rightarrow> byte option" where
  "getUint8 buffer = rd buffer 0"

definition writeOptions :: "CotpConnection \<Rightarrow> CotpConnection option" where
  "writeOptions self = do {
     wb \<leftarrow> cc_writeBuffer self;
     let opts = cc_options self;
     let s = (bb_buffer wb, bb_size wb);
     s \<leftarrow> (if tpduSize opts \<noteq> 0 then do {
         s \<leftarrow> put 0xc0 s;
         s \<leftarrow> put 0x01 s;
         put (tpduSize opts) s } else Some s);
     s \<leftarrow> (if sel_size (tSelDst opts) \<noteq> 0 then do {
         s \<leftarrow> put 0xc2 s;
         s \<leftarrow> put (sel_size (tSelDst opts)) s;
         copy_bytes (sel_value (tSelDst opts), 0) (uint (sel_size (tSelDst opts))) s } else Some s);
     s \<leftarrow> (if sel_size (tSelSrc opts) \<noteq> 0 then do {
         s \<leftarrow> put 0xc1 s;
         s \<leftarrow> put (sel_size (tSelSrc opts)) s;
         copy_bytes (sel_value (tSelSrc opts), 0) (uint (sel_size (tSelSrc opts))) s } else Some s);
     Some (self\<lparr>cc_writeBuffer := Some (wb\<lparr>bb_buffer := fst s, bb_size := snd s\<rparr>)\<rparr>) }"

definition getOptionsLength :: "CotpConnection \<Rightarrow> int" where
  "getOptionsLength self = (let opts = cc_options self in
     (if tpduSize opts \<noteq> 0 then 3 else 0) +
     (if sel_size (tSelDst opts) \<noteq> 0 then 2 + uint (sel_size (tSelDst opts)) else 0) +
     (if sel_size (tSelSrc opts) \<noteq> 0 then 2 + uint (sel_size (tSelSrc opts)) else 0))"

definition writeStaticConnectResponseHeader :: "CotpConnection \<Rightarrow> int \<Rightarrow> CotpConnection option" where
  "writeStaticConnectResponseHeader self optionsLength = do {
     wb \<leftarrow> cc_writeBuffer self;
     b \<leftarrow> wr (bb_buffer wb) 4 (word_of_int (6 + optionsLength));
     b \<leftarrow> wr b 5 0xd0;
     b \<leftarrow> wr b 6 (word_of_int (cc_remoteRef self sdiv 0x100));
     b \<leftarrow> wr b 7 (word_of_int (cc_remoteRef self AND 0xff));
     b \<leftarrow> wr b 8 (word_of_int (cc_localRef self sdiv 0x100));
     b \<leftarrow> wr b 9 (word_of_int (cc_localRef self AND 0xff));
     b \<leftarrow> wr b 10 (word_of_int (cc_protocolClass self));
     Some (self\<lparr>cc_writeBuffer := Some (wb\<lparr>bb_buffer := b, bb_size := 11\<rparr>)\<rparr>) }"

definition writeRfc1006Header :: "CotpConnection \<Rightarrow> int \<Rightarrow> CotpConnection option" where
  "writeRfc1006Header self len = do {
     wb \<leftarrow> cc_writeBuffer self;
     b \<leftarrow> wr (bb_buffer wb) 0 0x03;
     b \<leftarrow> wr b 1 0x00;
     b \<leftarrow> wr b 2 (word_of_int (len sdiv 0x100));
     b \<leftarrow> wr b 3 (word_of_int (len AND 0xff));
     Some (self\<lparr>cc_writeBuffer := Some (wb\<lparr>bb_buffer := b, bb_size := 4\<rparr>)\<rparr>) }"

definition writeDataTpduHeader :: "CotpConnection \<Rightarrow> bool \<Rightarrow> CotpConnection option" where
  "writeDataTpduHeader self isLastUnit = do {
     wb \<leftarrow> cc_writeBuffer self;
     b \<leftarrow> wr (bb_buffer wb) 4 0x02;
     b \<leftarrow> wr b 5 0xf0;
     b \<leftarrow> (if isLastUnit then wr b 6 0x80 else wr b 6 0x00);
     Some (self\<lparr>cc_writeBuffer := Some (wb\<lparr>bb_buffer := b, bb_size := 7\<rparr>)\<rparr>) }"

section \<open>Sending\<close>

definition writeToSocket :: "'w SocketApi \<Rightarrow> CotpConnection \<Rightarrow> ptr \<Rightarrow> int \<Rightarrow> 'w \<Rightarrow> (int \<times> 'w) option" where
  "writeToSocket net self buf n w = (case cc_tlsSocket self of
       Some tls \<Rightarrow> TLSSocket_write net tls buf n w
     | None \<Rightarrow> Socket_write net (cc_socket self) buf n w)"

definition flushBuffer :: "'w SocketApi \<Rightarrow> CotpConnection \<Rightarrow> 'w \<Rightarrow> (bool \<times> CotpConnection \<times> 'w) option" where
  "flushBuffer net self w = (let fill = cc_socketExtensionBufferFill self in
     if fill > 0 then do {
       ext \<leftarrow> cc_socketExtensionBuffer self;
       (sentBytes, w) \<leftarrow> writeToSocket net self ext fill w;
       if sentBytes > 0 then
         if sentBytes \<noteq> fill then do {
           (buf, target) \<leftarrow> for_range sentBytes fill
             (\<lambda>i (buf, target). do { x \<leftarrow> rd buf i; put x (buf, target) }) (ext, 0);
           Some (True, self\<lparr>cc_socketExtensionBuffer := Some buf,
             cc_socketExtensionBufferFill := fill - sentBytes\<rparr>, w) }
         else Some (True, self\<lparr>cc_socketExtensionBufferFill := 0\<rparr>, w)
       else if sentBytes = -1 then Some (False, self, w)
       else Some (True, self, w) }
     else Some (True, self, w))"

definition sendBuffer ::
  "ByteBufferApi \<Rightarrow> 'w SocketApi \<Rightarrow> CotpConnection \<Rightarrow> 'w \<Rightarrow> (bool \<times> CotpConnection \<times> 'w) option" where
  "sendBuffer api net self w = do {
     wb \<leftarrow> cc_writeBuffer self;
     let remainingSize = ByteBuffer_getSize api wb;
     let buffer = ByteBuffer_getBuffer api wb;
     (flushed, self, w) \<leftarrow> flushBuffer net self w;
     if \<not> flushed then Some (False, self, w)
     else do {
       (sentBytes, w) \<leftarrow> (if cc_socketExtensionBufferFill self = 0
         then writeToSocket net self buffer remainingSize w else Some (0, w));
       if sentBytes = -1 then Some (False, self, w)
       else if sentBytes \<noteq> remainingSize then
         (case cc_socketExtensionBuffer self of
           Some extBuf \<Rightarrow> do {
             let extCurrentPos = cc_socketExtensionBufferFill self;
             let bytesNotSent = remainingSize - sentBytes;
             extBuf \<leftarrow> for_range 0 bytesNotSent
               (\<lambda>i ext. do { x \<leftarrow> rd buffer (sentBytes + i); wr ext (i + extCurrentPos) x }) extBuf;
             Some (True, self\<lparr>cc_socketExtensionBuffer := Some extBuf,
               cc_socketExtensionBufferFill := extCurrentPos + bytesNotSent,
               cc_writeBuffer := Some (ByteBuffer_setSize api wb 0)\<rparr>, w) }
         | None \<Rightarrow> Some (False, self, w))
       else Some (True, self\<lparr>cc_writeBuffer := Some (ByteBuffer_setSize api wb 0)\<rparr>, w) } }"

text \<open>The body of the loop that copies one fragment out of the chain.\<close>

definition sendData_copy ::
  "int \<Rightarrow> BufferChain \<times> int \<times> cursor \<times> int \<Rightarrow> (BufferChain \<times> int \<times> cursor \<times> int) option" where
  "sendData_copy i st = do {
     let (chain, idx, s, currentBufPos) = st;
     (chain, idx) \<leftarrow> (if idx \<ge> bc_partLength chain
       then do { next \<leftarrow> bc_nextPart chain; Some (next, 0) } else Some (chain, idx));
     x \<leftarrow> rd (bc_buffer chain) idx;
     s \<leftarrow> put x s;
     Some (chain, idx + 1, s, currentBufPos + 1) }"

text \<open>The body of the loop over the fragments: build one packet and send it.\<close>

definition sendData_fragment ::
  "ByteBufferApi \<Rightarrow> 'w SocketApi \<Rightarrow> int \<Rightarrow> bool \<Rightarrow> BufferChain \<Rightarrow> int \<Rightarrow> int \<Rightarrow> CotpConnection \<Rightarrow> 'w \<Rightarrow>
   (bool \<times> BufferChain \<times> int \<times> int \<times> CotpConnection \<times> 'w) option" where
  "sendData_fragment api net currentLimit lastUnit chain idx currentBufPos self w = do {
     self \<leftarrow> writeRfc1006Header self (7 + (currentLimit - currentBufPos));
     self \<leftarrow> writeDataTpduHeader self lastUnit;
     wb \<leftarrow> cc_writeBuffer self;
     (chain, idx, s, currentBufPos) \<leftarrow>
       for_range currentBufPos currentLimit sendData_copy (chain, idx, (bb_buffer wb, 7), currentBufPos);
     let self = self\<lparr>cc_writeBuffer := Some (wb\<lparr>bb_buffer := fst s, bb_size := snd s\<rparr>)\<rparr>;
     (sent, self, w) \<leftarrow> sendBuffer api net self w;
     Some (sent, chain, idx, currentBufPos, self, w) }"

text \<open>\<open>while (fragments > 0)\<close> in \<open>CotpConnection_sendDataMessage\<close>\<close>

function sendData_loop ::
  "ByteBufferApi \<Rightarrow> 'w SocketApi \<Rightarrow> int \<Rightarrow> int \<Rightarrow> int \<Rightarrow> BufferChain \<Rightarrow> int \<Rightarrow> int \<Rightarrow>
   CotpConnection \<Rightarrow> 'w \<Rightarrow> (CotpIndication \<times> CotpConnection \<times> 'w) option" where
  "sendData_loop api net payloadLength fragmentPayloadSize fragments chain idx currentBufPos self w =
     (if fragments > 0 then do {
        let currentLimit = (if fragments > 1 then currentBufPos + fragmentPayloadSize else payloadLength);
        let lastUnit = (\<not> fragments > 1);
        (sent, chain, idx, currentBufPos, self, w) \<leftarrow>
          sendData_fragment api net currentLimit lastUnit chain idx currentBufPos self w;
        if \<not> sent then Some (COTP_ERROR, self, w)
        else sendData_loop api net payloadLength fragmentPayloadSize (fragments - 1) chain idx currentBufPos self w }
      else Some (COTP_OK, self, w))"
  by pat_completeness auto
termination
  by (relation "measure (\<lambda>(api, net, len, n, fragments, chain, idx, pos, self, w). nat fragments)") auto

declare sendData_loop.simps [simp del]

definition CotpConnection_sendDataMessage ::
  "ByteBufferApi \<Rightarrow> 'w SocketApi \<Rightarrow> CotpConnection \<Rightarrow> BufferChain \<Rightarrow> 'w \<Rightarrow>
   (CotpIndication \<times> CotpConnection \<times> 'w) option" where
  "CotpConnection_sendDataMessage api net self payload w = do {
     n \<leftarrow> CotpConnection_getTpduSize self;
     let fragmentPayloadSize = n - COTP_DATA_HEADER_SIZE;
     let len = bc_length payload;
     let fragments = (if len > fragmentPayloadSize
       then len sdiv fragmentPayloadSize + (if len smod fragmentPayloadSize \<noteq> 0 then 1 else 0) else 1);
     totalSize \<leftarrow> i32 (fragments * (COTP_DATA_HEADER_SIZE + 4) + len);
     (flushed, self, w) \<leftarrow> flushBuffer net self w;
     if \<not> flushed then Some (COTP_ERROR, self, w)
     else if cc_socketExtensionBuffer self \<noteq> None \<and>
         cc_socketExtensionBufferSize self - cc_socketExtensionBufferFill self < totalSize
       then Some (COTP_ERROR, self, w)
     else sendData_loop api net len fragmentPayloadSize fragments payload 0 0 self w }"

definition allocateWriteBuffer :: "ByteBufferApi \<Rightarrow> CotpConnection \<Rightarrow> CotpConnection option" where
  "allocateWriteBuffer api self = (case cc_writeBuffer self of
       Some _ \<Rightarrow> Some self
     | None \<Rightarrow> do {
         n \<leftarrow> CotpConnection_getTpduSize self;
         Some (self\<lparr>cc_writeBuffer := Some (ByteBuffer_create api (n + TPKT_RFC1006_HEADER_SIZE))\<rparr>) })"

definition CotpConnection_sendConnectionRequestMessage ::
  "ByteBufferApi \<Rightarrow> 'w SocketApi \<Rightarrow> CotpConnection \<Rightarrow> 'tls IsoConnectionParameters \<Rightarrow> 'w \<Rightarrow>
   (CotpIndication \<times> CotpConnection \<times> 'w) option" where
  "CotpConnection_sendConnectionRequestMessage api net self isoParameters w = do {
     self \<leftarrow> allocateWriteBuffer api self;
     let self = self\<lparr>cc_options := (cc_options self)\<lparr>tSelDst := remoteTSelector isoParameters\<rparr>\<rparr>;
     let self = self\<lparr>cc_options := (cc_options self)\<lparr>tSelSrc := localTSelector isoParameters\<rparr>\<rparr>;
     let cotpRequestSize = getOptionsLength self + 6;
     let conRequestSize = cotpRequestSize + 5;
     wb \<leftarrow> cc_writeBuffer self;
     if bb_maxSize wb < conRequestSize then Some (COTP_ERROR, self, w)
     else do {
       self \<leftarrow> writeRfc1006Header self conRequestSize;
       wb \<leftarrow> cc_writeBuffer self;
       b \<leftarrow> wr (bb_buffer wb) 4 (word_of_int cotpRequestSize);
       b \<leftarrow> wr b 5 0xe0;
       b \<leftarrow> wr b 6 0x00;
       b \<leftarrow> wr b 7 0x00;
       b \<leftarrow> wr b 8 (word_of_int (cc_localRef self sdiv 0x100));
       b \<leftarrow> wr b 9 (word_of_int (cc_localRef self AND 0xff));
       b \<leftarrow> wr b 10 0x00;
       let self = self\<lparr>cc_writeBuffer := Some (wb\<lparr>bb_buffer := b, bb_size := 11\<rparr>)\<rparr>;
       self \<leftarrow> writeOptions self;
       (sent, self, w) \<leftarrow> sendBuffer api net self w;
       Some (if sent then COTP_OK else COTP_ERROR, self, w) } }"

definition CotpConnection_sendConnectionResponseMessage ::
  "ByteBufferApi \<Rightarrow> 'w SocketApi \<Rightarrow> CotpConnection \<Rightarrow> 'w \<Rightarrow> (CotpIndication \<times> CotpConnection \<times> 'w) option" where
  "CotpConnection_sendConnectionResponseMessage api net self w = do {
     self \<leftarrow> allocateWriteBuffer api self;
     let optionsLength = getOptionsLength self;
     let messageLength = 11 + optionsLength;
     self \<leftarrow> writeRfc1006Header self messageLength;
     self \<leftarrow> writeStaticConnectResponseHeader self optionsLength;
     self \<leftarrow> writeOptions self;
     (sent, self, w) \<leftarrow> sendBuffer api net self w;
     Some (if sent then COTP_OK else COTP_ERROR, self, w) }"

section \<open>Receiving\<close>

partial_function (option) parseOptions_loop ::
  "CotpConnection \<Rightarrow> ptr \<Rightarrow> int \<Rightarrow> int \<Rightarrow> (bool \<times> CotpConnection) option" where
  "parseOptions_loop self buffer bufLen bufPos =
     (if bufPos < bufLen then do {
        optionType \<leftarrow> rd buffer bufPos;
        let bufPos = bufPos + 1;
        optionLen \<leftarrow> rd buffer bufPos;
        let bufPos = bufPos + 1;
        let opts = cc_options self;
        if uint optionLen > bufLen - bufPos then Some (False, self)
        else if optionType = 0xc0 then
          if optionLen = 1 then do {
            x \<leftarrow> rd buffer bufPos;
            let bufPos = bufPos + 1;
            requestedTpduSize \<leftarrow> shl1 (uint x);
            self \<leftarrow> CotpConnection_setTpduSize self requestedTpduSize;
            parseOptions_loop self buffer bufLen bufPos }
          else Some (False, self)
        else if optionType = 0xc1 then
          if optionLen < 5 then do {
            (v, bufPos) \<leftarrow> read_octets buffer (uint optionLen) bufPos (sel_value (tSelSrc opts));
            parseOptions_loop (self\<lparr>cc_options := opts\<lparr>tSelSrc := \<lparr>sel_size = optionLen, sel_value = v\<rparr>\<rparr>\<rparr>)
              buffer bufLen bufPos }
          else Some (False, self)
        else if optionType = 0xc2 then
          if optionLen < 5 then do {
            (v, bufPos) \<leftarrow> read_octets buffer (uint optionLen) bufPos (sel_value (tSelDst opts));
            parseOptions_loop (self\<lparr>cc_options := opts\<lparr>tSelDst := \<lparr>sel_size = optionLen, sel_value = v\<rparr>\<rparr>\<rparr>)
              buffer bufLen bufPos }
          else Some (False, self)
        else if optionType = 0xc6 then
          if optionLen = 1 then parseOptions_loop self buffer bufLen (bufPos + 1)
          else Some (False, self)
        else parseOptions_loop self buffer bufLen (bufPos + uint optionLen) }
      else Some (True, self))"

definition parseOptions :: "CotpConnection \<Rightarrow> ptr \<Rightarrow> int \<Rightarrow> (bool \<times> CotpConnection) option" where
  "parseOptions self buffer bufLen = parseOptions_loop self buffer bufLen 0"

definition CotpConnection_resetPayload :: "CotpConnection \<Rightarrow> CotpConnection" where
  "CotpConnection_resetPayload self = self\<lparr>cc_payload := (cc_payload self)\<lparr>bb_size := 0\<rparr>\<rparr>"

text \<open>\<open>u2\<close> and \<open>u3\<close> are the elements of \<open>tsel.value\<close> that the code leaves unset.\<close>

definition CotpConnection_init ::
  "'w SocketApi \<Rightarrow> byte \<Rightarrow> byte \<Rightarrow> CotpConnection \<Rightarrow> nat \<Rightarrow> ByteBuffer \<Rightarrow> ByteBuffer \<Rightarrow> ByteBuffer option \<Rightarrow>
   ptr option \<Rightarrow> int \<Rightarrow> 'w \<Rightarrow> (CotpConnection \<times> 'w) option" where
  "CotpConnection_init net u2 u3 self sock payloadBuffer rdBuffer wrBuffer extBuffer extBufferSize w = do {
     let (hs, w) = Handleset_new net w;
     let w = Handleset_addSocket net hs sock w;
     let tsel = \<lparr>sel_size = 2, sel_value = [0, 1, u2, u3]\<rparr>;
     let self = self\<lparr>cc_state := 0, cc_socket := sock, cc_handleSet := hs, cc_tlsSocket := None,
       cc_remoteRef := -1, cc_localRef := 1, cc_protocolClass := -1,
       cc_options := \<lparr>tSelSrc = tsel, tSelDst = tsel, tpduSize = 0\<rparr>,
       cc_payload := payloadBuffer\<rparr>;
     let self = CotpConnection_resetPayload self;
     self \<leftarrow> CotpConnection_setTpduSize self COTP_MAX_TPDU_SIZE;
     Some (self\<lparr>cc_writeBuffer := wrBuffer, cc_readBuffer := rdBuffer, cc_packetSize := 0,
       cc_socketExtensionBuffer := extBuffer, cc_socketExtensionBufferSize := extBufferSize,
       cc_socketExtensionBufferFill := 0\<rparr>, w) }"

definition parseConnectRequestTpdu :: "CotpConnection \<Rightarrow> ptr \<Rightarrow> byte \<Rightarrow> (bool \<times> CotpConnection) option" where
  "parseConnectRequestTpdu self buffer len =
     (if len < 6 then Some (False, self)
      else do {
        ref \<leftarrow> getUint16 (padd buffer 2);
        cls \<leftarrow> getUint8 (padd buffer 4);
        parseOptions (self\<lparr>cc_remoteRef := ref, cc_protocolClass := uint cls\<rparr>) (padd buffer 5) (uint len - 6) })"

definition parseConnectConfirmTpdu :: "CotpConnection \<Rightarrow> ptr \<Rightarrow> byte \<Rightarrow> (bool \<times> CotpConnection) option" where
  "parseConnectConfirmTpdu self buffer len =
     (if len < 6 then Some (False, self)
      else do {
        ref \<leftarrow> getUint16 buffer;
        cls \<leftarrow> getUint8 (padd buffer 4);
        parseOptions (self\<lparr>cc_remoteRef := ref, cc_protocolClass := uint cls\<rparr>) (padd buffer 5) (uint len - 6) })"

definition parseDataTpdu :: "CotpConnection \<Rightarrow> ptr \<Rightarrow> byte \<Rightarrow> (bool \<times> CotpConnection) option" where
  "parseDataTpdu self buffer len =
     (if len \<noteq> 2 then Some (False, self)
      else do {
        flowControl \<leftarrow> getUint8 buffer;
        Some (True, self\<lparr>cc_isLastDataUnit := (flowControl AND 0x80 \<noteq> 0)\<rparr>) })"

definition addPayloadToBuffer :: "CotpConnection \<Rightarrow> ptr \<Rightarrow> int \<Rightarrow> (bool \<times> CotpConnection) option" where
  "addPayloadToBuffer self buffer payloadLength = (let pl = cc_payload self in
     if payloadLength < 1 then Some (False, self)
     else if bb_size pl + payloadLength > bb_maxSize pl then Some (False, self)
     else do {
       b \<leftarrow> memcpy (padd (bb_buffer pl) (bb_size pl)) buffer payloadLength;
       Some (True, self\<lparr>cc_payload := pl\<lparr>bb_buffer := (fst b, snd (bb_buffer pl)),
         bb_size := bb_size pl + payloadLength\<rparr>\<rparr>) })"

definition parseCotpMessage :: "CotpConnection \<Rightarrow> (CotpIndication \<times> CotpConnection) option" where
  "parseCotpMessage self = do {
     let buffer = padd (bb_buffer (cc_readBuffer self)) 4;
     let tpduLength = bb_size (cc_readBuffer self) - 4;
     len \<leftarrow> rd buffer 0;
     if uint len > tpduLength then Some (COTP_ERROR, self)
     else do {
       tpduType \<leftarrow> rd buffer 1;
       if tpduType = 0xe0 then do {
         (ok, self) \<leftarrow> parseConnectRequestTpdu self (padd buffer 2) len;
         Some (if ok then COTP_CONNECT_INDICATION else COTP_ERROR, self) }
       else if tpduType = 0xd0 then do {
         (ok, self) \<leftarrow> parseConnectConfirmTpdu self (padd buffer 2) len;
         Some (if ok then COTP_CONNECT_INDICATION else COTP_ERROR, self) }
       else if tpduType = 0xf0 then do {
         (ok, self) \<leftarrow> parseDataTpdu self (padd buffer 2) len;
         if ok then do {
           (added, self) \<leftarrow> addPayloadToBuffer self (padd buffer 3) (tpduLength - 3);
           Some (if \<not> added then COTP_ERROR
             else if cc_isLastDataUnit self then COTP_DATA_INDICATION else COTP_MORE_FRAGMENTS_FOLLOW, self) }
         else Some (COTP_ERROR, self) }
       else Some (COTP_ERROR, self) } }"

definition CotpConnection_parseIncomingMessage :: "CotpConnection \<Rightarrow> (CotpIndication \<times> CotpConnection) option" where
  "CotpConnection_parseIncomingMessage self = do {
     (indication, self) \<leftarrow> parseCotpMessage self;
     Some (indication, self\<lparr>cc_readBuffer := (cc_readBuffer self)\<lparr>bb_size := 0\<rparr>, cc_packetSize := 0\<rparr>) }"

definition readFromSocket ::
  "'w SocketApi \<Rightarrow> CotpConnection \<Rightarrow> ptr \<Rightarrow> int \<Rightarrow> 'w \<Rightarrow> (int \<times> ptr \<times> 'w) option" where
  "readFromSocket net self buf n w = (case cc_tlsSocket self of
       Some tls \<Rightarrow> TLSSocket_read net tls buf n w
     | None \<Rightarrow> (let (ready, w) = Handleset_waitReady net (cc_handleSet self) 10 w in
         if ready = -1 then Some (-1, buf, w)
         else if ready = 0 then Some (0, buf, w)
         else Socket_read net (cc_socket self) buf n w))"

definition CotpConnection_flushBuffer :: "'w SocketApi \<Rightarrow> CotpConnection \<Rightarrow> 'w \<Rightarrow> (CotpConnection \<times> 'w) option" where
  "CotpConnection_flushBuffer net self w =
     (if cc_socketExtensionBufferFill self > 0
      then do { (ok, self, w) \<leftarrow> flushBuffer net self w; Some (self, w) } else Some (self, w))"

text \<open>The labels \<open>exit_error\<close> (with \<open>exit_closed\<close>) and \<open>exit_waiting\<close>.\<close>

definition tpkt_exit_error :: "CotpConnection \<Rightarrow> 'w \<Rightarrow> (TpktState \<times> CotpConnection \<times> 'w) option" where
  "tpkt_exit_error self w = Some (TPKT_ERROR, self\<lparr>cc_readBuffer := (cc_readBuffer self)\<lparr>bb_size := 0\<rparr>\<rparr>, w)"

definition tpkt_exit_waiting :: "CotpConnection \<Rightarrow> int \<Rightarrow> 'w \<Rightarrow> (TpktState \<times> CotpConnection \<times> 'w) option" where
  "tpkt_exit_waiting self bufPos w =
     Some (TPKT_WAITING, self\<lparr>cc_readBuffer := (cc_readBuffer self)\<lparr>bb_size := bufPos\<rparr>\<rparr>, w)"

text \<open>\<open>readFromSocket(self, buffer + bufPos, n)\<close>, with the new contents of the read buffer.\<close>

definition tpkt_read :: "'w SocketApi \<Rightarrow> CotpConnection \<Rightarrow> int \<Rightarrow> int \<Rightarrow> 'w \<Rightarrow> (int \<times> CotpConnection \<times> 'w) option" where
  "tpkt_read net self bufPos n w = do {
     let rb = cc_readBuffer self;
     (readBytes, buf, w) \<leftarrow> readFromSocket net self (padd (bb_buffer rb) bufPos) n w;
     Some (readBytes, self\<lparr>cc_readBuffer := rb\<lparr>bb_buffer := (fst buf, snd (bb_buffer rb))\<rparr>\<rparr>, w) }"

text \<open>The second half of \<open>CotpConnection_readToTpktBuffer\<close>: the body of the packet.\<close>

definition tpkt_readBody ::
  "'w SocketApi \<Rightarrow> CotpConnection \<Rightarrow> int \<Rightarrow> 'w \<Rightarrow> (TpktState \<times> CotpConnection \<times> 'w) option" where
  "tpkt_readBody net self bufPos w =
     (if uint (cc_packetSize self) \<le> bufPos then tpkt_exit_error self w
      else do {
        (readBytes, self, w) \<leftarrow> tpkt_read net self bufPos (uint (cc_packetSize self) - bufPos) w;
        if readBytes < 0 then tpkt_exit_error self w
        else if bufPos + readBytes < uint (cc_packetSize self) then tpkt_exit_waiting self (bufPos + readBytes) w
        else Some (TPKT_PACKET_COMPLETE,
          self\<lparr>cc_readBuffer := (cc_readBuffer self)\<lparr>bb_size := bufPos + readBytes\<rparr>\<rparr>, w) })"

text \<open>The first half: a complete header is checked, an incomplete one read further.\<close>

definition tpkt_checkHeader ::
  "'w SocketApi \<Rightarrow> CotpConnection \<Rightarrow> 'w \<Rightarrow> (TpktState \<times> CotpConnection \<times> 'w) option" where
  "tpkt_checkHeader net self w = do {
     let buffer = bb_buffer (cc_readBuffer self);
     b0 \<leftarrow> rd buffer 0;
     b1 \<leftarrow> rd buffer 1;
     if b0 = 3 \<and> b1 = 0 then do {
       b2 \<leftarrow> rd buffer 2;
       b3 \<leftarrow> rd buffer 3;
       let self = self\<lparr>cc_packetSize := word_of_int (uint b2 * 0x100 + uint b3)\<rparr>;
       if uint (cc_packetSize self) > bb_maxSize (cc_readBuffer self) then tpkt_exit_error self w
       else tpkt_readBody net self 4 w }
     else tpkt_exit_error self w }"

definition tpkt_readHeader ::
  "'w SocketApi \<Rightarrow> CotpConnection \<Rightarrow> int \<Rightarrow> 'w \<Rightarrow> (TpktState \<times> CotpConnection \<times> 'w) option" where
  "tpkt_readHeader net self bufPos w = do {
     (readBytes, self, w) \<leftarrow> tpkt_read net self bufPos (4 - bufPos) w;
     if readBytes < 0 then tpkt_exit_error self w
     else if bufPos + readBytes = 4 then tpkt_checkHeader net self w
     else tpkt_exit_waiting self (bufPos + readBytes) w }"

definition CotpConnection_readToTpktBuffer ::
  "'w SocketApi \<Rightarrow> CotpConnection \<Rightarrow> 'w \<Rightarrow> (TpktState \<times> CotpConnection \<times> 'w) option" where
  "CotpConnection_readToTpktBuffer net self w = do {
     let bufPos = bb_size (cc_readBuffer self);
     let read = (\<lambda>self w. if bufPos < 4 then tpkt_readHeader net self bufPos w else tpkt_readBody net self bufPos w);
     if \<not> bb_maxSize (cc_readBuffer self) > 4 then None
     else if cc_socketExtensionBufferFill self > 0 then do {
       (flushed, self, w) \<leftarrow> flushBuffer net self w;
       if \<not> flushed then tpkt_exit_error self w
       else if cc_socketExtensionBufferFill self > 0 then tpkt_exit_waiting self bufPos w
       else read self w }
     else read self w }"

section \<open>The outside world\<close>

text \<open>
  A write returns -1 or the number of octets it accepted, the first ones of the
  buffer; a read returns a negative number or the number of octets it stored. \<open>wire\<close>
  are the octets the sockets have accepted so far, \<open>inbox\<close> those the peer sends and
  the connection has not read yet.
\<close>

definition write_ok ::
  "('w \<Rightarrow> byte list) \<Rightarrow> ('w \<Rightarrow> byte list) \<Rightarrow> (nat \<Rightarrow> ptr \<Rightarrow> int \<Rightarrow> 'w \<Rightarrow> (int \<times> 'w) option) \<Rightarrow> bool" where
  "write_ok wire inbox f \<longleftrightarrow> (\<forall>s p n w xs. 0 \<le> n \<longrightarrow> rdn p 0 (nat n) = Some xs \<longrightarrow>
     (\<exists>r w'. f s p n w = Some (r, w') \<and> inbox w' = inbox w \<and>
       (r = -1 \<or> 0 \<le> r \<and> r \<le> n \<and> wire w' = wire w @ take (nat r) xs)))"

definition read_ok ::
  "('w \<Rightarrow> byte list) \<Rightarrow> ('w \<Rightarrow> byte list) \<Rightarrow> (nat \<Rightarrow> ptr \<Rightarrow> int \<Rightarrow> 'w \<Rightarrow> (int \<times> ptr \<times> 'w) option) \<Rightarrow> bool" where
  "read_ok wire inbox f \<longleftrightarrow> (\<forall>s p n w. 0 < n \<longrightarrow> valid_range p 0 n \<longrightarrow>
     (\<exists>r p' w'. f s p n w = Some (r, p', w') \<and> wire w' = wire w \<and>
       (r < 0 \<and> p' = p \<or>
        0 \<le> r \<and> r \<le> n \<and> (\<exists>ys. length ys = nat r \<and> inbox w = ys @ inbox w' \<and> p' = store p 0 ys))))"

definition socket_ok :: "('w \<Rightarrow> byte list) \<Rightarrow> ('w \<Rightarrow> byte list) \<Rightarrow> 'w SocketApi \<Rightarrow> bool" where
  "socket_ok wire inbox net \<longleftrightarrow>
     write_ok wire inbox (Socket_write net) \<and> write_ok wire inbox (TLSSocket_write net) \<and>
     read_ok wire inbox (Socket_read net) \<and> read_ok wire inbox (TLSSocket_read net) \<and>
     (\<forall>h t w. wire (snd (Handleset_waitReady net h t w)) = wire w \<and>
        inbox (snd (Handleset_waitReady net h t w)) = inbox w)"

text \<open>A connection whose sockets never report an error on a write.\<close>

definition never_fails :: "'w SocketApi \<Rightarrow> bool" where
  "never_fails net \<longleftrightarrow> (\<forall>s p n w w'. Socket_write net s p n w \<noteq> Some (-1, w') \<and> TLSSocket_write net s p n w \<noteq> Some (-1, w'))"

text \<open>
  An instance for the examples: the world is the pair of the two octet strings, and no
  call moves more than \<open>k\<close> octets.
\<close>

definition chunk_write :: "nat \<Rightarrow> nat \<Rightarrow> ptr \<Rightarrow> int \<Rightarrow> byte list \<times> byte list \<Rightarrow> (int \<times> byte list \<times> byte list) option" where
  "chunk_write k s p n w = do {
     xs \<leftarrow> rdn p 0 (nat n);
     Some (int (min k (nat n)), fst w @ take k xs, snd w) }"

definition chunk_read :: "nat \<Rightarrow> nat \<Rightarrow> ptr \<Rightarrow> int \<Rightarrow> byte list \<times> byte list \<Rightarrow> (int \<times> ptr \<times> byte list \<times> byte list) option" where
  "chunk_read k s p n w = (let ys = take (min k (nat n)) (snd w) in
     Some (int (length ys), store p 0 ys, fst w, drop (min k (nat n)) (snd w)))"

definition chunk_net :: "nat \<Rightarrow> (byte list \<times> byte list) SocketApi" where
  "chunk_net k = \<lparr>Socket_write = chunk_write k, TLSSocket_write = chunk_write k,
     Socket_read = chunk_read k, TLSSocket_read = chunk_read k,
     Handleset_waitReady = (\<lambda>h t w. (1, w)), Handleset_new = (\<lambda>w. (0, w)),
     Handleset_addSocket = (\<lambda>h s w. w)\<rparr>"

lemma chunk_net_ok: "socket_ok fst snd (chunk_net k)"
proof -
  have "write_ok fst snd (chunk_write k)"
    by (auto simp: write_ok_def chunk_write_def min_def dest: length_rdn)
  moreover have "read_ok fst snd (chunk_read k)"
    by (auto simp: read_ok_def chunk_read_def Let_def
        intro!: exI [of _ "take (min k (nat _)) _"])
  ultimately show ?thesis by (simp add: socket_ok_def chunk_net_def)
qed

lemma chunk_net_never_fails: "never_fails (chunk_net k)"
  by (auto simp: never_fails_def chunk_net_def chunk_write_def bind_eq_Some_conv)

lemma writeToSocket_never_fails:
  "never_fails net \<Longrightarrow> writeToSocket net self p n w = Some (r, w') \<Longrightarrow> r \<noteq> -1"
  by (auto simp: never_fails_def writeToSocket_def split: option.splits)

lemma write_okD:
  "write_ok wire inbox f \<Longrightarrow> 0 \<le> n \<Longrightarrow> rdn p 0 (nat n) = Some xs \<Longrightarrow>
   \<exists>r w'. f s p n w = Some (r, w') \<and> inbox w' = inbox w \<and>
     (r = -1 \<or> 0 \<le> r \<and> r \<le> n \<and> wire w' = wire w @ take (nat r) xs)"
  unfolding write_ok_def by blast

lemma read_okD:
  "read_ok wire inbox f \<Longrightarrow> 0 < n \<Longrightarrow> valid_range p 0 n \<Longrightarrow>
   \<exists>r p' w'. f s p n w = Some (r, p', w') \<and> wire w' = wire w \<and>
     (r < 0 \<and> p' = p \<or>
      0 \<le> r \<and> r \<le> n \<and> (\<exists>ys. length ys = nat r \<and> inbox w = ys @ inbox w' \<and> p' = store p 0 ys))"
  unfolding read_ok_def by blast

lemma writeToSocket_ok:
  assumes "socket_ok wire inbox net" and "0 \<le> n" and "rdn p 0 (nat n) = Some xs"
  shows "\<exists>r w'. writeToSocket net self p n w = Some (r, w') \<and> inbox w' = inbox w \<and>
    (r = -1 \<or> 0 \<le> r \<and> r \<le> n \<and> wire w' = wire w @ take (nat r) xs)"
  using assms unfolding writeToSocket_def socket_ok_def by (cases "cc_tlsSocket self") (simp_all add: write_okD)

lemma readFromSocket_ok:
  assumes "socket_ok wire inbox net" and "0 < n" and "valid_range p 0 n"
  shows "\<exists>r p' w'. readFromSocket net self p n w = Some (r, p', w') \<and> wire w' = wire w \<and>
    (r < 0 \<and> p' = p \<or>
     0 \<le> r \<and> r \<le> n \<and> (\<exists>ys. length ys = nat r \<and> inbox w = ys @ inbox w' \<and> p' = store p 0 ys))"
proof (cases "cc_tlsSocket self")
  case (Some tls)
  then show ?thesis using assms unfolding readFromSocket_def socket_ok_def by (simp add: read_okD)
next
  case None
  obtain ready w1 where w1: "Handleset_waitReady net (cc_handleSet self) 10 w = (ready, w1)"
    "wire w1 = wire w" "inbox w1 = inbox w"
    using assms(1) unfolding socket_ok_def by (metis prod.collapse)
  have "\<exists>r p' w'. Socket_read net (cc_socket self) p n w1 = Some (r, p', w') \<and> wire w' = wire w1 \<and>
    (r < 0 \<and> p' = p \<or>
     0 \<le> r \<and> r \<le> n \<and> (\<exists>ys. length ys = nat r \<and> inbox w1 = ys @ inbox w' \<and> p' = store p 0 ys))"
    using assms unfolding socket_ok_def by (blast intro: read_okD)
  then show ?thesis using None w1 assms(2) unfolding readFromSocket_def
    by (auto split: if_splits)
qed

end
