(* ===== verification/Cotp_Send.thy ===== *)
theory Cotp_Send
  imports Cotp
begin

text \<open>
  The sending side of the transport layer: the negotiated TPDU size, the extension
  buffer as a queue in front of the socket, and the segmentation of a message.
  What reaches the wire is described by \<open>tpkt_stream\<close>, the packets for a list of
  octets as RFC 1006 and ISO 8073 prescribe them.
\<close>

section \<open>The negotiated TPDU size\<close>

lemma setTpduSize_loop_result:
  assumes "n \<le> 8192" and "0 \<le> k" and "k \<le> 13"
  shows "\<exists>m. setTpduSize_loop n k = Some m \<and> k \<le> m \<and> m \<le> 13 \<and> n \<le> 2 ^ nat m \<and>
    (k < m \<longrightarrow> 2 ^ nat (m - 1) < n)"
  using assms
proof (induction "nat (13 - k)" arbitrary: k)
  case 0
  then have "k = 13" by simp
  then show ?case using \<open>n \<le> 8192\<close> by (subst setTpduSize_loop.simps) (simp add: shl1_def)
next
  case (Suc d)
  then have k: "d = nat (13 - (k + 1))" "k + 1 \<le> 13" by arith+
  show ?case
  proof (cases "2 ^ nat k < n")
    case True
    have "setTpduSize_loop n k = setTpduSize_loop n (k + 1)"
      using True Suc.prems Suc.hyps(2) by (subst setTpduSize_loop.simps) (simp add: shl1_def)
    moreover obtain m where "setTpduSize_loop n (k + 1) = Some m" "k + 1 \<le> m" "m \<le> 13" "n \<le> 2 ^ nat m"
      "k + 1 < m \<longrightarrow> 2 ^ nat (m - 1) < n"
      using Suc.hyps(1) [of "k + 1"] k Suc.prems by auto
    ultimately show ?thesis using True by (auto simp: le_less)
  next
    case False
    then show ?thesis using Suc.prems by (subst setTpduSize_loop.simps) (simp add: shl1_def)
  qed
qed

lemma setTpduSize_result:
  "\<exists>e \<le> 13. CotpConnection_setTpduSize self n =
      Some (self\<lparr>cc_options := (cc_options self)\<lparr>tpduSize := of_nat e\<rparr>\<rparr>) \<and>
    (1 \<le> n \<longrightarrow> 2 ^ e \<le> min n 8192 \<and> min n 8192 < 2 * 2 ^ e) \<and> (n < 1 \<longrightarrow> e = 0)"
proof -
  define l where "l = min n 8192"
  obtain m where m: "setTpduSize_loop l 1 = Some m" "1 \<le> m" "m \<le> 13" "l \<le> 2 ^ nat m"
    "1 < m \<longrightarrow> 2 ^ nat (m - 1) < l"
    using setTpduSize_loop_result [of l 1] by (auto simp: l_def)
  define e where "e = (if 2 ^ nat m > l then m - 1 else m)"
  have pow: "(2::int) ^ nat m = 2 * 2 ^ nat (m - 1)"
    using m(2) by (metis add_diff_cancel_left' nat_diff_distrib power_Suc Suc_nat_eq_nat_zadd1
        add.commute diff_ge_0_iff_ge diff_add_cancel)
  have "2 ^ nat e \<le> l" "l < 2 * 2 ^ nat e" if "1 \<le> l"
    using that m pow by (auto simp: e_def le_less)
  moreover have "e = 0" if "l < 1"
  proof -
    have "(1::int) \<le> 2 ^ nat (m - 1)" by simp
    then have "\<not> 2 ^ nat (m - 1) < l" using that by linarith
    then have "m = 1" using m by auto
    then show ?thesis using that by (simp add: e_def)
  qed
  moreover have "CotpConnection_setTpduSize self n =
      Some (self\<lparr>cc_options := (cc_options self)\<lparr>tpduSize := of_nat (nat e)\<rparr>\<rparr>)"
    using m by (auto simp: CotpConnection_setTpduSize_def COTP_MAX_TPDU_SIZE_def shl1_def e_def l_def min_def Let_def)
  ultimately show ?thesis using m
    by (intro exI [of _ "nat e"]) (auto simp: l_def e_def)
qed

section \<open>The extension buffer\<close>

definition cotp_pending :: "CotpConnection \<Rightarrow> byte list" where
  "cotp_pending self = (case cc_socketExtensionBuffer self of
     None \<Rightarrow> [] | Some ext \<Rightarrow> octets_at ext (cc_socketExtensionBufferFill self))"

definition ext_ok :: "CotpConnection \<Rightarrow> bool" where
  "ext_ok self \<longleftrightarrow> (case cc_socketExtensionBuffer self of
     None \<Rightarrow> cc_socketExtensionBufferFill self = 0
   | Some ext \<Rightarrow> valid_range ext 0 (cc_socketExtensionBufferSize self) \<and>
       0 \<le> cc_socketExtensionBufferFill self \<and> cc_socketExtensionBufferFill self \<le> cc_socketExtensionBufferSize self)"

text \<open>Two connections that differ at most in the extension buffer and its fill level.\<close>

definition same_but_ext :: "CotpConnection \<Rightarrow> CotpConnection \<Rightarrow> bool" where
  "same_but_ext self self' \<longleftrightarrow> (\<exists>ext fill.
     self' = self\<lparr>cc_socketExtensionBuffer := ext, cc_socketExtensionBufferFill := fill\<rparr> \<and>
     (ext = None) = (cc_socketExtensionBuffer self = None))"

text \<open>The loop that moves the unsent octets to the front of the buffer they are in.\<close>

lemma ext_shift_down:
  assumes v: "valid_range ext 0 n" and k: "0 < k" "k \<le> n"
  shows "for_range k n (\<lambda>i (buf, target). do { x \<leftarrow> rd buf i; put x (buf, target) }) (ext, 0) =
    Some (store ext 0 (drop (nat k) (octets_at ext n)), n - k)"
proof -
  let ?g = "\<lambda>i. (store ext 0 (take (nat (i - k)) (drop (nat k) (octets_at ext n))), i - k)"
  have len: "length (octets_at ext n) = nat n"
    using v by (rule length_octets_at)
  have step: "rd (store ext 0 (take (nat (i - k)) (drop (nat k) (octets_at ext n)))) i = Some (octets_at ext n ! nat i) \<and>
      put (octets_at ext n ! nat i) (?g i) = Some (?g (i + 1))" if i: "k \<le> i" "i < n" for i
  proof
    let ?xs = "take (nat (i - k)) (drop (nat k) (octets_at ext n))"
    have l: "int (length ?xs) = i - k" using len i k by auto
    have val: "valid_range ext 0 (0 + int (length ?xs) + 1)" and val0: "valid_range ext 0 (0 + int (length ?xs))"
      using l i k v by (auto simp: valid_range_def)
    have "rd (store ext 0 ?xs) i = rd ext i"
      using l k by (intro rd_store_other [OF val0]) auto
    also have "\<dots> = Some (octets_at ext n ! nat i)"
      using i k v by (intro rd_octets_at) auto
    finally show "rd (store ext 0 ?xs) i = Some (octets_at ext n ! nat i)" .
    have n: "nat (i + 1 - k) = Suc (nat (i - k))" "nat k + nat (i - k) = nat i" using i k by arith+
    have "nat (i - k) < length (drop (nat k) (octets_at ext n))" using len i k by auto
    then have "take (nat (i + 1 - k)) (drop (nat k) (octets_at ext n)) = ?xs @ [octets_at ext n ! nat i]"
      using n by (simp add: take_Suc_conv_app_nth)
    moreover have "put x (store ext 0 ?xs, i - k) = Some (store ext 0 (?xs @ [x]), i - k + 1)" for x
      using put_after_store [OF val] l by simp
    ultimately show "put (octets_at ext n ! nat i) (?g i) = Some (?g (i + 1))"
      by (simp add: algebra_simps)
  qed
  have "for_range k n (\<lambda>i (buf, target). do { x \<leftarrow> rd buf i; put x (buf, target) }) (?g k) = Some (?g n)"
    using k(2) step by (intro for_range_det) auto
  then show ?thesis using len k by simp
qed

lemma same_but_ext_refl: "same_but_ext self self"
  unfolding same_but_ext_def
  by (intro exI [of _ "cc_socketExtensionBuffer self"] exI [of _ "cc_socketExtensionBufferFill self"]) simp

lemma same_but_ext_updI:
  "(ext = None) = (cc_socketExtensionBuffer self = None) \<Longrightarrow>
     same_but_ext self (self\<lparr>cc_socketExtensionBuffer := ext, cc_socketExtensionBufferFill := n\<rparr>)"
  unfolding same_but_ext_def by (intro exI [of _ ext] exI [of _ n]) simp

lemma same_but_ext_fillI: "same_but_ext self (self\<lparr>cc_socketExtensionBufferFill := n\<rparr>)"
  using same_but_ext_updI [of "cc_socketExtensionBuffer self" self n] by simp

lemma same_but_ext_trans: "same_but_ext a b \<Longrightarrow> same_but_ext b c \<Longrightarrow> same_but_ext a c"
  by (auto simp: same_but_ext_def [of a b] same_but_ext_def [of b c] intro!: same_but_ext_updI)

lemma same_but_ext_fields:
  assumes "same_but_ext self self'"
  shows "cc_writeBuffer self' = cc_writeBuffer self" and "cc_options self' = cc_options self"
    and "cc_payload self' = cc_payload self" and "cc_readBuffer self' = cc_readBuffer self"
    and "cc_packetSize self' = cc_packetSize self" and "cc_isLastDataUnit self' = cc_isLastDataUnit self"
    and "cc_socketExtensionBufferSize self' = cc_socketExtensionBufferSize self"
    and "(cc_socketExtensionBuffer self' = None) = (cc_socketExtensionBuffer self = None)"
  using assms by (auto simp: same_but_ext_def)

lemma pending_after_shift:
  assumes "valid_range ext 0 n" and "0 \<le> k" and "k \<le> n"
  shows "octets_at (store ext 0 (drop (nat k) (octets_at ext n))) (n - k) = drop (nat k) (octets_at ext n)"
    and "valid_range (store ext 0 (drop (nat k) (octets_at ext n))) lo hi = valid_range ext lo hi"
proof -
  have "int (length (drop (nat k) (octets_at ext n))) = n - k"
    using assms by (simp add: length_octets_at)
  moreover have "valid_range ext 0 (n - k)"
    using assms(1) by (rule valid_range_mono) (use assms in auto)
  ultimately show "octets_at (store ext 0 (drop (nat k) (octets_at ext n))) (n - k) = drop (nat k) (octets_at ext n)"
    and "valid_range (store ext 0 (drop (nat k) (octets_at ext n))) lo hi = valid_range ext lo hi"
    by (simp_all add: octets_at_store valid_range_store)
qed

text \<open>
  \<open>flushBuffer\<close> moves octets from the front of the queue to the wire and keeps their order.
\<close>

lemma flushBuffer_stream:
  assumes net: "socket_ok wire inbox net" and ok: "ext_ok self"
  obtains flushed self' w' where "flushBuffer net self w = Some (flushed, self', w')"
    and "ext_ok self'" and "same_but_ext self self'" and "inbox w' = inbox w"
    and "cc_socketExtensionBufferFill self' \<le> cc_socketExtensionBufferFill self"
    and "flushed \<Longrightarrow> wire w' @ cotp_pending self' = wire w @ cotp_pending self"
    and "never_fails net \<Longrightarrow> flushed"
proof (cases "cc_socketExtensionBufferFill self > 0")
  case False
  then have "flushBuffer net self w = Some (True, self, w)" by (simp add: flushBuffer_def)
  then show ?thesis using that ok same_but_ext_refl by blast
next
  case True
  let ?n = "cc_socketExtensionBufferFill self"
  obtain ext where ext: "cc_socketExtensionBuffer self = Some ext" "?n \<le> cc_socketExtensionBufferSize self"
      "valid_range ext 0 (cc_socketExtensionBufferSize self)"
    using ok True by (auto simp: ext_ok_def split: option.splits)
  then have v: "valid_range ext 0 ?n" by (auto elim: valid_range_mono)
  obtain r w' where w: "writeToSocket net self ext ?n w = Some (r, w')" "inbox w' = inbox w"
      "r = -1 \<or> 0 \<le> r \<and> r \<le> ?n \<and> wire w' = wire w @ take (nat r) (octets_at ext ?n)"
    using writeToSocket_ok [OF net _ rdn_octets_at [OF v]] True by (metis less_imp_le)
  consider "r = -1" | "r = 0" | "r = ?n" "0 < r" | "0 < r" "r < ?n"
    using w(3) by force
  then show ?thesis
  proof cases
    case 1
    then have "flushBuffer net self w = Some (False, self, w')"
      using True ext w by (simp add: flushBuffer_def)
    then show ?thesis
      using that [of False self w'] ok w 1 same_but_ext_refl writeToSocket_never_fails [OF _ w(1)] by auto
  next
    case 2
    then have "flushBuffer net self w = Some (True, self, w')"
      using True ext w by (simp add: flushBuffer_def)
    then show ?thesis using that [of True self w'] ok w 2 same_but_ext_refl by simp
  next
    case 3
    then have "flushBuffer net self w = Some (True, self\<lparr>cc_socketExtensionBufferFill := 0\<rparr>, w')"
      using True ext w by (simp add: flushBuffer_def)
    then show ?thesis
      using that [of True "self\<lparr>cc_socketExtensionBufferFill := 0\<rparr>" w'] ok w 3 ext v
      by (auto simp: ext_ok_def cotp_pending_def octets_at_def intro: same_but_ext_fillI)
  next
    case 4
    let ?ext' = "store ext 0 (drop (nat r) (octets_at ext ?n))"
    let ?self' = "self\<lparr>cc_socketExtensionBuffer := Some ?ext', cc_socketExtensionBufferFill := ?n - r\<rparr>"
    have "flushBuffer net self w = Some (True, ?self', w')"
      using True ext v w 4 by (simp add: flushBuffer_def ext_shift_down Let_def)
    moreover have "cotp_pending ?self' = drop (nat r) (octets_at ext ?n)"
      using 4 ext v by (simp add: cotp_pending_def pending_after_shift)
    moreover have "ext_ok ?self'"
      using 4 ext v by (simp add: ext_ok_def pending_after_shift)
    moreover have "same_but_ext self ?self'"
      using ext by (intro same_but_ext_updI) simp
    ultimately show ?thesis
      using that [of True ?self' w'] w 4 ext by (simp add: cotp_pending_def)
  qed
qed

lemma append_octets:
  assumes ys: "rdn buffer sent (length ys) = Some ys" and v: "valid_range ext pos (pos + int (length ys))"
  shows "for_range 0 (int (length ys)) (\<lambda>i ext. do { x \<leftarrow> rd buffer (sent + i); wr ext (i + pos) x }) ext =
    Some (store ext pos ys)"
proof -
  have step: "do { x \<leftarrow> rd buffer (sent + i); wr (store ext pos (take (nat i) ys)) (i + pos) x } =
      Some (store ext pos (take (nat (i + 1)) ys))" if i: "0 \<le> i" "i < int (length ys)" for i
  proof -
    have "rd buffer (sent + i) = Some (ys ! nat i)"
      using rdn_nth [OF ys, of "nat i"] i by simp
    moreover have "take (nat (i + 1)) ys = take (nat i) ys @ [ys ! nat i]"
      using i by (simp add: take_Suc_conv_app_nth nat_add_distrib)
    moreover have "put (ys ! nat i) (store ext pos (take (nat i) ys), i + pos) =
        Some (store ext pos (take (nat i) ys @ [ys ! nat i]), i + pos + 1)"
      using v i by (intro put_after_store) (auto simp: valid_range_def)
    ultimately show ?thesis by (auto simp: put_def bind_eq_Some_conv)
  qed
  have "for_range 0 (int (length ys)) (\<lambda>i ext. do { x \<leftarrow> rd buffer (sent + i); wr ext (i + pos) x })
      (store ext pos (take (nat 0) ys)) = Some (store ext pos (take (nat (int (length ys))) ys))"
    using step by (intro for_range_det [where g = "\<lambda>i. store ext pos (take (nat i) ys)"]) auto
  then show ?thesis by simp
qed

lemma ext_writeBuffer [simp]:
  "ext_ok (self\<lparr>cc_writeBuffer := b\<rparr>) = ext_ok self"
  "cotp_pending (self\<lparr>cc_writeBuffer := b\<rparr>) = cotp_pending self"
  by (simp_all add: ext_ok_def cotp_pending_def split: option.split)

lemma same_but_ext_writeBuffer:
  assumes "same_but_ext self self'"
  shows "same_but_ext (self\<lparr>cc_writeBuffer := b\<rparr>) (self'\<lparr>cc_writeBuffer := b\<rparr>)"
proof -
  from assms obtain ext n where
      "self' = self\<lparr>cc_socketExtensionBuffer := ext, cc_socketExtensionBufferFill := n\<rparr>"
      "(ext = None) = (cc_socketExtensionBuffer self = None)"
    unfolding same_but_ext_def by (elim exE conjE) (rule that)
  then show ?thesis unfolding same_but_ext_def by (intro exI [of _ ext] exI [of _ n]) simp
qed

text \<open>Writing to the socket if nothing waits, and otherwise not at all, keeps the order.\<close>

lemma send_or_queue:
  assumes net: "socket_ok wire inbox net" and ok: "ext_ok self" and xs: "rdn p 0 (nat n) = Some xs" and n: "0 \<le> n"
  shows "\<exists>r w'. (if cc_socketExtensionBufferFill self = 0 then writeToSocket net self p n w else Some (0, w)) = Some (r, w') \<and>
    inbox w' = inbox w \<and>
    (r = -1 \<or> 0 \<le> r \<and> r \<le> n \<and> wire w' @ cotp_pending self @ drop (nat r) xs = wire w @ cotp_pending self @ xs)"
proof (cases "cc_socketExtensionBufferFill self = 0")
  case True
  then have "cotp_pending self = []"
    by (simp add: cotp_pending_def octets_at_def split: option.splits)
  then show ?thesis using True writeToSocket_ok [OF net n xs, of self w] by fastforce
next
  case False
  then show ?thesis using n by simp
qed

lemma queue_rest:
  assumes ok: "ext_ok self" and ext: "cc_socketExtensionBuffer self = Some ext"
    and ys: "rdn buffer r (length ys) = Some ys" and n: "n = int (length ys)"
    and room: "cc_socketExtensionBufferFill self + n \<le> cc_socketExtensionBufferSize self"
  shows "for_range 0 n (\<lambda>i ext. do { x \<leftarrow> rd buffer (r + i); wr ext (i + cc_socketExtensionBufferFill self) x }) ext =
      Some (store ext (cc_socketExtensionBufferFill self) ys)" (is ?copy)
    and "ext_ok (self\<lparr>cc_socketExtensionBuffer := Some (store ext (cc_socketExtensionBufferFill self) ys),
      cc_socketExtensionBufferFill := cc_socketExtensionBufferFill self + n, cc_writeBuffer := b\<rparr>)" (is ?ok)
    and "cotp_pending (self\<lparr>cc_socketExtensionBuffer := Some (store ext (cc_socketExtensionBufferFill self) ys),
      cc_socketExtensionBufferFill := cc_socketExtensionBufferFill self + n, cc_writeBuffer := b\<rparr>) =
      cotp_pending self @ ys" (is ?pending)
proof -
  let ?k = "cc_socketExtensionBufferFill self"
  have k: "0 \<le> ?k" "valid_range ext 0 (cc_socketExtensionBufferSize self)"
    using ok ext by (simp_all add: ext_ok_def)
  then have v: "valid_range ext ?k (?k + int (length ys))" "valid_range ext 0 (?k + int (length ys))"
    using room n by (auto elim: valid_range_mono)
  show ?copy using append_octets [OF ys v(1)] n by simp
  show ?ok using k room n v(1) by (simp add: ext_ok_def valid_range_store)
  show ?pending using ext n v(2) k by (simp add: cotp_pending_def octets_at_append)
qed

text \<open>
  \<open>sendBuffer\<close> puts the packet behind the octets that still wait, on the wire as far as
  the socket accepts them and in the extension buffer otherwise.
\<close>

lemma sendBuffer_stream:
  assumes api: "bytebuffer_ok api" and net: "socket_ok wire inbox net" and ok: "ext_ok self"
    and wb: "cc_writeBuffer self = Some wb" "valid_range (bb_buffer wb) 0 (bb_size wb)" "0 \<le> bb_size wb"
    and room: "cc_socketExtensionBuffer self \<noteq> None \<Longrightarrow>
      cc_socketExtensionBufferFill self + bb_size wb \<le> cc_socketExtensionBufferSize self"
  obtains sent self' w' where "sendBuffer api net self w = Some (sent, self', w')"
    and "ext_ok self'" and "same_but_ext (self\<lparr>cc_writeBuffer := cc_writeBuffer self'\<rparr>) self'"
    and "cc_writeBuffer self' = Some (if sent then wb\<lparr>bb_size := 0\<rparr> else wb)" and "inbox w' = inbox w"
    and "cc_socketExtensionBufferFill self' \<le> cc_socketExtensionBufferFill self + bb_size wb"
    and "sent \<Longrightarrow> wire w' @ cotp_pending self' = wire w @ cotp_pending self @ bb_bytes wb"
    and "never_fails net \<Longrightarrow> cc_socketExtensionBuffer self \<noteq> None \<Longrightarrow> sent"
proof -
  let ?xs = "bb_bytes wb" and ?n = "bb_size wb"
  have xs: "rdn (bb_buffer wb) 0 (nat ?n) = Some ?xs"
    using wb rdn_octets_at unfolding bb_bytes_def by blast
  have len: "int (length ?xs) = ?n"
    using length_rdn [OF xs] wb(3) by simp
  obtain flushed s1 w1 where f: "flushBuffer net self w = Some (flushed, s1, w1)" "ext_ok s1" "same_but_ext self s1"
      "inbox w1 = inbox w" "cc_socketExtensionBufferFill s1 \<le> cc_socketExtensionBufferFill self"
      "flushed \<Longrightarrow> wire w1 @ cotp_pending s1 = wire w @ cotp_pending self" "never_fails net \<Longrightarrow> flushed"
    using flushBuffer_stream [OF net ok] by metis
  have eq: "self\<lparr>cc_writeBuffer := Some wb\<rparr> = self"
    using wb(1) by (cases self) simp
  have s1: "cc_writeBuffer s1 = Some wb"
    using f(3) wb(1) by (simp add: same_but_ext_fields)
  then have s1': "same_but_ext (self\<lparr>cc_writeBuffer := cc_writeBuffer s1\<rparr>) s1"
    by (simp only: eq f(3))
  show thesis
  proof (cases flushed)
    case False
    then have "sendBuffer api net self w = Some (False, s1, w1)"
      using f(1) wb(1) by (simp add: sendBuffer_def)
    moreover have "\<not> never_fails net" using False f(7) by blast
    ultimately show thesis using that [of False s1 w1] f(2-5) s1 s1' wb(3) by simp
  next
    case True
    obtain r w2 where r: "(if cc_socketExtensionBufferFill s1 = 0 then writeToSocket net s1 (bb_buffer wb) ?n w1
          else Some (0, w1)) = Some (r, w2)" "inbox w2 = inbox w1"
        "r = -1 \<or> 0 \<le> r \<and> r \<le> ?n \<and> wire w2 @ cotp_pending s1 @ drop (nat r) ?xs = wire w1 @ cotp_pending s1 @ ?xs"
      using send_or_queue [OF net f(2) xs wb(3)] by metis
    have stream: "wire w2 @ cotp_pending s1 @ drop (nat r) ?xs = wire w @ cotp_pending self @ ?xs" if "r \<noteq> -1"
      using r(3) that f(6) [OF True] by (metis append.assoc)
    note run = sendBuffer_def bytebuffer_simps [OF api] f(1) wb(1) True r(1)
    have fill: "cc_socketExtensionBuffer s1 \<noteq> None \<Longrightarrow>
        cc_socketExtensionBufferFill s1 + ?n \<le> cc_socketExtensionBufferSize s1"
      using room f(3,5) by (auto simp: same_but_ext_fields)
    consider "r = -1" | "r = ?n" | "0 \<le> r" "r < ?n" "cc_socketExtensionBuffer s1 = None"
      | ext where "0 \<le> r" "r < ?n" "cc_socketExtensionBuffer s1 = Some ext"
      using r(3) by force
    then show thesis
    proof cases
      case 1
      then have "\<not> never_fails net"
        using r(1) by (auto split: if_splits dest: writeToSocket_never_fails)
      then show thesis using that [of False s1 w2] f s1 s1' wb(3) r 1 by (simp add: run)
    next
      case 2
      let ?s2 = "s1\<lparr>cc_writeBuffer := Some (wb\<lparr>bb_size := 0\<rparr>)\<rparr>"
      have "sendBuffer api net self w = Some (True, ?s2, w2)"
        using 2 wb(3) by (simp add: run)
      moreover have "wire w2 @ cotp_pending ?s2 = wire w @ cotp_pending self @ ?xs"
        using stream 2 wb(3) len by simp
      moreover have "same_but_ext (self\<lparr>cc_writeBuffer := cc_writeBuffer ?s2\<rparr>) ?s2"
        using same_but_ext_writeBuffer [OF f(3)] by simp
      ultimately show thesis using that [of True ?s2 w2] f(2,4,5) wb(3) r(2) by simp
    next
      case 3
      then have "cc_socketExtensionBuffer self = None" using same_but_ext_fields(8) [OF f(3)] by simp
      then show thesis using that [of False s1 w2] f s1 s1' wb(3) r 3 by (simp add: run)
    next
      case 4
      have ys: "rdn (bb_buffer wb) r (length (drop (nat r) ?xs)) = Some (drop (nat r) ?xs)"
        using rdn_drop [OF xs, of "nat r"] 4 length_rdn [OF xs] by simp
      have n: "?n - r = int (length (drop (nat r) ?xs))" using 4 len by simp
      let ?s2 = "s1\<lparr>cc_socketExtensionBuffer := Some (store ext (cc_socketExtensionBufferFill s1) (drop (nat r) ?xs)),
        cc_socketExtensionBufferFill := cc_socketExtensionBufferFill s1 + (?n - r),
        cc_writeBuffer := Some (wb\<lparr>bb_size := 0\<rparr>)\<rparr>"
      note q = queue_rest [OF f(2) 4(3) ys n]
      have "sendBuffer api net self w = Some (True, ?s2, w2)"
        using 4 fill q(1) by (simp add: run Let_def)
      moreover have "same_but_ext (self\<lparr>cc_writeBuffer := cc_writeBuffer ?s2\<rparr>) ?s2"
        using same_but_ext_trans [OF f(3) same_but_ext_updI] 4(3) s1
          same_but_ext_writeBuffer [of self _ "Some (wb\<lparr>bb_size := 0\<rparr>)"] by (simp add: same_but_ext_fields)
      moreover have "wire w2 @ cotp_pending ?s2 = wire w @ cotp_pending self @ ?xs"
        using stream q(3) fill 4 by simp
      ultimately show thesis
        using that [of True ?s2 w2] f(4,5) r(2) 4 fill q(2) by simp
    qed
  qed
qed

section \<open>Segmentation\<close>

text \<open>The octets of a chain from an index of its first part on.\<close>

definition chain_rest :: "BufferChain \<Rightarrow> int \<Rightarrow> byte list" where
  "chain_rest c idx = drop (nat idx) (octets_at (bc_buffer c) (bc_partLength c)) @
     (case bc_nextPart c of None \<Rightarrow> [] | Some d \<Rightarrow> chain_bytes d)"

definition chain_at :: "BufferChain \<Rightarrow> int \<Rightarrow> bool" where
  "chain_at c idx \<longleftrightarrow> chain_wf c \<and> 0 \<le> idx \<and> idx \<le> bc_partLength c"

lemma chain_rest_0: "chain_rest c 0 = chain_bytes c"
  by (cases c) (simp add: chain_rest_def)

lemma chain_part:
  assumes "chain_wf c"
  shows "valid_range (bc_buffer c) 0 (bc_partLength c)" and "0 \<le> bc_partLength c"
    and "bc_nextPart c = Some d \<Longrightarrow> chain_wf d \<and> 0 < bc_partLength d"
  using assms by (cases c; auto)+

lemma chain_rest_Cons:
  assumes "chain_wf c" and "0 \<le> idx" and "idx < bc_partLength c"
  shows "\<exists>x. rd (bc_buffer c) idx = Some x \<and> chain_rest c idx = x # chain_rest c (idx + 1)"
proof -
  let ?xs = "octets_at (bc_buffer c) (bc_partLength c)"
  have "rd (bc_buffer c) idx = Some (?xs ! nat idx)"
    using assms chain_part by (intro rd_octets_at) auto
  moreover have "drop (nat idx) ?xs = ?xs ! nat idx # drop (nat (idx + 1)) ?xs"
    using assms chain_part(1) [OF assms(1)]
    by (simp add: length_octets_at nat_add_distrib Cons_nth_drop_Suc)
  ultimately show ?thesis by (simp add: chain_rest_def)
qed

lemma sendData_copy_step:
  assumes "chain_at c idx" and "chain_rest c idx = x # ys"
  shows "\<exists>c' idx'. chain_at c' idx' \<and> chain_rest c' idx' = ys \<and>
    (\<forall>i s pos. sendData_copy i (c, idx, s, pos) = do { s \<leftarrow> put x s; Some (c', idx', s, pos + 1) })"
proof (cases "idx < bc_partLength c")
  case True
  then have "\<exists>x. rd (bc_buffer c) idx = Some x \<and> chain_rest c idx = x # chain_rest c (idx + 1)"
    using assms(1) by (intro chain_rest_Cons) (auto simp: chain_at_def)
  then show ?thesis using True assms
    by (intro exI [of _ c] exI [of _ "idx + 1"]) (auto simp: chain_at_def sendData_copy_def)
next
  case False
  then have "drop (nat idx) (octets_at (bc_buffer c) (bc_partLength c)) = []"
    using assms(1) chain_part(1) [of c] by (simp add: chain_at_def length_octets_at)
  then obtain d where d: "bc_nextPart c = Some d" "chain_bytes d = x # ys"
    using assms(2) by (auto simp: chain_rest_def split: option.splits)
  have wf: "chain_wf d" "0 < bc_partLength d"
    using chain_part(3) [OF _ d(1)] assms(1) by (auto simp: chain_at_def)
  then have "\<exists>x. rd (bc_buffer d) 0 = Some x \<and> chain_rest d 0 = x # chain_rest d (0 + 1)"
    by (intro chain_rest_Cons) auto
  then show ?thesis using False d wf
    by (intro exI [of _ d] exI [of _ 1]) (auto simp: chain_at_def sendData_copy_def chain_rest_0)
qed

lemma sendData_copy_loop:
  assumes "chain_at c idx" and "chain_rest c idx = zs @ ys"
  shows "\<exists>c' idx'. chain_at c' idx' \<and> chain_rest c' idx' = ys \<and>
    (\<forall>i s pos. for_range i (i + int (length zs)) sendData_copy (c, idx, s, pos) =
      do { s \<leftarrow> emit zs s; Some (c', idx', s, pos + int (length zs)) })"
  using assms
proof (induction zs arbitrary: c idx)
  case Nil
  then show ?case by auto
next
  case (Cons x zs)
  obtain c1 idx1 where s1: "chain_at c1 idx1" "chain_rest c1 idx1 = zs @ ys"
      "\<And>i s pos. sendData_copy i (c, idx, s, pos) = do { s \<leftarrow> put x s; Some (c1, idx1, s, pos + 1) }"
    using sendData_copy_step [of c idx x "zs @ ys"] Cons.prems by auto
  obtain c2 idx2 where s2: "chain_at c2 idx2" "chain_rest c2 idx2 = ys"
      "\<And>i s pos. for_range i (i + int (length zs)) sendData_copy (c1, idx1, s, pos) =
        do { s \<leftarrow> emit zs s; Some (c2, idx2, s, pos + int (length zs)) }"
    using Cons.IH [OF s1(1,2)] by blast
  have "for_range i (i + int (length (x # zs))) sendData_copy (c, idx, s, pos) =
      do { s \<leftarrow> emit (x # zs) s; Some (c2, idx2, s, pos + int (length (x # zs))) }" for i s pos
    using s2(3) [of "i + 1"] by (simp add: for_range_step s1(3) bind_assoc add.assoc)
  then show ?case using s2(1,2) by blast
qed

text \<open>One packet, and the packets of a message.\<close>

definition tpkt_data :: "bool \<Rightarrow> byte list \<Rightarrow> byte list" where
  "tpkt_data final xs = (let n = 7 + int (length xs) in
     [0x03, 0x00, word_of_int (n div 0x100), word_of_int n, 0x02, 0xf0, if final then 0x80 else 0x00] @ xs)"

fun tpkt_stream :: "nat \<Rightarrow> byte list \<Rightarrow> byte list" where
  "tpkt_stream m xs =
     (if m = 0 \<or> length xs \<le> m then tpkt_data True xs
      else tpkt_data False (take m xs) @ tpkt_stream m (drop m xs))"

declare tpkt_stream.simps [simp del]

lemma length_tpkt_data [outlen]: "length (tpkt_data final xs) = 7 + length xs"
  by (simp add: tpkt_data_def Let_def)

definition wb_ok :: "int \<Rightarrow> CotpConnection \<Rightarrow> bool" where
  "wb_ok n self \<longleftrightarrow> (case cc_writeBuffer self of None \<Rightarrow> False
     | Some wb \<Rightarrow> n \<le> bb_maxSize wb \<and> valid_range (bb_buffer wb) 0 (bb_maxSize wb))"

lemma word_and_255: "(word_of_int (n AND 0xff) :: byte) = word_of_int n"
proof -
  have "(word_of_int 0xff :: byte) = - 1" by simp
  then show ?thesis unfolding of_int_and_eq by (simp only: and.right_neutral)
qed

lemma sdiv_256: "0 \<le> (n :: int) \<Longrightarrow> n sdiv 0x100 = n div 0x100"
  by (simp add: sdiv_nonneg)

lemma tpkt_headers:
  assumes "cc_writeBuffer self = Some wb" and "valid_range (bb_buffer wb) 0 7" and "0 \<le> len"
  shows "do { self \<leftarrow> writeRfc1006Header self len; writeDataTpduHeader self final } =
    Some (self\<lparr>cc_writeBuffer := Some (wb\<lparr>bb_buffer := store (bb_buffer wb) 0
      [0x03, 0x00, word_of_int (len div 0x100), word_of_int len, 0x02, 0xf0, if final then 0x80 else 0x00],
      bb_size := 7\<rparr>)\<rparr>)"
proof -
  let ?xs = "[0x03, 0x00, word_of_int (len div 0x100), word_of_int len, 0x02, 0xf0, if final then 0x80 else (0x00 :: byte)]"
  have sel: "(if final then wr b 6 0x80 else wr b 6 0x00) = wr b 6 (if final then 0x80 else 0x00)" for b
    by simp
  have "emit ?xs (bb_buffer wb, 0) = Some (store (bb_buffer wb) 0 ?xs, 0 + int (length ?xs))"
    using assms(2) by (intro emit_valid) simp
  then show ?thesis using assms
    by (simp add: writeRfc1006Header_def writeDataTpduHeader_def sel word_and_255 sdiv_256 bind_assoc
        wr_emit emit_fuse_at del: emit.simps)
qed

lemma tpkt_headers':
  assumes "cc_writeBuffer self = Some wb" and "valid_range (bb_buffer wb) 0 7" and "0 \<le> len"
  shows "do { self \<leftarrow> writeRfc1006Header self len; self \<leftarrow> writeDataTpduHeader self final; f self } =
    f (self\<lparr>cc_writeBuffer := Some (wb\<lparr>bb_buffer := store (bb_buffer wb) 0
      [0x03, 0x00, word_of_int (len div 0x100), word_of_int len, 0x02, 0xf0, if final then 0x80 else 0x00],
      bb_size := 7\<rparr>)\<rparr>)"
  using arg_cong [OF tpkt_headers [OF assms], of "\<lambda>x. Option.bind x f"] by (simp add: bind_assoc)

lemma wb_okD: "wb_ok n self \<Longrightarrow> \<exists>wb. cc_writeBuffer self = Some wb \<and> n \<le> bb_maxSize wb \<and> valid_range (bb_buffer wb) 0 (bb_maxSize wb)"
  by (simp add: wb_ok_def split: option.splits)

text \<open>One round of the loop: a packet with the next octets of the chain is sent.\<close>

definition fragment_sent ::
  "('w \<Rightarrow> byte list) \<Rightarrow> ('w \<Rightarrow> byte list) \<Rightarrow> 'w SocketApi \<Rightarrow> int \<Rightarrow> byte list \<Rightarrow>
   CotpConnection \<Rightarrow> 'w \<Rightarrow> bool \<Rightarrow> CotpConnection \<Rightarrow> 'w \<Rightarrow> bool" where
  "fragment_sent wire inbox net n out self w sent self' w' \<longleftrightarrow>
     ext_ok self' \<and> wb_ok n self' \<and> same_but_ext (self\<lparr>cc_writeBuffer := cc_writeBuffer self'\<rparr>) self' \<and>
     inbox w' = inbox w \<and>
     cc_socketExtensionBufferFill self' \<le> cc_socketExtensionBufferFill self + int (length out) \<and>
     (sent \<longrightarrow> wire w' @ cotp_pending self' = wire w @ cotp_pending self @ out) \<and>
     (never_fails net \<longrightarrow> cc_socketExtensionBuffer self \<noteq> None \<longrightarrow> sent)"

lemma sendData_fragment_stream:
  assumes api: "bytebuffer_ok api" and net: "socket_ok wire inbox net" and ok: "ext_ok self"
    and wb: "wb_ok n self" "7 + int (length zs) \<le> n"
    and c: "chain_at c idx" "chain_rest c idx = zs @ ys"
    and room: "cc_socketExtensionBuffer self \<noteq> None \<Longrightarrow>
      cc_socketExtensionBufferFill self + 7 + int (length zs) \<le> cc_socketExtensionBufferSize self"
    and limit: "limit = pos + int (length zs)"
  shows "\<exists>sent c' idx' self' w'. chain_at c' idx' \<and> chain_rest c' idx' = ys \<and>
      fragment_sent wire inbox net n (tpkt_data final zs) self w sent self' w' \<and>
      sendData_fragment api net limit final c idx pos self w = Some (sent, c', idx', limit, self', w')"
proof -
  obtain b where b: "cc_writeBuffer self = Some b" "n \<le> bb_maxSize b" "valid_range (bb_buffer b) 0 (bb_maxSize b)"
    using wb_okD [OF wb(1)] by blast
  have v: "valid_range (bb_buffer b) 0 (7 + int (length zs))" "valid_range (bb_buffer b) 0 7"
    using b wb(2) by (auto elim: valid_range_mono)
  let ?len = "7 + (limit - pos)"
  let ?hdr = "[0x03, 0x00, word_of_int (?len div 0x100), word_of_int ?len, 0x02, 0xf0, if final then 0x80 else (0x00 :: byte)]"
  let ?p = "tpkt_data final zs"
  have p: "?hdr @ zs = ?p" using limit by (simp add: tpkt_data_def Let_def)
  obtain c' idx' where c': "chain_at c' idx'" "chain_rest c' idx' = ys"
      "\<And>i s pos. for_range i (i + int (length zs)) sendData_copy (c, idx, s, pos) =
        do { s \<leftarrow> emit zs s; Some (c', idx', s, pos + int (length zs)) }"
    using sendData_copy_loop [OF c] by blast
  have e: "emit zs (store (bb_buffer b) 0 ?hdr, 7) = Some (store (bb_buffer b) 0 ?p, 7 + int (length zs))"
    using emit_after_store [of "bb_buffer b" 0 ?hdr zs 7] v(1) p by simp
  let ?wb = "b\<lparr>bb_buffer := store (bb_buffer b) 0 ?p, bb_size := 7 + int (length zs)\<rparr>"
  let ?s1 = "self\<lparr>cc_writeBuffer := Some ?wb\<rparr>"
  have v': "valid_range (store (bb_buffer b) 0 ?p) lo hi = valid_range (bb_buffer b) lo hi" for lo hi
    using v(1) by (intro valid_range_store) (simp add: outlen)
  obtain sent self' w' where s: "sendBuffer api net ?s1 w = Some (sent, self', w')"
      "ext_ok self'" "same_but_ext (?s1\<lparr>cc_writeBuffer := cc_writeBuffer self'\<rparr>) self'"
      "cc_writeBuffer self' = Some (if sent then ?wb\<lparr>bb_size := 0\<rparr> else ?wb)" "inbox w' = inbox w"
      "cc_socketExtensionBufferFill self' \<le> cc_socketExtensionBufferFill ?s1 + bb_size ?wb"
      "sent \<Longrightarrow> wire w' @ cotp_pending self' = wire w @ cotp_pending ?s1 @ bb_bytes ?wb"
      "never_fails net \<Longrightarrow> cc_socketExtensionBuffer ?s1 \<noteq> None \<Longrightarrow> sent"
  proof (rule sendBuffer_stream [OF api net, of ?s1 ?wb w])
    show "valid_range (bb_buffer ?wb) 0 (bb_size ?wb)" using v v' by simp
    show "cc_socketExtensionBufferFill ?s1 + bb_size ?wb \<le> cc_socketExtensionBufferSize ?s1"
      if "cc_socketExtensionBuffer ?s1 \<noteq> None" using room that by simp
  qed (use ok in simp_all)
  have "bb_bytes ?wb = ?p"
    using v(1) by (simp add: bb_bytes_def octets_at_store outlen)
  then have "fragment_sent wire inbox net n ?p self w sent self' w'"
    using s v' b by (auto simp: fragment_sent_def wb_ok_def outlen)
  moreover have "sendData_fragment api net limit final c idx pos self w = Some (sent, c', idx', limit, self', w')"
    using v limit e c'(3) s(1) by (simp add: sendData_fragment_def tpkt_headers' [OF b(1) v(2)] bind_assoc)
  ultimately show ?thesis using c'(1,2) by blast
qed

definition fragment_count :: "int \<Rightarrow> int \<Rightarrow> int" where
  "fragment_count n m = (if n > m then n sdiv m + (if n smod m \<noteq> 0 then 1 else 0) else 1)"

lemma fragment_count_small: "n \<le> m \<Longrightarrow> fragment_count n m = 1"
  by (simp add: fragment_count_def)

lemma fragment_count_pos: "0 < m \<Longrightarrow> 1 \<le> fragment_count n m"
  by (auto simp: fragment_count_def pos_imp_zdiv_pos_iff pos_imp_zdiv_nonneg_iff)

lemma fragment_count_step:
  assumes "0 < m" and "m < n"
  shows "fragment_count n m = 1 + fragment_count (n - m) m" and "1 < fragment_count n m"
proof -
  have d: "(n - m) div m = n div m - 1" "(n - m) mod m = n mod m"
    using assms(1) div_add_self2 [of m "n - m"] mod_add_self2 [of "n - m" m] by simp_all
  have "fragment_count n m = 1 + fragment_count (n - m) m"
  proof (cases "n - m > m")
    case True
    then show ?thesis using assms d by (simp add: fragment_count_def)
  next
    case False
    have "n div m = 1 \<and> n mod m = n - m" if "n \<noteq> 2 * m"
      using int_div_pos_eq [of n m 1 "n - m"] int_mod_pos_eq [of n m 1 "n - m"] assms False that by auto
    then show ?thesis using assms False by (cases "n = 2 * m") (simp_all add: fragment_count_def)
  qed
  then show "fragment_count n m = 1 + fragment_count (n - m) m" "1 < fragment_count n m"
    using fragment_count_pos [OF assms(1), of "n - m"] by simp_all
qed

lemma fragment_sent_trans:
  assumes "fragment_sent wire inbox net n xs a w True b u" and "fragment_sent wire inbox net n ys b u sent c v"
  shows "fragment_sent wire inbox net n (xs @ ys) a w sent c v"
proof -
  note ab = assms(1) [unfolded fragment_sent_def] and bc = assms(2) [unfolded fragment_sent_def]
  have s: "same_but_ext (a\<lparr>cc_writeBuffer := cc_writeBuffer c\<rparr>) (b\<lparr>cc_writeBuffer := cc_writeBuffer c\<rparr>)"
    using ab same_but_ext_writeBuffer [of "a\<lparr>cc_writeBuffer := cc_writeBuffer b\<rparr>" b "cc_writeBuffer c"] by simp
  then have "same_but_ext (a\<lparr>cc_writeBuffer := cc_writeBuffer c\<rparr>) c"
    using bc same_but_ext_trans by blast
  moreover have "(cc_socketExtensionBuffer b = None) = (cc_socketExtensionBuffer a = None)"
    using same_but_ext_fields(8) [OF s] by simp
  moreover have "wire v @ cotp_pending c = wire w @ cotp_pending a @ xs @ ys" if sent
    using ab bc that by (metis append.assoc)
  ultimately show ?thesis using ab bc unfolding fragment_sent_def by simp
qed

lemma fragment_sent_room:
  assumes "fragment_sent wire inbox net n xs a w sent b u"
  shows "(cc_socketExtensionBuffer b = None) = (cc_socketExtensionBuffer a = None)"
    and "cc_socketExtensionBufferSize b = cc_socketExtensionBufferSize a"
proof -
  have "same_but_ext (a\<lparr>cc_writeBuffer := cc_writeBuffer b\<rparr>) b"
    using assms by (simp add: fragment_sent_def)
  from same_but_ext_fields [OF this] show "(cc_socketExtensionBuffer b = None) = (cc_socketExtensionBuffer a = None)"
    and "cc_socketExtensionBufferSize b = cc_socketExtensionBufferSize a" by simp_all
qed

lemma fragment_failed:
  "fragment_sent wire inbox net n xs a w False b u \<Longrightarrow> fragment_sent wire inbox net n (xs @ ys) a w False b u"
  by (simp add: fragment_sent_def)

text \<open>All rounds: the packets of the message, in order.\<close>

lemma sendData_loop_stream:
  assumes api: "bytebuffer_ok api" and net: "socket_ok wire inbox net" and "0 < m"
    and "ext_ok self" and "wb_ok (7 + int m) self" and "chain_at c idx" and "chain_rest c idx = ys"
    and "cc_socketExtensionBuffer self \<noteq> None \<Longrightarrow>
      cc_socketExtensionBufferFill self + 7 * fragment_count (int (length ys)) (int m) + int (length ys)
        \<le> cc_socketExtensionBufferSize self"
    and "pos = plen - int (length ys)"
  shows "\<exists>sent self' w'. sendData_loop api net plen (int m) (fragment_count (int (length ys)) (int m)) c idx pos self w =
      Some (if sent then COTP_OK else COTP_ERROR, self', w') \<and>
    fragment_sent wire inbox net (7 + int m) (tpkt_stream m ys) self w sent self' w'"
  using assms(3-)
proof (induction m ys arbitrary: self w c idx pos rule: tpkt_stream.induct)
  case (1 m ys)
  let ?n = "int (length ys)"
  show ?case
  proof (cases "length ys \<le> m")
    case True
    have f: "fragment_count ?n (int m) = 1" using True by (simp add: fragment_count_small)
    obtain sent c' idx' self' w' where
        r: "fragment_sent wire inbox net (7 + int m) (tpkt_data True ys) self w sent self' w'"
        "sendData_fragment api net plen True c idx pos self w = Some (sent, c', idx', plen, self', w')"
      using sendData_fragment_stream [OF api net "1.prems"(2,3) _ "1.prems"(4), of ys "[]" plen pos True w]
        "1.prems" True f by auto
    have "sendData_loop api net plen (int m) 1 c idx pos self w =
        Some (if sent then COTP_OK else COTP_ERROR, self', w')"
      by (simp add: sendData_loop.simps [of _ _ _ _ 1] sendData_loop.simps [of _ _ _ _ 0] r(2))
    moreover have "tpkt_stream m ys = tpkt_data True ys"
      using True by (subst tpkt_stream.simps) simp
    ultimately show ?thesis using r(1) unfolding f by metis
  next
    case False
    then have mn: "0 < int m" "int m < ?n" using "1.prems"(1) by auto
    note f = fragment_count_step [OF mn]
    let ?zs = "take m ys" and ?ys = "drop m ys"
    have len: "length ?zs = m" "int (length ?ys) = ?n - int m" using False by auto
    have room: "cc_socketExtensionBufferFill self + 7 + int m + 7 * fragment_count (?n - int m) (int m) + (?n - int m)
        \<le> cc_socketExtensionBufferSize self" if "cc_socketExtensionBuffer self \<noteq> None"
      using "1.prems"(6) [OF that] f(1) by simp
    obtain sent c' idx' self' w' where c': "chain_at c' idx'" "chain_rest c' idx' = ?ys"
        and r: "fragment_sent wire inbox net (7 + int m) (tpkt_data False ?zs) self w sent self' w'"
        "sendData_fragment api net (pos + int m) False c idx pos self w = Some (sent, c', idx', pos + int m, self', w')"
      using sendData_fragment_stream [OF api net "1.prems"(2,3) _ "1.prems"(4), of ?zs ?ys "pos + int m" pos False w]
        "1.prems"(5) len room fragment_count_pos [OF mn(1), of "?n - int m"] mn by fastforce
    have loop: "sendData_loop api net plen (int m) (fragment_count ?n (int m)) c idx pos self w =
        (if \<not> sent then Some (COTP_ERROR, self', w')
         else sendData_loop api net plen (int m) (fragment_count (int (length ?ys)) (int m)) c' idx' (pos + int m) self' w')"
      using f r(2) len by (subst sendData_loop.simps) simp
    have stream: "tpkt_stream m ys = tpkt_data False ?zs @ tpkt_stream m ?ys"
      using False mn by (subst tpkt_stream.simps) simp
    show ?thesis
    proof (cases sent)
      case True
      have room2: "cc_socketExtensionBufferFill self' + 7 * fragment_count (int (length ?ys)) (int m) + int (length ?ys)
          \<le> cc_socketExtensionBufferSize self'" if "cc_socketExtensionBuffer self' \<noteq> None"
        using room that fragment_sent_room [OF r(1)] r(1) len by (simp add: fragment_sent_def outlen)
      have "ext_ok self'" "wb_ok (7 + int m) self'" using r(1) by (simp_all add: fragment_sent_def)
      then obtain sent2 self2 w2 where
          "sendData_loop api net plen (int m) (fragment_count (int (length ?ys)) (int m)) c' idx' (pos + int m) self' w' =
            Some (if sent2 then COTP_OK else COTP_ERROR, self2, w2)"
          "fragment_sent wire inbox net (7 + int m) (tpkt_stream m ?ys) self' w' sent2 self2 w2"
        using False mn "1.prems"(7) len "1.IH" [OF _ _ _ _ c' room2, of "pos + int m" w'] by auto
      moreover have "fragment_sent wire inbox net (7 + int m) (tpkt_data False ?zs) self w True self' w'"
        using r(1) True by simp
      ultimately show ?thesis unfolding loop stream using True
        by (intro exI [of _ sent2] exI [of _ self2] exI [of _ w2]) (simp add: fragment_sent_trans)
    next
      case False
      then show ?thesis unfolding loop stream using r(1)
        by (intro exI [of _ False] exI [of _ self'] exI [of _ w']) (simp add: fragment_failed)
    qed
  qed
qed

lemma sdiv_neg: "0 \<le> (n :: int) \<Longrightarrow> 0 < d \<Longrightarrow> n sdiv (- d) = - (n div d)"
  and smod_neg: "0 \<le> (n :: int) \<Longrightarrow> 0 < d \<Longrightarrow> n smod (- d) = n mod d"
  by (auto simp: signed_divide_int_def signed_modulo_int_def sgn_if algebra_simps minus_div_mult_eq_mod [symmetric])

lemma fragment_count_le:
  assumes "0 < m" and "0 \<le> n"
  shows "fragment_count n m \<le> n + 1"
  using zdiv_mono2 [of n 1 m] assms by (auto simp: fragment_count_def)

section \<open>Properties\<close>

text \<open>
  C12: The negotiated TPDU size is the largest power of two that does not exceed the
  requested size and the maximum of 8192 octets, for every requested size of at least
  one octet; the search for it ends, and a size below one gives one octet.
\<close>

theorem setTpduSize_correct:
  "\<exists>self' t. CotpConnection_setTpduSize self n = Some self' \<and> CotpConnection_getTpduSize self' = Some t \<and>
    (\<exists>e. t = 2 ^ e) \<and> (if 1 \<le> n then t \<le> min n 8192 \<and> min n 8192 < 2 * t else t = 1)"
proof -
  obtain e where e: "e \<le> 13" "CotpConnection_setTpduSize self n =
      Some (self\<lparr>cc_options := (cc_options self)\<lparr>tpduSize := of_nat e\<rparr>\<rparr>)"
      "1 \<le> n \<longrightarrow> 2 ^ e \<le> min n 8192 \<and> min n 8192 < 2 * 2 ^ e" "n < 1 \<longrightarrow> e = 0"
    using setTpduSize_result by blast
  have "uint (of_nat e :: byte) = int e"
    using e(1) by (simp add: unsigned_of_nat take_bit_eq_mod)
  then have "shl1 (uint (of_nat e :: byte)) = Some (2 ^ e)"
    using e(1) by (simp only: shl1_def) simp
  then show ?thesis using e by (auto simp: CotpConnection_getTpduSize_def)
qed

lemma sendDataMessage_run:
  assumes api: "bytebuffer_ok api" and net: "socket_ok wire inbox net" and ok: "ext_ok self"
    and e: "uint (tpduSize (cc_options self)) = int e" "2 \<le> e" "e \<le> 13" and wb: "wb_ok (2 ^ e + 4) self"
    and c: "chain_wf payload" "bc_length payload < 2 ^ 27"
  shows "\<exists>sent self' w'. CotpConnection_sendDataMessage api net self payload w =
      Some (if sent then COTP_OK else COTP_ERROR, self', w') \<and> ext_ok self' \<and> inbox w' = inbox w \<and>
      (sent \<longrightarrow> wire w' @ cotp_pending self' = wire w @ cotp_pending self @ tpkt_stream (2 ^ e - 3) (chain_bytes payload)) \<and>
      (never_fails net \<longrightarrow> cc_socketExtensionBuffer self \<noteq> None \<longrightarrow>
        cc_socketExtensionBufferFill self + 7 * fragment_count (bc_length payload) (2 ^ e - 3) + bc_length payload
          \<le> cc_socketExtensionBufferSize self \<longrightarrow> sent)"
proof -
  define m :: nat where "m = 2 ^ e - 3"
  have "2 ^ 2 \<le> (2 :: nat) ^ e" using e(2) by (intro power_increasing) auto
  then have m: "0 < m" "int m = 2 ^ e - 3" by (auto simp: m_def of_nat_diff)
  let ?n = "bc_length payload" and ?f = "fragment_count (bc_length payload) (int m)"
  have n: "0 \<le> ?n" "?n = int (length (chain_bytes payload))"
    using chain_length [OF c(1)] by simp_all
  have "1 \<le> ?f" "?f \<le> ?n + 1"
    using m n fragment_count_pos [of "int m" ?n] fragment_count_le [of "int m" ?n] by simp_all
  then have i32: "i32 (?f * 7 + ?n) = Some (?f * 7 + ?n)"
    using c(2) n by simp
  obtain flushed s1 w1 where f: "flushBuffer net self w = Some (flushed, s1, w1)" "ext_ok s1" "same_but_ext self s1"
      "inbox w1 = inbox w" "cc_socketExtensionBufferFill s1 \<le> cc_socketExtensionBufferFill self"
      "flushed \<Longrightarrow> wire w1 @ cotp_pending s1 = wire w @ cotp_pending self" "never_fails net \<Longrightarrow> flushed"
    using flushBuffer_stream [OF net ok] by metis
  let ?full = "cc_socketExtensionBuffer s1 \<noteq> None \<and>
    cc_socketExtensionBufferSize s1 - cc_socketExtensionBufferFill s1 < ?f * 7 + ?n"
  have run: "CotpConnection_sendDataMessage api net self payload w =
      (if \<not> flushed \<or> ?full then Some (COTP_ERROR, s1, w1)
       else sendData_loop api net ?n (int m) ?f payload 0 0 s1 w1)"
    using e i32 by (auto simp: CotpConnection_sendDataMessage_def CotpConnection_getTpduSize_def shl1_def
        COTP_DATA_HEADER_SIZE_def m(2) [symmetric] fragment_count_def [symmetric] f(1) Let_def)
  show ?thesis
  proof (cases "\<not> flushed \<or> ?full")
    case True
    then have "\<not> (never_fails net \<and> cc_socketExtensionBuffer self \<noteq> None \<and>
        cc_socketExtensionBufferFill self + 7 * ?f + ?n \<le> cc_socketExtensionBufferSize self)"
      using f(5,7) same_but_ext_fields(7,8) [OF f(3)] by auto
    then show ?thesis using True run f(2,4) m(2)
      by (intro exI [of _ False] exI [of _ s1] exI [of _ w1]) auto
  next
    case False
    have "wb_ok (7 + int m) s1" "chain_at payload 0"
      using wb m(2) same_but_ext_fields(1) [OF f(3)] c(1) chain_part(2) by (auto simp: wb_ok_def chain_at_def split: option.splits)
    then obtain sent self' w' where r:
        "sendData_loop api net ?n (int m) ?f payload 0 0 s1 w1 = Some (if sent then COTP_OK else COTP_ERROR, self', w')"
        "fragment_sent wire inbox net (7 + int m) (tpkt_stream m (chain_bytes payload)) s1 w1 sent self' w'"
      using sendData_loop_stream [OF api net m(1) f(2), of payload 0 "chain_bytes payload" 0 ?n w1] False n(2)
      by (auto simp: chain_rest_0)
    have "wire w' @ cotp_pending self' = wire w @ cotp_pending self @ tpkt_stream m (chain_bytes payload)" if sent
      using r(2) that False f(6) unfolding fragment_sent_def by (metis append.assoc)
    moreover have "CotpConnection_sendDataMessage api net self payload w =
        Some (if sent then COTP_OK else COTP_ERROR, self', w')"
      by (simp only: run if_not_P [OF False] r(1))
    moreover have "never_fails net \<longrightarrow> cc_socketExtensionBuffer self \<noteq> None \<longrightarrow> sent"
      using r(2) same_but_ext_fields(8) [OF f(3)] unfolding fragment_sent_def by (elim conjE) argo
    ultimately show ?thesis using r(2) f(4) unfolding fragment_sent_def m_def by auto
  qed
qed


text \<open>
  A connection for the examples: packets of 8 octets, an extension buffer of 64 octets in
  which one octet waits, and a message of two parts.
\<close>

definition example_connection :: CotpConnection where
  "example_connection = \<lparr>cc_state = 0, cc_remoteRef = 1, cc_localRef = 1, cc_protocolClass = 0, cc_handleSet = 0,
     cc_socket = 0, cc_tlsSocket = None,
     cc_options = \<lparr>tSelSrc = zero_selector 4, tSelDst = zero_selector 4, tpduSize = 3\<rparr>,
     cc_isLastDataUnit = False,
     cc_payload = \<lparr>bb_buffer = (replicate 32 0, 0), bb_size = 0, bb_maxSize = 32\<rparr>,
     cc_writeBuffer = Some \<lparr>bb_buffer = (replicate 12 0, 0), bb_size = 0, bb_maxSize = 12\<rparr>,
     cc_readBuffer = \<lparr>bb_buffer = (replicate 12 0, 0), bb_size = 0, bb_maxSize = 12\<rparr>,
     cc_packetSize = 0, cc_socketExtensionBuffer = Some (0x77 # replicate 63 0, 0),
     cc_socketExtensionBufferSize = 64, cc_socketExtensionBufferFill = 1\<rparr>"

definition example_message :: BufferChain where
  "example_message = BufferChain 7 4 4 ([1, 0, 1, 0], 0) (Some (BufferChain 3 3 3 ([0x61, 0x62, 0x63], 0) None))"

lemmas example_defs = example_connection_def example_message_def


text \<open>
  A peer that negotiates a TPDU size of one or two octets silences the connection:
  the payload of a fragment then has a negative size, the number of fragments is not
  positive, and \<open>CotpConnection_sendDataMessage\<close> reports \<open>COTP_OK\<close> for every message of two octets or
  more without sending or queueing anything.
\<close>

theorem small_tpdu_drops_data:
  assumes "tpduSize (cc_options self) = 0 \<or> tpduSize (cc_options self) = 1" and "cc_socketExtensionBufferFill self = 0"
    and "3 \<le> cc_socketExtensionBufferSize self" and "2 \<le> bc_length payload" and "bc_length payload < 2 ^ 27"
  shows "CotpConnection_sendDataMessage api net self payload w = Some (COTP_OK, self, w)"
proof -
  let ?n = "bc_length payload" and ?m = "2 ^ unat (tpduSize (cc_options self)) - 3 :: int"
  have f: "fragment_count ?n ?m = (if tpduSize (cc_options self) = 0 then ?n mod 2 - ?n div 2 else - ?n)"
    using assms(1,4) sdiv_neg [of ?n 2] smod_neg [of ?n 2] sdiv_neg [of ?n 1] smod_neg [of ?n 1]
    by (auto simp: fragment_count_def mod_2_eq_odd)
  have "?n mod 2 - ?n div 2 \<le> 0" "- 7 * ?n \<le> (?n mod 2 - ?n div 2) * 7" "(?n mod 2 - ?n div 2) * 7 + ?n \<le> 3"
    using assms(4) by presburger+
  then have neg: "fragment_count ?n ?m \<le> 0" "- 7 * ?n \<le> fragment_count ?n ?m * 7" "fragment_count ?n ?m * 7 + ?n \<le> 3"
    using f assms(4) by auto
  then have "i32 (fragment_count ?n ?m * 7 + ?n) = Some (fragment_count ?n ?m * 7 + ?n)"
    using assms(5) by (intro i32_Some) auto
  moreover have "CotpConnection_getTpduSize self = Some (2 ^ unat (tpduSize (cc_options self)))"
    using assms(1) by (auto simp: CotpConnection_getTpduSize_def shl1_def)
  moreover have "flushBuffer net self w = Some (True, self, w)"
    using assms(2) by (simp add: flushBuffer_def)
  ultimately show ?thesis using neg assms(2,3)
    by (simp add: CotpConnection_sendDataMessage_def COTP_DATA_HEADER_SIZE_def fragment_count_def [symmetric] Let_def
        sendData_loop.simps)
qed

theorem small_tpdu_drops_data_witness:
  "CotpConnection_sendDataMessage plain_bytebuffer (chunk_net 4)
     (example_connection\<lparr>cc_options := \<lparr>tSelSrc = zero_selector 4, tSelDst = zero_selector 4, tpduSize = 1\<rparr>,
        cc_socketExtensionBufferFill := 0\<rparr>) example_message ([], []) =
   Some (COTP_OK, example_connection\<lparr>cc_options := \<lparr>tSelSrc = zero_selector 4, tSelDst = zero_selector 4, tpduSize = 1\<rparr>,
        cc_socketExtensionBufferFill := 0\<rparr>, ([], []))"
  by (rule small_tpdu_drops_data) (simp_all add: example_defs)

end
