(* ===== verification/Cotp_Receive.thy ===== *)
theory Cotp_Receive
  imports Cotp_Send
begin

text \<open>
  The receiving side of the transport layer: TPKT framing under arbitrary chunking by
  the socket, reassembly of data TPDUs in the payload buffer, and the options of the
  connection TPDUs.
\<close>

section \<open>TPKT framing\<close>

definition framed :: "byte list \<Rightarrow> bool" where
  "framed xs \<longleftrightarrow> 4 < length xs \<and> xs ! 0 = 3 \<and> xs ! 1 = 0 \<and>
     uint (xs ! 2) * 0x100 + uint (xs ! 3) = int (length xs)"

text \<open>
  The state between two calls of \<open>CotpConnection_readToTpktBuffer\<close>: the octets received so
  far are in the read buffer and the rest of the stream is still to be read; once the
  header is complete, the packet size is the one it announces and is larger than what
  has been received.
\<close>

definition tpkt_inv :: "('w \<Rightarrow> byte list) \<Rightarrow> byte list \<Rightarrow> CotpConnection \<Rightarrow> 'w \<Rightarrow> bool" where
  "tpkt_inv inbox stream self w \<longleftrightarrow> (let rb = cc_readBuffer self; xs = bb_bytes rb in
     bb_wf rb \<and> 4 < bb_maxSize rb \<and> xs @ inbox w = stream \<and>
     (4 \<le> bb_size rb \<longrightarrow> xs ! 0 = 3 \<and> xs ! 1 = 0 \<and>
        uint (cc_packetSize self) = uint (xs ! 2) * 0x100 + uint (xs ! 3) \<and>
        bb_size rb < uint (cc_packetSize self) \<and> uint (cc_packetSize self) \<le> bb_maxSize rb))"

definition tpkt_result :: "('w \<Rightarrow> byte list) \<Rightarrow> byte list \<Rightarrow> TpktState \<Rightarrow> CotpConnection \<Rightarrow> 'w \<Rightarrow> bool" where
  "tpkt_result inbox stream st self w \<longleftrightarrow> (let rb = cc_readBuffer self in
     bb_wf rb \<and> 4 < bb_maxSize rb \<and>
     (case st of
        TPKT_WAITING \<Rightarrow> tpkt_inv inbox stream self w
      | TPKT_PACKET_COMPLETE \<Rightarrow> framed (bb_bytes rb) \<and> bb_bytes rb @ inbox w = stream
      | TPKT_ERROR \<Rightarrow> bb_size rb = 0))"

text \<open>The stream starts with a packet that fits the read buffer.\<close>

definition good_start :: "int \<Rightarrow> byte list \<Rightarrow> bool" where
  "good_start n stream \<longleftrightarrow> (\<exists>pkt rest. stream = pkt @ rest \<and> framed pkt \<and> int (length pkt) \<le> n)"

text \<open>Reading from the connection yields something as long as the peer has sent more.\<close>

definition delivers :: "('w \<Rightarrow> byte list) \<Rightarrow> 'w SocketApi \<Rightarrow> bool" where
  "delivers inbox net \<longleftrightarrow> (\<forall>self p n w r p' w'. 0 < n \<longrightarrow> inbox w \<noteq> [] \<longrightarrow>
     readFromSocket net self p n w = Some (r, p', w') \<longrightarrow> 0 < r)"

lemma tpkt_read_ok:
  assumes net: "socket_ok wire inbox net" and k: "0 \<le> k" "valid_range (bb_buffer (cc_readBuffer self)) 0 (k + n)"
    and n: "0 < n"
  obtains r b w' where "tpkt_read net self k n w =
      Some (r, self\<lparr>cc_readBuffer := (cc_readBuffer self)\<lparr>bb_buffer := b\<rparr>\<rparr>, w')" and "wire w' = wire w"
    and "\<And>lo hi. valid_range b lo hi = valid_range (bb_buffer (cc_readBuffer self)) lo hi"
    and "r < 0 \<or> 0 \<le> r \<and> r \<le> n \<and>
      octets_at (bb_buffer (cc_readBuffer self)) k @ inbox w = octets_at b (k + r) @ inbox w'"
    and "delivers inbox net \<Longrightarrow> inbox w \<noteq> [] \<Longrightarrow> 0 < r \<and> length (inbox w') < length (inbox w)"
proof -
  let ?rb = "cc_readBuffer self"
  let ?p = "bb_buffer ?rb"
  have "valid_range (padd ?p k) 0 n" using k n by (auto simp: valid_range_def)
  then obtain r p' w' where r: "readFromSocket net self (padd ?p k) n w = Some (r, p', w')" "wire w' = wire w"
      "r < 0 \<and> p' = padd ?p k \<or> 0 \<le> r \<and> r \<le> n \<and> (\<exists>ys. length ys = nat r \<and> inbox w = ys @ inbox w' \<and>
        p' = store (padd ?p k) 0 ys)"
    using readFromSocket_ok [OF net n(1)] by blast
  show thesis
  proof (cases "r < 0")
    case True
    then have "tpkt_read net self k n w = Some (r, self\<lparr>cc_readBuffer := ?rb\<lparr>bb_buffer := ?p\<rparr>\<rparr>, w')"
      using r by (simp add: tpkt_read_def padd_def)
    moreover have "\<not> (delivers inbox net \<and> inbox w \<noteq> [])"
      using r(1) True n unfolding delivers_def by fastforce
    ultimately show thesis by (intro that [of r ?p w']) (use r(2) True in auto)
  next
    case False
    then obtain ys where ys: "length ys = nat r" "inbox w = ys @ inbox w'" "p' = store (padd ?p k) 0 ys" "0 \<le> r" "r \<le> n"
      using r by auto
    have b: "(fst p', snd ?p) = store ?p k ys" using ys(3) by (simp add: store_def padd_def)
    have v: "valid_range ?p k (k + int (length ys))" "valid_range ?p 0 (k + int (length ys))"
      using k n ys by (auto elim: valid_range_mono)
    have "octets_at (store ?p k ys) (k + r) = octets_at ?p k @ ys"
      using octets_at_append [OF v(2) k(1)] ys by simp
    moreover have "tpkt_read net self k n w = Some (r, self\<lparr>cc_readBuffer := ?rb\<lparr>bb_buffer := store ?p k ys\<rparr>\<rparr>, w')"
      using r(1) b by (simp add: tpkt_read_def Let_def)
    moreover have "0 < r \<and> length (inbox w') < length (inbox w)" if "delivers inbox net" "inbox w \<noteq> []"
      using that r(1) n ys unfolding delivers_def by fastforce
    ultimately show thesis
      by (intro that [of r "store ?p k ys" w']) (use r(2) ys valid_range_store [OF v(1)] in simp_all)
  qed
qed

text \<open>The octets already received are a prefix of those received after a further read.\<close>

lemma octets_at_nth:
  "valid_range p 0 n \<Longrightarrow> 0 \<le> k \<Longrightarrow> k \<le> n \<Longrightarrow> i < nat k \<Longrightarrow> octets_at p k ! i = octets_at p n ! i"
  by (simp add: octets_at_def)

lemma octets_prefix_nth:
  assumes "octets_at p k @ ys = octets_at q n @ zs" and "valid_range p 0 k" and "valid_range q 0 n"
    and "i < nat k" and "i < nat n"
  shows "octets_at q n ! i = octets_at p k ! i"
  using arg_cong [OF assms(1), of "\<lambda>l. l ! i"] assms(2-) by (simp add: nth_append length_octets_at)

lemma good_start_header:
  assumes "good_start n (xs @ ys)" and "4 \<le> length xs"
  obtains m where "xs ! 0 = 3" "xs ! 1 = 0" "uint (xs ! 2) * 0x100 + uint (xs ! 3) = int m" "int m \<le> n" "4 < m"
    and "length xs < m \<Longrightarrow> ys \<noteq> []"
proof -
  obtain pkt rest where p: "xs @ ys = pkt @ rest" "framed pkt" "int (length pkt) \<le> n"
    using assms(1) unfolding good_start_def by blast
  have "xs ! i = pkt ! i" if "i < 4" for i
    using arg_cong [OF p(1), of "\<lambda>l. l ! i"] that assms(2) p(2) by (simp add: nth_append framed_def)
  moreover have "ys \<noteq> []" if "length xs < length pkt"
    using arg_cong [OF p(1), of length] that by auto
  ultimately show thesis using p(2,3) that [of "length pkt"] by (simp add: framed_def)
qed

definition tpkt_progress :: "('w \<Rightarrow> byte list) \<Rightarrow> 'w SocketApi \<Rightarrow> int \<Rightarrow> byte list \<Rightarrow> TpktState \<Rightarrow> 'w \<Rightarrow> 'w \<Rightarrow> bool" where
  "tpkt_progress inbox net n stream st w w' \<longleftrightarrow> (delivers inbox net \<longrightarrow> good_start n stream \<longrightarrow>
     st \<noteq> TPKT_ERROR \<and> (st = TPKT_WAITING \<longrightarrow> length (inbox w') < length (inbox w)))"

lemma tpkt_readBody_ok:
  assumes net: "socket_ok wire inbox net" and k: "4 \<le> k" "k = 4 \<or> k < uint (cc_packetSize self)"
    and rb: "valid_range (bb_buffer (cc_readBuffer self)) 0 (bb_maxSize (cc_readBuffer self))" "4 < bb_maxSize (cc_readBuffer self)"
    and stream: "octets_at (bb_buffer (cc_readBuffer self)) k @ inbox w = stream"
    and hdr: "octets_at (bb_buffer (cc_readBuffer self)) k ! 0 = 3" "octets_at (bb_buffer (cc_readBuffer self)) k ! 1 = 0"
      "uint (cc_packetSize self) = uint (octets_at (bb_buffer (cc_readBuffer self)) k ! 2) * 0x100 +
         uint (octets_at (bb_buffer (cc_readBuffer self)) k ! 3)"
      "uint (cc_packetSize self) \<le> bb_maxSize (cc_readBuffer self)"
  shows "\<exists>st rb' w'. tpkt_readBody net self k w = Some (st, self\<lparr>cc_readBuffer := rb'\<rparr>, w') \<and> wire w' = wire w \<and>
    bb_maxSize rb' = bb_maxSize (cc_readBuffer self) \<and>
    tpkt_result inbox stream st (self\<lparr>cc_readBuffer := rb'\<rparr>) w' \<and>
    tpkt_progress inbox net (bb_maxSize (cc_readBuffer self)) stream st w w'"
proof -
  let ?rb = "cc_readBuffer self" and ?n = "uint (cc_packetSize self)"
  have vk: "valid_range (bb_buffer ?rb) 0 k"
    using rb k hdr(4) by (auto simp: valid_range_def)
  have good: "k < ?n \<and> inbox w \<noteq> []" if g: "good_start (bb_maxSize ?rb) stream"
  proof -
    have "4 \<le> length (octets_at (bb_buffer ?rb) k)" "length (octets_at (bb_buffer ?rb) k) = nat k"
      using k(1) length_octets_at [OF vk] by auto
    with good_start_header [OF g [folded stream]] show ?thesis using hdr k by fastforce
  qed
  show ?thesis
  proof (cases "?n \<le> k")
    case True
    then show ?thesis using rb good
      by (intro exI [of _ TPKT_ERROR] exI [of _ "?rb\<lparr>bb_size := 0\<rparr>"] exI [of _ w])
        (auto simp: tpkt_readBody_def tpkt_exit_error_def tpkt_result_def bb_wf_def tpkt_progress_def)
  next
    case False
    have n: "0 \<le> k" "valid_range (bb_buffer ?rb) 0 (k + (?n - k))" "0 < ?n - k"
      using False k hdr(4) rb(1) by (auto simp: valid_range_def)
    obtain r b w' where r: "tpkt_read net self k (?n - k) w = Some (r, self\<lparr>cc_readBuffer := ?rb\<lparr>bb_buffer := b\<rparr>\<rparr>, w')"
        "wire w' = wire w" "\<And>lo hi. valid_range b lo hi = valid_range (bb_buffer ?rb) lo hi"
        "r < 0 \<or> 0 \<le> r \<and> r \<le> ?n - k \<and> octets_at (bb_buffer ?rb) k @ inbox w = octets_at b (k + r) @ inbox w'"
        "delivers inbox net \<Longrightarrow> inbox w \<noteq> [] \<Longrightarrow> 0 < r \<and> length (inbox w') < length (inbox w)"
      by (rule tpkt_read_ok [OF net n, of w]) (rule that)
    show ?thesis
    proof (cases "r < 0")
      case True
      then have "tpkt_progress inbox net (bb_maxSize ?rb) stream TPKT_ERROR w w'"
        using good r(5) by (auto simp: tpkt_progress_def)
      then show ?thesis using True False rb r
        by (intro exI [of _ TPKT_ERROR] exI [of _ "?rb\<lparr>bb_buffer := b, bb_size := 0\<rparr>"] exI [of _ w'])
          (simp add: tpkt_readBody_def tpkt_exit_error_def tpkt_result_def bb_wf_def)
    next
      case nonneg: False
      let ?st = "if k + r < ?n then TPKT_WAITING else TPKT_PACKET_COMPLETE"
      have v: "valid_range b 0 (k + r)"
        unfolding r(3) by (rule valid_range_mono [OF rb(1)]; use r(4) nonneg hdr(4) False k in linarith)
      have "octets_at b (k + r) ! i = octets_at (bb_buffer ?rb) k ! i" if "i < 4" for i
        using octets_prefix_nth [OF _ vk v, of "inbox w" "inbox w'" i] r(4) nonneg that k by auto
      then have h: "octets_at b (k + r) ! 0 = 3" "octets_at b (k + r) ! 1 = 0"
          "?n = uint (octets_at b (k + r) ! 2) * 0x100 + uint (octets_at b (k + r) ! 3)"
        using hdr by simp_all
      have "\<not> k + r < ?n \<Longrightarrow> 4 < nat (k + r)" using False k nonneg by linarith
      moreover have "length (octets_at b (k + r)) = nat (k + r)" using v by (intro length_octets_at)
      moreover have "tpkt_progress inbox net (bb_maxSize ?rb) stream ?st w w'"
        using good r(5) by (auto simp: tpkt_progress_def)
      ultimately show ?thesis using False rb r(1-4) nonneg h stream v hdr(4) k
        by (intro exI [of _ ?st] exI [of _ "?rb\<lparr>bb_buffer := b, bb_size := k + r\<rparr>"] exI [of _ w'])
          (simp add: tpkt_readBody_def tpkt_exit_waiting_def tpkt_result_def tpkt_inv_def framed_def bb_wf_def bb_bytes_def)
    qed
  qed
qed

lemma uint16_word_of_int: "0 \<le> x \<Longrightarrow> x < 65536 \<Longrightarrow> uint (word_of_int x :: 16 word) = x"
  by (simp add: uint_word_of_int)

lemma uint16_of_octets:
  fixes a b :: byte
  shows "uint (word_of_int (uint a * 0x100 + uint b) :: 16 word) = uint a * 0x100 + uint b"
  using byte_bound [of a] byte_bound [of b] by (intro uint16_word_of_int) auto

lemmas uint16_of_octets_cast = uint16_of_octets [simplified]

lemma tpkt_checkHeader_ok:
  fixes self :: CotpConnection
  defines "rb \<equiv> cc_readBuffer self"
  assumes net: "socket_ok wire inbox net"
    and rb: "valid_range (bb_buffer rb) 0 (bb_maxSize rb)" "4 < bb_maxSize rb"
    and stream: "octets_at (bb_buffer rb) 4 @ inbox w = stream"
  shows "\<exists>st n rb' w'.
    tpkt_checkHeader net self w = Some (st, self\<lparr>cc_packetSize := n, cc_readBuffer := rb'\<rparr>, w') \<and> wire w' = wire w \<and>
    bb_maxSize rb' = bb_maxSize rb \<and>
    tpkt_result inbox stream st (self\<lparr>cc_packetSize := n, cc_readBuffer := rb'\<rparr>) w' \<and>
    tpkt_progress inbox net (bb_maxSize rb) stream st w w'"
proof -
  let ?h = "octets_at (bb_buffer rb) 4"
  let ?n = "uint (?h ! 2) * 0x100 + uint (?h ! 3)"
  have v: "valid_range (bb_buffer rb) 0 4" using rb by (auto elim: valid_range_mono)
  have rd: "rd (bb_buffer rb) 0 = Some (?h ! 0)" "rd (bb_buffer rb) 1 = Some (?h ! 1)"
      "rd (bb_buffer rb) 2 = Some (?h ! 2)" "rd (bb_buffer rb) 3 = Some (?h ! 3)"
    using rd_octets_at [OF v] by simp_all
  have len: "4 \<le> length ?h" using length_octets_at [OF v] by simp
  show ?thesis
  proof (cases "?h ! 0 = 3 \<and> ?h ! 1 = 0 \<and> ?n \<le> bb_maxSize rb")
    case True
    let ?self = "self\<lparr>cc_packetSize := word_of_int ?n\<rparr>"
    have "\<exists>st rb' w'. tpkt_readBody net ?self 4 w = Some (st, ?self\<lparr>cc_readBuffer := rb'\<rparr>, w') \<and> wire w' = wire w \<and>
      bb_maxSize rb' = bb_maxSize (cc_readBuffer ?self) \<and>
      tpkt_result inbox stream st (?self\<lparr>cc_readBuffer := rb'\<rparr>) w' \<and>
      tpkt_progress inbox net (bb_maxSize (cc_readBuffer ?self)) stream st w w'"
      using True rb stream by (intro tpkt_readBody_ok [OF net]) (simp_all add: rb_def uint16_of_octets_cast)
    then obtain st rb' w' where r: "tpkt_readBody net ?self 4 w = Some (st, ?self\<lparr>cc_readBuffer := rb'\<rparr>, w')" "wire w' = wire w"
      "bb_maxSize rb' = bb_maxSize rb" "tpkt_result inbox stream st (?self\<lparr>cc_readBuffer := rb'\<rparr>) w'"
      "tpkt_progress inbox net (bb_maxSize rb) stream st w w'" by (auto simp: rb_def)
    then show ?thesis using True rd
      by (intro exI [of _ st] exI [of _ "word_of_int ?n"] exI [of _ rb'] exI [of _ w'])
        (simp add: tpkt_checkHeader_def uint16_of_octets_cast rb_def Let_def)
  next
    case False
    have "\<not> good_start (bb_maxSize rb) stream"
    proof
      assume "good_start (bb_maxSize rb) stream"
      with good_start_header [OF _ len, of "bb_maxSize rb" "inbox w"] show False using False stream by metis
    qed
    then show ?thesis using False rd rb
      by (intro exI [of _ TPKT_ERROR] exI [of _ "if ?h ! 0 = 3 \<and> ?h ! 1 = 0 then word_of_int ?n else cc_packetSize self"]
          exI [of _ "rb\<lparr>bb_size := 0\<rparr>"] exI [of _ w])
        (auto simp: Let_def tpkt_checkHeader_def uint16_of_octets_cast rb_def tpkt_exit_error_def tpkt_result_def tpkt_progress_def bb_wf_def)
  qed
qed

lemma tpkt_readHeader_ok:
  assumes net: "socket_ok wire inbox net" and rb: "bb_wf (cc_readBuffer self)" "4 < bb_maxSize (cc_readBuffer self)"
    and k: "bb_size (cc_readBuffer self) < 4"
    and stream: "bb_bytes (cc_readBuffer self) @ inbox w = stream"
  shows "\<exists>st n rb' w'. tpkt_readHeader net self (bb_size (cc_readBuffer self)) w =
      Some (st, self\<lparr>cc_packetSize := n, cc_readBuffer := rb'\<rparr>, w') \<and> wire w' = wire w \<and>
    bb_maxSize rb' = bb_maxSize (cc_readBuffer self) \<and>
    tpkt_result inbox stream st (self\<lparr>cc_packetSize := n, cc_readBuffer := rb'\<rparr>) w' \<and>
    tpkt_progress inbox net (bb_maxSize (cc_readBuffer self)) stream st w w'"
proof -
  let ?rb = "cc_readBuffer self"
  let ?k = "bb_size ?rb"
  have v: "valid_range (bb_buffer ?rb) 0 (bb_maxSize ?rb)" "0 \<le> ?k" using rb(1) by (auto simp: bb_wf_def)
  have n: "0 \<le> ?k" "valid_range (bb_buffer ?rb) 0 (?k + (4 - ?k))" "0 < 4 - ?k"
    using v rb(2) k by (auto simp: valid_range_def)
  have vk: "valid_range (bb_buffer ?rb) 0 ?k" using v rb(2) k by (auto simp: valid_range_def)
  have good: "inbox w \<noteq> []" if "good_start (bb_maxSize ?rb) stream"
  proof
    assume "inbox w = []"
    then have "length stream < 4"
      using stream k length_octets_at [OF vk] by (auto simp: bb_bytes_def)
    then show False using that by (auto simp: good_start_def framed_def)
  qed
  obtain r b w' where r: "tpkt_read net self ?k (4 - ?k) w = Some (r, self\<lparr>cc_readBuffer := ?rb\<lparr>bb_buffer := b\<rparr>\<rparr>, w')"
      "wire w' = wire w" "\<And>lo hi. valid_range b lo hi = valid_range (bb_buffer ?rb) lo hi"
      "r < 0 \<or> 0 \<le> r \<and> r \<le> 4 - ?k \<and> octets_at (bb_buffer ?rb) ?k @ inbox w = octets_at b (?k + r) @ inbox w'"
      "delivers inbox net \<Longrightarrow> inbox w \<noteq> [] \<Longrightarrow> 0 < r \<and> length (inbox w') < length (inbox w)"
    by (rule tpkt_read_ok [OF net n, of w]) (rule that)
  let ?self = "self\<lparr>cc_readBuffer := ?rb\<lparr>bb_buffer := b\<rparr>\<rparr>"
  have vb: "valid_range b 0 (bb_maxSize ?rb)" using r(3) v by simp
  consider (closed) "r < 0" | (waiting) "0 \<le> r" "?k + r < 4" | (complete) "?k + r = 4"
    using r(4) by force
  then show ?thesis
  proof cases
    case closed
    then have "tpkt_progress inbox net (bb_maxSize ?rb) stream TPKT_ERROR w w'"
      using good r(5) by (auto simp: tpkt_progress_def)
    then show ?thesis using closed rb v vb r(1,2)
      by (intro exI [of _ TPKT_ERROR] exI [of _ "cc_packetSize self"] exI [of _ "?rb\<lparr>bb_buffer := b, bb_size := 0\<rparr>"] exI [of _ w'])
        (simp add: tpkt_readHeader_def tpkt_exit_error_def tpkt_result_def bb_wf_def)
  next
    case waiting
    then have "tpkt_progress inbox net (bb_maxSize ?rb) stream TPKT_WAITING w w'"
      using good r(5) by (auto simp: tpkt_progress_def)
    then show ?thesis using waiting rb v vb r(1,2,4) stream
      by (intro exI [of _ TPKT_WAITING] exI [of _ "cc_packetSize self"] exI [of _ "?rb\<lparr>bb_buffer := b, bb_size := ?k + r\<rparr>"] exI [of _ w'])
        (simp add: tpkt_readHeader_def tpkt_exit_waiting_def tpkt_result_def tpkt_inv_def bb_wf_def bb_bytes_def)
  next
    case complete
    have "octets_at (bb_buffer (cc_readBuffer ?self)) 4 @ inbox w' = stream"
      using complete r(4) k stream by (simp add: bb_bytes_def)
    then obtain st n rb' w2 where c:
        "tpkt_readHeader net self ?k w = Some (st, ?self\<lparr>cc_packetSize := n, cc_readBuffer := rb'\<rparr>, w2)"
        "wire w2 = wire w'" "bb_maxSize rb' = bb_maxSize ?rb"
        "tpkt_result inbox stream st (?self\<lparr>cc_packetSize := n, cc_readBuffer := rb'\<rparr>) w2"
        "tpkt_progress inbox net (bb_maxSize ?rb) stream st w' w2"
      using tpkt_checkHeader_ok [OF net, of ?self w' stream] vb rb(2) complete k r(1)
      by (auto simp: tpkt_readHeader_def)
    then have "tpkt_progress inbox net (bb_maxSize ?rb) stream st w w2"
      using good r(5) by (force simp: tpkt_progress_def)
    then show ?thesis using c r(2)
      by (intro exI [of _ st] exI [of _ n] exI [of _ rb'] exI [of _ w2]) simp
  qed
qed

lemma tpkt_inv_parts:
  assumes "tpkt_inv inbox stream self w"
  shows "bb_wf (cc_readBuffer self)" and "4 < bb_maxSize (cc_readBuffer self)"
    and "bb_bytes (cc_readBuffer self) @ inbox w = stream"
  using assms by (auto simp: tpkt_inv_def Let_def)

lemma tpkt_inv_ext:
  "same_but_ext self self' \<Longrightarrow> inbox w' = inbox w \<Longrightarrow> tpkt_inv inbox stream self' w' = tpkt_inv inbox stream self w"
  by (simp add: tpkt_inv_def same_but_ext_fields)

text \<open>One call when nothing waits in the extension buffer.\<close>

lemma readToTpktBuffer_idle:
  assumes net: "socket_ok wire inbox net" and inv: "tpkt_inv inbox stream self w"
    and fill: "cc_socketExtensionBufferFill self = 0"
  shows "\<exists>st n rb w'. (if bb_size (cc_readBuffer self) < 4 then tpkt_readHeader net self (bb_size (cc_readBuffer self)) w
        else tpkt_readBody net self (bb_size (cc_readBuffer self)) w) =
      Some (st, self\<lparr>cc_packetSize := n, cc_readBuffer := rb\<rparr>, w') \<and> wire w' = wire w \<and>
    bb_maxSize rb = bb_maxSize (cc_readBuffer self) \<and>
    tpkt_result inbox stream st (self\<lparr>cc_packetSize := n, cc_readBuffer := rb\<rparr>) w' \<and>
    tpkt_progress inbox net (bb_maxSize (cc_readBuffer self)) stream st w w'"
proof (cases "bb_size (cc_readBuffer self) < 4")
  case True
  then show ?thesis using tpkt_readHeader_ok [OF net tpkt_inv_parts(1,2) [OF inv] True tpkt_inv_parts(3) [OF inv]] by simp
next
  case False
  have "\<exists>st rb' w'. tpkt_readBody net self (bb_size (cc_readBuffer self)) w = Some (st, self\<lparr>cc_readBuffer := rb'\<rparr>, w') \<and>
      wire w' = wire w \<and> bb_maxSize rb' = bb_maxSize (cc_readBuffer self) \<and>
      tpkt_result inbox stream st (self\<lparr>cc_readBuffer := rb'\<rparr>) w' \<and>
      tpkt_progress inbox net (bb_maxSize (cc_readBuffer self)) stream st w w'"
    using inv False
    by (intro tpkt_readBody_ok [OF net]) (simp_all add: tpkt_inv_def Let_def bb_wf_def bb_bytes_def)
  then obtain st rb' w' where "tpkt_readBody net self (bb_size (cc_readBuffer self)) w = Some (st, self\<lparr>cc_readBuffer := rb'\<rparr>, w')"
      "wire w' = wire w" "bb_maxSize rb' = bb_maxSize (cc_readBuffer self)"
      "tpkt_result inbox stream st (self\<lparr>cc_readBuffer := rb'\<rparr>) w'"
      "tpkt_progress inbox net (bb_maxSize (cc_readBuffer self)) stream st w w'" by blast
  then show ?thesis using False
    by (intro exI [of _ st] exI [of _ "cc_packetSize self"] exI [of _ rb'] exI [of _ w']) simp
qed

lemma readToTpktBuffer_no_flush:
  assumes "4 < bb_maxSize (cc_readBuffer self)" and "cc_socketExtensionBufferFill self = 0"
  shows "CotpConnection_readToTpktBuffer net self w =
    (if bb_size (cc_readBuffer self) < 4 then tpkt_readHeader net self (bb_size (cc_readBuffer self)) w
     else tpkt_readBody net self (bb_size (cc_readBuffer self)) w)"
  using assms by (simp add: CotpConnection_readToTpktBuffer_def)

lemma ext_ok_fill: "ext_ok self \<Longrightarrow> 0 \<le> cc_socketExtensionBufferFill self"
  by (auto simp: ext_ok_def split: option.splits)

lemma ext_ok_readBuffer [simp]:
  "ext_ok (self\<lparr>cc_readBuffer := rb\<rparr>) = ext_ok self" "ext_ok (self\<lparr>cc_packetSize := n\<rparr>) = ext_ok self"
  by (simp_all add: ext_ok_def split: option.split)


text \<open>Calling again until the packet is complete, at most \<open>n\<close> times.\<close>

fun tpkt_poll :: "'w SocketApi \<Rightarrow> nat \<Rightarrow> CotpConnection \<Rightarrow> 'w \<Rightarrow> (TpktState \<times> CotpConnection \<times> 'w) option" where
  "tpkt_poll net 0 self w = Some (TPKT_WAITING, self, w)"
| "tpkt_poll net (Suc n) self w = do {
     (st, self, w) \<leftarrow> CotpConnection_readToTpktBuffer net self w;
     if st = TPKT_WAITING then tpkt_poll net n self w else Some (st, self, w) }"

lemma framed_unique:
  assumes "framed xs" and "framed ys" and "xs @ us = ys @ vs"
  shows "xs = ys" and "us = vs"
proof -
  have "xs ! i = ys ! i" if "i < 4" for i
    using arg_cong [OF assms(3), of "\<lambda>l. l ! i"] assms(1,2) that by (simp add: framed_def nth_append)
  then have "int (length xs) = int (length ys)" using assms(1,2) by (simp add: framed_def)
  then show "xs = ys" "us = vs" using assms(3) by auto
qed

lemma tpkt_poll_complete:
  assumes net: "socket_ok wire inbox net" "delivers inbox net"
    and pkt: "framed pkt" "int (length pkt) \<le> bb_maxSize (cc_readBuffer self)"
    and "tpkt_inv inbox (pkt @ rest) self w" and "cc_socketExtensionBufferFill self = 0" and "length (inbox w) < n"
  shows "\<exists>m rb w'. tpkt_poll net n self w = Some (TPKT_PACKET_COMPLETE, self\<lparr>cc_packetSize := m, cc_readBuffer := rb\<rparr>, w') \<and>
    wire w' = wire w \<and> bb_wf rb \<and> bb_maxSize rb = bb_maxSize (cc_readBuffer self) \<and> bb_bytes rb = pkt \<and> inbox w' = rest"
  using assms(4-)
proof (induction n arbitrary: self w)
  case 0
  from "0.prems"(4) show ?case by simp
next
  case (Suc n)
  have good: "good_start (bb_maxSize (cc_readBuffer self)) (pkt @ rest)"
    using pkt(1) Suc.prems(1) by (auto simp: good_start_def)
  obtain st m rb u where r: "CotpConnection_readToTpktBuffer net self w = Some (st, self\<lparr>cc_packetSize := m, cc_readBuffer := rb\<rparr>, u)"
      "wire u = wire w" "bb_maxSize rb = bb_maxSize (cc_readBuffer self)"
      "tpkt_result inbox (pkt @ rest) st (self\<lparr>cc_packetSize := m, cc_readBuffer := rb\<rparr>) u"
      "tpkt_progress inbox net (bb_maxSize (cc_readBuffer self)) (pkt @ rest) st w u"
    using readToTpktBuffer_idle [OF net(1) Suc.prems(2,3)]
    unfolding readToTpktBuffer_no_flush [OF tpkt_inv_parts(2) [OF Suc.prems(2)] Suc.prems(3), symmetric]
    by (elim exE conjE) (rule that)
  let ?self = "self\<lparr>cc_packetSize := m, cc_readBuffer := rb\<rparr>"
  have st: "st \<noteq> TPKT_ERROR" "st = TPKT_WAITING \<longrightarrow> length (inbox u) < length (inbox w)"
    using r(5) net(2) good by (auto simp: tpkt_progress_def)
  show ?case
  proof (cases "st = TPKT_WAITING")
    case True
    have "int (length pkt) \<le> bb_maxSize (cc_readBuffer ?self)" "tpkt_inv inbox (pkt @ rest) ?self u"
        "cc_socketExtensionBufferFill ?self = 0" "length (inbox u) < n"
      using Suc.prems r(3,4) st True by (auto simp: tpkt_result_def)
    from Suc.IH [OF this] obtain m' rb' w' where
        "tpkt_poll net n ?self u = Some (TPKT_PACKET_COMPLETE, ?self\<lparr>cc_packetSize := m', cc_readBuffer := rb'\<rparr>, w')"
        "wire w' = wire u" "bb_wf rb'" "bb_maxSize rb' = bb_maxSize (cc_readBuffer ?self)" "bb_bytes rb' = pkt" "inbox w' = rest"
      by (elim exE conjE) (rule that)
    then show ?thesis using True r(1,2,3)
      by (intro exI [of _ m'] exI [of _ rb'] exI [of _ w']) simp
  next
    case False
    then have c: "st = TPKT_PACKET_COMPLETE" using st(1) by (cases st) auto
    then have "framed (bb_bytes rb)" "bb_bytes rb @ inbox u = pkt @ rest" "bb_wf rb"
      using r(4) by (auto simp: tpkt_result_def Let_def)
    then show ?thesis using framed_unique [of "bb_bytes rb" pkt "inbox u" rest] pkt(1) c r(1,2,3)
      by (intro exI [of _ m] exI [of _ rb] exI [of _ u]) simp
  qed
qed

text \<open>
  C6: Liveness of framing. If reading yields something as long as the peer has sent more,
  a packet that fits the read buffer is complete after at most as many calls as there
  are octets to read (and one more), with nothing of the octets that follow it consumed and nothing sent.
\<close>

theorem readToTpktBuffer_completes:
  assumes "socket_ok wire inbox net" and "delivers inbox net"
    and "framed pkt" and "int (length pkt) \<le> bb_maxSize (cc_readBuffer self)"
    and "tpkt_inv inbox (pkt @ rest) self w" and "cc_socketExtensionBufferFill self = 0"
  shows "\<exists>self' w'. tpkt_poll net (Suc (length (inbox w))) self w = Some (TPKT_PACKET_COMPLETE, self', w') \<and>
    bb_bytes (cc_readBuffer self') = pkt \<and> inbox w' = rest \<and> wire w' = wire w"
proof -
  obtain m rb w' where "tpkt_poll net (Suc (length (inbox w))) self w =
      Some (TPKT_PACKET_COMPLETE, self\<lparr>cc_packetSize := m, cc_readBuffer := rb\<rparr>, w')"
      "wire w' = wire w" "bb_bytes rb = pkt" "inbox w' = rest"
    using tpkt_poll_complete [OF assms lessI] by (elim exE conjE) (rule that)
  then show ?thesis
    by (intro exI [of _ "self\<lparr>cc_packetSize := m, cc_readBuffer := rb\<rparr>"] exI [of _ w']) (simp del: tpkt_poll.simps)
qed

lemma chunk_net_delivers: "0 < k \<Longrightarrow> delivers snd (chunk_net k)"
  by (auto simp: delivers_def chunk_net_def readFromSocket_def chunk_read_def Let_def split: option.splits)

definition example_receiver :: CotpConnection where
  "example_receiver = example_connection\<lparr>cc_socketExtensionBufferFill := 0\<rparr>"

lemma example_receiver_inv: "tpkt_inv snd stream example_receiver ([], stream)"
  by (simp add: tpkt_inv_def example_receiver_def example_connection_def bb_wf_def bb_bytes_def octets_at_def valid_range_def)


theorem readToTpktBuffer_completes_witness:
  "\<exists>self' w'. tpkt_poll (chunk_net 3) 10 example_receiver ([], [3, 0, 0, 8, 2, 0xf0, 0x80, 9, 3]) =
      Some (TPKT_PACKET_COMPLETE, self', w') \<and>
    bb_bytes (cc_readBuffer self') = [3, 0, 0, 8, 2, 0xf0, 0x80, 9] \<and> snd w' = [3]"
proof -
  have "tpkt_inv snd ([3, 0, 0, 8, 2, 0xf0, 0x80, 9] @ [3]) example_receiver ([], [3, 0, 0, 8, 2, 0xf0, 0x80, 9, 3])"
    using example_receiver_inv [of "[3, 0, 0, 8, 2, 0xf0, 0x80, 9, 3]"] by simp
  moreover have "framed [3, 0, 0, 8, 2, 0xf0, 0x80, 9]" by (simp add: framed_def)
  ultimately show ?thesis
    using readToTpktBuffer_completes [OF chunk_net_ok chunk_net_delivers, of 3 "[3, 0, 0, 8, 2, 0xf0, 0x80, 9]" example_receiver "[3]"
        "([], [3, 0, 0, 8, 2, 0xf0, 0x80, 9, 3])"]
    by (auto simp: example_receiver_def example_connection_def eval_nat_numeral simp del: tpkt_poll.simps)
qed

section \<open>Reassembly\<close>

lemma octet_pair: "0 \<le> n \<Longrightarrow> n < 65536 \<Longrightarrow> uint (word_of_int (n div 0x100) :: byte) * 0x100 + uint (word_of_int n :: byte) = n"
  by (simp add: uint_word_of_int)

lemma framed_tpkt_data:
  assumes "length xs < 65529"
  shows "framed (tpkt_data final xs)"
  using octet_pair [of "7 + int (length xs)"] assms by (simp add: framed_def tpkt_data_def Let_def)

lemma parse_data_packet:
  assumes rb: "bb_wf (cc_readBuffer self)" "bb_bytes (cc_readBuffer self) = tpkt_data final xs" and xs: "xs \<noteq> []"
    and pl: "bb_wf (cc_payload self)" "bb_size (cc_payload self) + int (length xs) \<le> bb_maxSize (cc_payload self)"
  shows "\<exists>b. CotpConnection_parseIncomingMessage self =
      Some (if final then COTP_DATA_INDICATION else COTP_MORE_FRAGMENTS_FOLLOW,
        self\<lparr>cc_isLastDataUnit := final, cc_payload := b,
          cc_readBuffer := (cc_readBuffer self)\<lparr>bb_size := 0\<rparr>, cc_packetSize := 0\<rparr>) \<and>
    bb_wf b \<and> bb_maxSize b = bb_maxSize (cc_payload self) \<and> bb_bytes b = bb_bytes (cc_payload self) @ xs"
proof -
  let ?rb = "cc_readBuffer self" and ?pl = "cc_payload self"
  have sz: "bb_size ?rb = 7 + int (length xs)"
    using bb_bytes_length [OF rb(1)] rb(2) by (simp add: outlen)
  have rd: "rd (bb_buffer ?rb) 4 = Some 2" "rd (bb_buffer ?rb) 5 = Some 0xf0"
      "rd (bb_buffer ?rb) 6 = Some (if final then 0x80 else 0)"
    using rd_bb_bytes [OF rb(1), of 4] rd_bb_bytes [OF rb(1), of 5] rd_bb_bytes [OF rb(1), of 6] rb(2)
    by (simp_all add: tpkt_data_def Let_def)
  have "rdn (bb_buffer ?rb) (0 + int 7) (length (bb_bytes ?rb) - 7) = Some (drop 7 (bb_bytes ?rb))"
    using rdn_drop [OF rdn_bb_bytes [OF rb(1)], of 7] rb(2) by (simp add: outlen)
  then have "rdn (padd (bb_buffer ?rb) 7) 0 (nat (int (length xs))) = Some xs"
    using rb(2) by (simp add: tpkt_data_def Let_def)
  note m = memcpy_append [OF pl(1) this _ pl(2), simplified]
  let ?b = "?pl\<lparr>bb_buffer := store (bb_buffer ?pl) (bb_size ?pl) xs, bb_size := bb_size ?pl + int (length xs)\<rparr>"
  have "addPayloadToBuffer (self\<lparr>cc_isLastDataUnit := final\<rparr>) (padd (bb_buffer ?rb) 7) (int (length xs)) =
      Some (True, self\<lparr>cc_isLastDataUnit := final, cc_payload := ?b\<rparr>)"
    using xs pl(2) m(1) by (cases xs) (simp_all add: addPayloadToBuffer_def store_def Let_def)
  then show ?thesis using sz rd m(2,3)
    by (intro exI [of _ ?b], cases final)
      (simp_all add: CotpConnection_parseIncomingMessage_def parseCotpMessage_def parseDataTpdu_def getUint8_def Let_def)
qed

text \<open>The fragments of a message, each with the mark of the last one.\<close>

fun segments :: "nat \<Rightarrow> byte list \<Rightarrow> (bool \<times> byte list) list" where
  "segments m xs =
     (if m = 0 \<or> length xs \<le> m then [(True, xs)] else (False, take m xs) # segments m (drop m xs))"

declare segments.simps [simp del]

lemma tpkt_stream_segments: "tpkt_stream m xs = concat (map (\<lambda>(final, ys). tpkt_data final ys) (segments m xs))"
  by (induction m xs rule: segments.induct) (subst tpkt_stream.simps, subst segments.simps, simp)

text \<open>
  The receiver: packets are read and parsed until one ends a message; \<open>p\<close> bounds the calls
  for a packet, \<open>n\<close> the number of packets.
\<close>

fun cotp_receive :: "'w SocketApi \<Rightarrow> nat \<Rightarrow> nat \<Rightarrow> CotpConnection \<Rightarrow> 'w \<Rightarrow> (CotpIndication \<times> CotpConnection \<times> 'w) option" where
  "cotp_receive net p 0 self w = Some (COTP_MORE_FRAGMENTS_FOLLOW, self, w)"
| "cotp_receive net p (Suc n) self w = do {
     (st, self, w) \<leftarrow> tpkt_poll net p self w;
     if st \<noteq> TPKT_PACKET_COMPLETE then Some (COTP_ERROR, self, w)
     else do {
       (indication, self) \<leftarrow> CotpConnection_parseIncomingMessage self;
       if indication = COTP_MORE_FRAGMENTS_FOLLOW then cotp_receive net p n self w
       else Some (indication, self, w) } }"

text \<open>A connection between two messages or two packets of a message.\<close>

definition ready :: "int \<Rightarrow> int \<Rightarrow> CotpConnection \<Rightarrow> bool" where
  "ready n room self \<longleftrightarrow> cc_socketExtensionBufferFill self = 0 \<and>
     bb_wf (cc_readBuffer self) \<and> bb_size (cc_readBuffer self) = 0 \<and> n \<le> bb_maxSize (cc_readBuffer self) \<and>
     bb_wf (cc_payload self) \<and> bb_size (cc_payload self) + room \<le> bb_maxSize (cc_payload self)"

lemma receive_packet:
  assumes net: "socket_ok wire inbox net" "delivers inbox net"
    and self: "ready (7 + int (length xs)) (int (length xs)) self" and xs: "xs \<noteq> []" "length xs < 65529"
    and w: "inbox w = tpkt_data final xs @ rest" "length (inbox w) < p"
  shows "\<exists>self' self'' w'. tpkt_poll net p self w = Some (TPKT_PACKET_COMPLETE, self', w') \<and> inbox w' = rest \<and>
    CotpConnection_parseIncomingMessage self' =
      Some (if final then COTP_DATA_INDICATION else COTP_MORE_FRAGMENTS_FOLLOW, self'') \<and>
    bb_bytes (cc_payload self'') = bb_bytes (cc_payload self) @ xs \<and>
    (\<forall>n room. ready n (int (length xs) + room) self \<longrightarrow> ready n room self'')"
proof -
  have sz: "4 < bb_maxSize (cc_readBuffer self)" "length (tpkt_data final xs) \<le> nat (bb_maxSize (cc_readBuffer self))"
    using self by (auto simp: ready_def outlen)
  have inv: "tpkt_inv inbox (tpkt_data final xs @ rest) self w"
    using self sz(1) w(1) by (simp add: tpkt_inv_def ready_def bb_bytes_def octets_at_def)
  obtain m rb w' where r: "tpkt_poll net p self w = Some (TPKT_PACKET_COMPLETE, self\<lparr>cc_packetSize := m, cc_readBuffer := rb\<rparr>, w')"
      "bb_wf rb" "bb_maxSize rb = bb_maxSize (cc_readBuffer self)" "bb_bytes rb = tpkt_data final xs" "inbox w' = rest"
    using tpkt_poll_complete [OF net framed_tpkt_data [OF xs(2)] _ inv _ w(2)] self
    by (auto simp: ready_def outlen)
  let ?self = "self\<lparr>cc_packetSize := m, cc_readBuffer := rb\<rparr>"
  obtain b where b: "CotpConnection_parseIncomingMessage ?self =
      Some (if final then COTP_DATA_INDICATION else COTP_MORE_FRAGMENTS_FOLLOW,
        ?self\<lparr>cc_isLastDataUnit := final, cc_payload := b, cc_readBuffer := rb\<lparr>bb_size := 0\<rparr>, cc_packetSize := 0\<rparr>)"
      "bb_wf b" "bb_maxSize b = bb_maxSize (cc_payload self)" "bb_bytes b = bb_bytes (cc_payload self) @ xs"
    using parse_data_packet [of ?self final xs] r(2,4) self xs(1) by (auto simp: ready_def)
  have "\<forall>n room. ready n (int (length xs) + room) self \<longrightarrow> ready n room
      (?self\<lparr>cc_isLastDataUnit := final, cc_payload := b, cc_readBuffer := rb\<lparr>bb_size := 0\<rparr>, cc_packetSize := 0\<rparr>)"
    using b(2-4) r(2,3) bb_bytes_length [OF b(2)] bb_bytes_length [of "cc_payload self"]
    by (auto simp: ready_def bb_wf_def)
  then show ?thesis using r(1,5) b(1,4) by (intro exI conjI) (assumption | simp)+
qed

lemma ready_mono: "ready n room self \<Longrightarrow> n' \<le> n \<Longrightarrow> room' \<le> room \<Longrightarrow> ready n' room' self"
  by (auto simp: ready_def)

lemma cotp_receive_message:
  assumes net: "socket_ok wire inbox net" "delivers inbox net" and m: "0 < m" "m < 65529"
    and "xs \<noteq> []" and "ready (7 + int m) (int (length xs)) self"
    and "inbox w = tpkt_stream m xs @ rest" and "length (inbox w) < p" and "length xs \<le> n"
  shows "\<exists>self' w'. cotp_receive net p n self w = Some (COTP_DATA_INDICATION, self', w') \<and>
    bb_bytes (cc_payload self') = bb_bytes (cc_payload self) @ xs \<and> inbox w' = rest \<and> ready (7 + int m) 0 self'"
  using assms(5-)
proof (induction "length xs" arbitrary: xs self w n rule: less_induct)
  case less
  obtain n' where n: "n = Suc n'" using less.prems(1,5) by (cases n) auto
  show ?case
  proof (cases "length xs \<le> m")
    case True
    have "ready (7 + int (length xs)) (int (length xs)) self"
      using less.prems(2) True by (auto elim: ready_mono)
    moreover have "inbox w = tpkt_data True xs @ rest"
      using less.prems(3) True by (subst (asm) tpkt_stream.simps) simp
    ultimately obtain s1 s2 w1 where r: "tpkt_poll net p self w = Some (TPKT_PACKET_COMPLETE, s1, w1)" "inbox w1 = rest"
        "CotpConnection_parseIncomingMessage s1 = Some (COTP_DATA_INDICATION, s2)"
        "bb_bytes (cc_payload s2) = bb_bytes (cc_payload self) @ xs"
        "\<forall>k room. ready k (int (length xs) + room) self \<longrightarrow> ready k room s2"
      using receive_packet [OF net, of xs self w True rest p] less.prems(1,4) True m(2) by auto
    then show ?thesis using n less.prems(2) by simp
  next
    case False
    let ?ys = "take m xs" and ?zs = "drop m xs"
    have st: "inbox w = tpkt_data False ?ys @ tpkt_stream m ?zs @ rest"
      using less.prems(3) False m(1) by (subst (asm) tpkt_stream.simps) simp
    have "ready (7 + int (length ?ys)) (int (length ?ys)) self"
      using less.prems(2) False by (auto elim: ready_mono)
    then obtain s1 s2 w1 where r: "tpkt_poll net p self w = Some (TPKT_PACKET_COMPLETE, s1, w1)"
        "inbox w1 = tpkt_stream m ?zs @ rest"
        "CotpConnection_parseIncomingMessage s1 = Some (COTP_MORE_FRAGMENTS_FOLLOW, s2)"
        "bb_bytes (cc_payload s2) = bb_bytes (cc_payload self) @ ?ys"
        "\<forall>k room. ready k (int (length ?ys) + room) self \<longrightarrow> ready k room s2"
      using receive_packet [OF net _ _ _ st less.prems(4), of self] less.prems(1) False m by auto
    have "ready (7 + int m) (int (length ?zs)) s2"
      using r(5) less.prems(2) False by (auto simp: of_nat_diff)
    then have "\<exists>self' w'. cotp_receive net p n' s2 w1 = Some (COTP_DATA_INDICATION, self', w') \<and>
        bb_bytes (cc_payload self') = bb_bytes (cc_payload s2) @ ?zs \<and> inbox w' = rest \<and> ready (7 + int m) 0 self'"
      using less.hyps [of ?zs s2 w1 n'] False m(1) r(2) st less.prems(4,5) n by auto
    then show ?thesis using n r(1,3,4) by auto
  qed
qed

text \<open>
  C3: The transport service. A message that one side sends with \<open>COTP_OK\<close> and flushes, over
  sockets that accept and deliver the octets in pieces of any size, arrives at the other
  side as one data indication whose payload is exactly the octets of the message,
  although it travels in fragments of the negotiated size. Nothing that follows is consumed.
\<close>

theorem transport_roundtrip:
  assumes "bytebuffer_ok api" and "socket_ok wire inbox1 net1" and "ext_ok a"
    and "uint (tpduSize (cc_options a)) = int e" and "2 \<le> e" and "e \<le> 13" and "wb_ok (2 ^ e + 4) a"
    and "chain_wf payload" and "0 < bc_length payload" and "bc_length payload < 2 ^ 27"
    and "wire v = []" and "cotp_pending a = []"
    and "CotpConnection_sendDataMessage api net1 a payload v = Some (COTP_OK, a', v')" and "cotp_pending a' = []"
    and "socket_ok out inbox net" "delivers inbox net"
    and "ready (2 ^ e + 4) (bc_length payload) b" and "bb_size (cc_payload b) = 0"
    and "inbox w = wire v' @ rest"
  shows "\<exists>b' w'. cotp_receive net (Suc (length (inbox w))) (nat (bc_length payload)) b w =
      Some (COTP_DATA_INDICATION, b', w') \<and>
    bb_bytes (cc_payload b') = chain_bytes payload \<and> inbox w' = rest"
proof -
  let ?m = "2 ^ e - 3 :: nat"
  have pow: "4 \<le> (2 :: nat) ^ e" "(2 :: nat) ^ e \<le> 8192"
    using power_increasing [of 2 e "2 :: nat"] power_increasing [of e 13 "2 :: nat"] assms(5,6) by simp_all
  then have m: "0 < ?m" "?m < 65529" "7 + int ?m = 2 ^ e + 4" by (auto simp: of_nat_diff)
  have len: "int (length (chain_bytes payload)) = bc_length payload" using chain_length [OF assms(8)] .
  have "wire v' = tpkt_stream ?m (chain_bytes payload)"
    using sendDataMessage_run [OF assms(1-8,10), of v] assms(11-14) by auto
  moreover have "chain_bytes payload \<noteq> []" "length (chain_bytes payload) \<le> nat (bc_length payload)"
    using len assms(9) by auto
  moreover have "bb_bytes (cc_payload b) = []" using assms(18) by (simp add: bb_bytes_def octets_at_def)
  ultimately show ?thesis
    using cotp_receive_message [OF assms(15,16) m(1,2), of "chain_bytes payload" b w rest "Suc (length (inbox w))" "nat (bc_length payload)"]
      assms(17,19) m(3) len by auto
qed


lemma example_sent:
  "case CotpConnection_sendDataMessage plain_bytebuffer (chunk_net 100) example_receiver example_message ([], []) of
     None \<Rightarrow> False | Some (ind, a, v) \<Rightarrow> ind = COTP_OK \<and> cotp_pending a = []"
  by code_simp

theorem transport_roundtrip_witness:
  "\<exists>a' v' b' w'. CotpConnection_sendDataMessage plain_bytebuffer (chunk_net 100) example_receiver example_message ([], []) =
      Some (COTP_OK, a', v') \<and>
    cotp_receive (chunk_net 3) (Suc (length (fst v'))) 7 example_receiver ([], fst v') = Some (COTP_DATA_INDICATION, b', w') \<and>
    bb_bytes (cc_payload b') = [1, 0, 1, 0, 0x61, 0x62, 0x63]"
proof -
  obtain a' v' where s: "CotpConnection_sendDataMessage plain_bytebuffer (chunk_net 100) example_receiver example_message ([], []) =
      Some (COTP_OK, a', v')" "cotp_pending a' = []"
    using example_sent by (auto split: option.splits)
  have "ext_ok example_receiver" "uint (tpduSize (cc_options example_receiver)) = int 3" "wb_ok (2 ^ 3 + 4) example_receiver"
      "chain_wf example_message" "0 < bc_length example_message" "bc_length example_message < 2 ^ 27"
      "cotp_pending example_receiver = []" "ready (2 ^ 3 + 4) (bc_length example_message) example_receiver"
      "bb_size (cc_payload example_receiver) = 0" "nat (bc_length example_message) = 7"
      "chain_bytes example_message = [1, 0, 1, 0, 0x61, 0x62, 0x63]"
    by (simp_all add: example_receiver_def example_defs ext_ok_def wb_ok_def valid_range_def cotp_pending_def octets_at_def
        ready_def bb_wf_def)
  with transport_roundtrip [OF plain_bytebuffer_ok chunk_net_ok this(1,2) _ _ this(3-6) _ this(7) s chunk_net_ok
      chunk_net_delivers this(8,9), of 3 "([], fst v')" "[]"] s
  show ?thesis by auto
qed

end
