(* ===== verification/Cotp_Connect.thy ===== *)
theory Cotp_Connect
  imports Cotp_Receive
begin

text \<open>
  The connection TPDUs: their options are parsed without leaving the read buffer, what
  one side writes the other reads back, and every packet keeps the connection
  well-formed.
\<close>

section \<open>Parsing options is safe\<close>

text \<open>
  The code shifts 1 by the octet of a TPDU size option; shifts by 31 and more are
  undefined.
\<close>

definition no_wide_shift :: "ptr \<Rightarrow> int \<Rightarrow> bool" where
  "no_wide_shift buffer n \<longleftrightarrow> (\<forall>i x. 0 \<le> i \<longrightarrow> i < n \<longrightarrow> rd buffer i = Some 0xc0 \<longrightarrow> rd buffer (i + 1) = Some 1 \<longrightarrow>
     rd buffer (i + 2) = Some x \<longrightarrow> uint x < 31)"

definition options_ok :: "CotpOptions \<Rightarrow> bool" where
  "options_ok opts \<longleftrightarrow> selector_ok 4 (tSelSrc opts) \<and> selector_ok 4 (tSelDst opts) \<and> uint (tpduSize opts) \<le> 13"

lemma setTpduSize_options:
  assumes "options_ok (cc_options self)"
  shows "\<exists>opts. CotpConnection_setTpduSize self n = Some (self\<lparr>cc_options := opts\<rparr>) \<and> options_ok opts"
proof -
  obtain e where e: "e \<le> 13" "CotpConnection_setTpduSize self n =
      Some (self\<lparr>cc_options := (cc_options self)\<lparr>tpduSize := of_nat e\<rparr>\<rparr>)"
    using setTpduSize_result by blast
  moreover have "uint (of_nat e :: byte) \<le> 13"
    using e(1) by (simp add: unsigned_of_nat take_bit_eq_mod)
  ultimately show ?thesis using assms by (auto simp: options_ok_def)
qed

lemma parseOptions_loop_total:
  assumes v: "valid_range buffer 0 (bufLen + 1)" and s: "no_wide_shift buffer bufLen"
    and "0 \<le> bufPos" and "options_ok (cc_options self)"
  shows "\<exists>ok opts. parseOptions_loop self buffer bufLen bufPos = Some (ok, self\<lparr>cc_options := opts\<rparr>) \<and> options_ok opts"
  using assms(3-)
proof (induction "nat (bufLen - bufPos)" arbitrary: self bufPos rule: less_induct)
  case less
  have stop: ?case if "parseOptions_loop self buffer bufLen bufPos = Some (ok, self)" for ok
    using that less.prems(2) by (intro exI [of _ ok] exI [of _ "cc_options self"]) simp
  show ?case
  proof (cases "bufPos < bufLen")
    case False
    then show ?thesis by (intro stop [of True]) (subst parseOptions_loop.simps, simp)
  next
    case True
    obtain t l where tl: "rd buffer bufPos = Some t" "rd buffer (bufPos + 1) = Some l"
      using rd_valid [OF v, of bufPos] rd_valid [OF v, of "bufPos + 1"] True less.prems(1) by auto
    have IH: "\<exists>ok opts'. parseOptions_loop (self\<lparr>cc_options := opts\<rparr>) buffer bufLen pos = Some (ok, self\<lparr>cc_options := opts'\<rparr>) \<and>
        options_ok opts'" if "bufPos < pos" "options_ok opts" for pos opts
      using less.hyps [of pos "self\<lparr>cc_options := opts\<rparr>"] that less.prems(1) True by simp
    have adv: "bufPos < bufPos + 2 + uint l" using byte_bound [of l] by linarith
    note IH0 = IH [of _ "cc_options self", simplified]
    have sel: "\<exists>v. read_octets buffer (uint l) (bufPos + 2) (sel_value sel) = Some (v, bufPos + 2 + uint l) \<and>
        selector_ok 4 \<lparr>sel_size = l, sel_value = v\<rparr>"
      if "l < 5" "\<not> uint l > bufLen - (bufPos + 2)" "selector_ok 4 sel" for sel
    proof -
      have "uint l < 5" using that(1) by (simp add: word_less_def)
      then show ?thesis
        using read_octets_valid [of buffer "bufPos + 2" "uint l" "sel_value sel"] v that(2,3) less.prems(1)
        by (auto simp: valid_range_def selector_ok_def nat_le_iff simp flip: nat_uint_eq)
    qed
    consider (long) "uint l > bufLen - (bufPos + 2)"
      | (size) "\<not> uint l > bufLen - (bufPos + 2)" "t = 0xc0" "l = 1"
      | (src) "\<not> uint l > bufLen - (bufPos + 2)" "t = 0xc1" "l < 5"
      | (dst) "\<not> uint l > bufLen - (bufPos + 2)" "t = 0xc2" "l < 5"
      | (error) "\<not> uint l > bufLen - (bufPos + 2)" "t = 0xc0 \<and> l \<noteq> 1 \<or> (t = 0xc1 \<or> t = 0xc2) \<and> \<not> l < 5 \<or> t = 0xc6 \<and> l \<noteq> 1"
      | (skip) "\<not> uint l > bufLen - (bufPos + 2)" "t \<notin> {0xc0, 0xc1, 0xc2}" "t = 0xc6 \<longrightarrow> l = 1"
      by blast
    then show ?thesis
    proof cases
      case long
      then show ?thesis using True tl by (intro stop [of False]) (subst parseOptions_loop.simps, simp)
    next
      case size
      then obtain x where x: "rd buffer (bufPos + 2) = Some x" "uint x < 31"
        using rd_valid [OF v, of "bufPos + 2"] s tl less.prems(1) True unfolding no_wide_shift_def by fastforce
      obtain opts where "CotpConnection_setTpduSize self (2 ^ unat x) = Some (self\<lparr>cc_options := opts\<rparr>)" "options_ok opts"
        using setTpduSize_options [OF less.prems(2)] by blast
      then show ?thesis using True tl x size IH [of "bufPos + 3" opts]
        by (subst parseOptions_loop.simps) (simp add: shl1_def add.assoc)
    next
      case src
      then obtain v where v: "read_octets buffer (uint l) (bufPos + 2) (sel_value (tSelSrc (cc_options self))) =
          Some (v, bufPos + 2 + uint l)" "selector_ok 4 \<lparr>sel_size = l, sel_value = v\<rparr>"
        using sel less.prems(2) by (auto simp: options_ok_def)
      let ?opts = "(cc_options self)\<lparr>tSelSrc := \<lparr>sel_size = l, sel_value = v\<rparr>\<rparr>"
      have "options_ok ?opts" using v(2) less.prems(2) by (simp add: options_ok_def)
      from IH [OF adv this] show ?thesis using True tl src v(1)
        by (subst parseOptions_loop.simps) (simp add: add.assoc)
    next
      case dst
      then obtain v where v: "read_octets buffer (uint l) (bufPos + 2) (sel_value (tSelDst (cc_options self))) =
          Some (v, bufPos + 2 + uint l)" "selector_ok 4 \<lparr>sel_size = l, sel_value = v\<rparr>"
        using sel less.prems(2) by (auto simp: options_ok_def)
      let ?opts = "(cc_options self)\<lparr>tSelDst := \<lparr>sel_size = l, sel_value = v\<rparr>\<rparr>"
      have "options_ok ?opts" using v(2) less.prems(2) by (simp add: options_ok_def)
      from IH [OF adv this] show ?thesis using True tl dst v(1)
        by (subst parseOptions_loop.simps) (simp add: add.assoc)
    next
      case error
      then show ?thesis using True tl by (intro stop [of False]) (subst parseOptions_loop.simps, auto)
    next
      case skip
      from IH0 [OF adv less.prems(2)] show ?thesis using True tl skip
        by (subst parseOptions_loop.simps) (cases "t = 0xc6"; simp add: add.assoc Let_def)
    qed
  qed
qed

section \<open>Every packet keeps the connection well-formed\<close>

definition cotp_wf :: "CotpConnection \<Rightarrow> bool" where
  "cotp_wf self \<longleftrightarrow> bb_wf (cc_payload self) \<and> bb_wf (cc_readBuffer self) \<and> options_ok (cc_options self) \<and> ext_ok self"

lemma ext_ok_fields [simp]:
  "ext_ok (self\<lparr>cc_payload := p\<rparr>) = ext_ok self" "ext_ok (self\<lparr>cc_isLastDataUnit := l\<rparr>) = ext_ok self"
  "ext_ok (self\<lparr>cc_options := opts\<rparr>) = ext_ok self" "ext_ok (self\<lparr>cc_remoteRef := r\<rparr>) = ext_ok self"
  "ext_ok (self\<lparr>cc_protocolClass := c\<rparr>) = ext_ok self"
  by (simp_all add: ext_ok_def split: option.split)

lemma no_wide_shift_mono: "no_wide_shift p n \<Longrightarrow> m \<le> n \<Longrightarrow> no_wide_shift p m"
  unfolding no_wide_shift_def by (meson less_le_trans)

text \<open>The two connection TPDUs differ in where the reference of the peer is.\<close>

lemma parseConnect_total:
  assumes wf: "cotp_wf self" and v: "valid_range buffer 0 255" and s: "no_wide_shift (padd buffer 5) 249"
  shows "\<exists>ok self'. parseConnectRequestTpdu self buffer len = Some (ok, self') \<and> cotp_wf self' \<and>
      cc_payload self' = cc_payload self \<and> cc_readBuffer self' = cc_readBuffer self"
    and "\<exists>ok self'. parseConnectConfirmTpdu self buffer len = Some (ok, self') \<and> cotp_wf self' \<and>
      cc_payload self' = cc_payload self \<and> cc_readBuffer self' = cc_readBuffer self"
proof -
  have opts: "\<exists>ok opts. parseOptions (self\<lparr>cc_remoteRef := r, cc_protocolClass := c\<rparr>) (padd buffer 5) (uint len - 6) =
      Some (ok, self\<lparr>cc_remoteRef := r, cc_protocolClass := c, cc_options := opts\<rparr>) \<and> options_ok opts" for r c
    unfolding parseOptions_def
  proof (rule parseOptions_loop_total)
    show "valid_range (padd buffer 5) 0 (uint len - 6 + 1)"
      using v byte_bound [of len] by (auto simp: valid_range_def)
    show "no_wide_shift (padd buffer 5) (uint len - 6)"
      using byte_bound [of len] by (intro no_wide_shift_mono [OF s]) linarith
  qed (use wf in \<open>auto simp: cotp_wf_def\<close>)
  have rd: "\<exists>x. rd buffer i = Some x" if "0 \<le> i" "i < 255" for i
    using rd_valid [OF v that] .
  obtain r1 r2 c where r: "getUint16 (padd buffer 2) = Some r1" "getUint16 buffer = Some r2" "getUint8 (padd buffer 4) = Some c"
    using rd [of 0] rd [of 1] rd [of 2] rd [of 3] rd [of 4] by (auto simp: getUint16_def getUint8_def)
  have wf': "cotp_wf (self\<lparr>cc_remoteRef := r, cc_protocolClass := c, cc_options := opts\<rparr>)" if "options_ok opts" for r c opts
    using wf that by (simp add: cotp_wf_def)
  show "\<exists>ok self'. parseConnectRequestTpdu self buffer len = Some (ok, self') \<and> cotp_wf self' \<and>
      cc_payload self' = cc_payload self \<and> cc_readBuffer self' = cc_readBuffer self"
    using opts [where r = r1 and c = "uint c"] r wf wf' by (cases "len < 6") (auto simp: parseConnectRequestTpdu_def)
  show "\<exists>ok self'. parseConnectConfirmTpdu self buffer len = Some (ok, self') \<and> cotp_wf self' \<and>
      cc_payload self' = cc_payload self \<and> cc_readBuffer self' = cc_readBuffer self"
    using opts [where r = r2 and c = "uint c"] r wf wf' by (cases "len < 6") (auto simp: parseConnectConfirmTpdu_def)
qed

lemma addPayloadToBuffer_total:
  assumes wf: "cotp_wf self" and v: "valid_range buffer 0 n"
  shows "\<exists>ok b ys. addPayloadToBuffer self buffer n = Some (ok, self\<lparr>cc_payload := b\<rparr>) \<and> bb_wf b \<and>
    bb_maxSize b = bb_maxSize (cc_payload self) \<and> bb_bytes b = bb_bytes (cc_payload self) @ ys"
proof (cases "n < 1 \<or> bb_size (cc_payload self) + n > bb_maxSize (cc_payload self)")
  case True
  then have "addPayloadToBuffer self buffer n = Some (False, self)" by (auto simp: addPayloadToBuffer_def Let_def)
  then show ?thesis using wf
    by (intro exI [of _ False] exI [of _ "cc_payload self"] exI [of _ "[]"]) (simp add: cotp_wf_def)
next
  case False
  then have xs: "rdn buffer 0 (nat n) = Some (octets_at buffer n)" using v by (intro rdn_octets_at) auto
  note m = memcpy_append [OF _ xs, of "cc_payload self"]
  let ?b = "(cc_payload self)\<lparr>bb_buffer := store (bb_buffer (cc_payload self)) (bb_size (cc_payload self)) (octets_at buffer n),
    bb_size := bb_size (cc_payload self) + n\<rparr>"
  have "addPayloadToBuffer self buffer n = Some (True, self\<lparr>cc_payload := ?b\<rparr>)"
    using False m(1) wf by (simp add: addPayloadToBuffer_def cotp_wf_def store_def Let_def)
  then show ?thesis using False m(2,3) wf
    by (intro exI [of _ True] exI [of _ ?b] exI [of _ "octets_at buffer n"]) (simp add: cotp_wf_def)
qed

lemma parseCotpMessage_total:
  assumes wf: "cotp_wf self" and len: "4 < bb_size (cc_readBuffer self)" and max: "262 \<le> bb_maxSize (cc_readBuffer self)"
    and s: "no_wide_shift (padd (bb_buffer (cc_readBuffer self)) 11) 249"
  shows "\<exists>ind self' ys. parseCotpMessage self = Some (ind, self') \<and> cotp_wf self' \<and>
    bb_bytes (cc_payload self') = bb_bytes (cc_payload self) @ ys \<and> cc_readBuffer self' = cc_readBuffer self"
proof -
  let ?rb = "cc_readBuffer self"
  let ?buffer = "padd (bb_buffer ?rb) 4"
  have v: "valid_range (bb_buffer ?rb) 0 (max 262 (bb_size ?rb))"
    using wf max bb_wf_range [of ?rb] by (auto simp: cotp_wf_def bb_wf_def valid_range_def)
  obtain l t f where r: "rd ?buffer 0 = Some l" "rd ?buffer 1 = Some t" "rd ?buffer 2 = Some f"
    using rd_valid [OF v, of 4] rd_valid [OF v, of 5] rd_valid [OF v, of 6] by (auto simp: less_max_iff_disj)
  have vc: "valid_range (padd ?buffer 2) 0 255" using v by (auto simp: valid_range_def)
  have sc: "no_wide_shift (padd (padd ?buffer 2) 5) 249" using s by (simp add: padd_def add.commute)
  consider (long) "uint l > bb_size ?rb - 4"
    | (request) "\<not> uint l > bb_size ?rb - 4" "t = 0xe0"
    | (confirm) "\<not> uint l > bb_size ?rb - 4" "t = 0xd0"
    | (data) "\<not> uint l > bb_size ?rb - 4" "t = 0xf0" "l = 2"
    | (error) "\<not> uint l > bb_size ?rb - 4" "t \<notin> {0xe0, 0xd0, 0xf0} \<or> t = 0xf0 \<and> l \<noteq> 2"
    by blast
  then show ?thesis
  proof cases
    case request
    obtain ok self' where "parseConnectRequestTpdu self (padd ?buffer 2) l = Some (ok, self')" "cotp_wf self'"
      "cc_payload self' = cc_payload self" "cc_readBuffer self' = ?rb"
      using parseConnect_total(1) [OF wf vc sc, of l] by (elim exE conjE) (rule that)
    then show ?thesis using request r by (simp add: parseCotpMessage_def Let_def)
  next
    case confirm
    obtain ok self' where "parseConnectConfirmTpdu self (padd ?buffer 2) l = Some (ok, self')" "cotp_wf self'"
      "cc_payload self' = cc_payload self" "cc_readBuffer self' = ?rb"
      using parseConnect_total(2) [OF wf vc sc, of l] by (elim exE conjE) (rule that)
    then show ?thesis using confirm r by (simp add: parseCotpMessage_def Let_def)
  next
    case data
    let ?self = "self\<lparr>cc_isLastDataUnit := (f AND 0x80 \<noteq> 0)\<rparr>"
    have "cotp_wf ?self" using wf by (simp add: cotp_wf_def)
    moreover have "valid_range (padd ?buffer 3) 0 (bb_size ?rb - 7)" using v by (auto simp: valid_range_def)
    ultimately obtain ok b ys where a: "addPayloadToBuffer ?self (padd ?buffer 3) (bb_size ?rb - 7) = Some (ok, ?self\<lparr>cc_payload := b\<rparr>)"
      "bb_wf b" "bb_bytes b = bb_bytes (cc_payload ?self) @ ys"
      using addPayloadToBuffer_total by blast
    have "cotp_wf (?self\<lparr>cc_payload := b\<rparr>)" using wf a(2) by (simp add: cotp_wf_def)
    then show ?thesis using data r a(1,3)
      by (simp add: parseCotpMessage_def Let_def parseDataTpdu_def getUint8_def)
  qed (use wf r in \<open>auto simp: parseCotpMessage_def Let_def parseDataTpdu_def\<close>)
qed


definition example_packet :: "byte list \<Rightarrow> CotpConnection" where
  "example_packet xs = example_connection\<lparr>cc_readBuffer :=
     \<lparr>bb_buffer = (xs @ replicate (300 - length xs) 0, 0), bb_size = int (length xs), bb_maxSize = 300\<rparr>\<rparr>"

lemma no_wide_shift_code:
  "no_wide_shift buffer n \<longleftrightarrow> (\<forall>i \<in> set [0..n - 1]. rd buffer i = Some 0xc0 \<and> rd buffer (i + 1) = Some 1 \<longrightarrow>
     (case rd buffer (i + 2) of None \<Rightarrow> True | Some x \<Rightarrow> uint x < 31))"
  by (fastforce simp: no_wide_shift_def split: option.splits)


text \<open>
  C11: The value of a TPDU size option is used as the distance of a shift of the \<open>int\<close> 1
  without a check. Every connection request with that option alone and a value of 31 or
  more has no defined behaviour, whatever state the connection is in.
\<close>

theorem wide_tpdu_size_undefined:
  assumes "bb_bytes (cc_readBuffer self) = [3, 0, 0, 14, 9, 0xe0, 0, 0, r, s, 0, 0xc0, 1, x]"
    and "bb_wf (cc_readBuffer self)" and "31 \<le> uint x"
  shows "CotpConnection_parseIncomingMessage self = None"
proof -
  let ?rb = "cc_readBuffer self"
  have len: "bb_size ?rb = 14"
    using bb_bytes_length [OF assms(2)] assms(1) by simp
  have "rd (bb_buffer ?rb) (int i) = Some ([3, 0, 0, 14, 9, 0xe0, 0, 0, r, s, 0, 0xc0, 1, x] ! i)" if "i < 14" for i
    using rd_bb_bytes [OF assms(2), of i] len that unfolding assms(1) by simp
  from this [of 4] this [of 5] this [of 8] this [of 9] this [of 10] this [of 11] this [of 12] this [of 13]
  have r: "rd (bb_buffer ?rb) 4 = Some 9" "rd (bb_buffer ?rb) 5 = Some 0xe0" "rd (bb_buffer ?rb) 8 = Some r"
    "rd (bb_buffer ?rb) 9 = Some s" "rd (bb_buffer ?rb) 10 = Some 0" "rd (bb_buffer ?rb) 11 = Some 0xc0"
    "rd (bb_buffer ?rb) 12 = Some 1" "rd (bb_buffer ?rb) 13 = Some x"
    by simp_all
  then have "parseCotpMessage self = None" using assms(3) len
    by (simp add: parseCotpMessage_def Let_def parseConnectRequestTpdu_def getUint16_def getUint8_def parseOptions_def
        parseOptions_loop.simps shl1_def)
  then show ?thesis by (simp add: CotpConnection_parseIncomingMessage_def)
qed

theorem wide_tpdu_size_undefined_witness:
  "CotpConnection_parseIncomingMessage (example_packet [3, 0, 0, 14, 9, 0xe0, 0, 0, 0, 1, 0, 0xc0, 1, 40]) = None"
  by (rule wide_tpdu_size_undefined [of _ 0 1 40])
    (simp_all add: example_packet_def bb_bytes_def octets_at_def bb_wf_def valid_range_def)

end
