(* ===== verification/Iso_Session.thy ===== *)
theory Iso_Session
  imports Stack_Buffers Iso_Connection_Parameters
begin

text \<open>
  The session layer (\<^verbatim>\<open>iso_session/iso_session.c\<close>). A session protocol data unit (SPDU)
  is a type octet, a length octet and a list of parameters, the last of which is the user
  data. The encoders write the header into the first part of a buffer chain and append the
  payload as its next part; the parser walks over the parameters of a received message and
  wraps the rest of it as user data.

  Every encoder of a part of the header is the emission of an octet string (collection
  \<open>emits\<close>), every step of the parser reads one such string back. The properties compose
  these facts.
\<close>

declare split_paired_All [simp del] split_paired_Ex [simp del]

section \<open>Data\<close>

record IsoSession =
  callingSessionSelector :: SSelector
  calledSessionSelector :: SSelector
  sessionRequirement :: "16 word"
  protocolOptions :: byte
  ss_userData :: ByteBuffer

datatype IsoSessionIndication = SESSION_OK | SESSION_ERROR | SESSION_CONNECT | SESSION_GIVE_TOKEN | SESSION_DATA
  | SESSION_ABORT | SESSION_FINISH | SESSION_DISCONNECT | SESSION_NOT_FINISHED

section \<open>Parsing\<close>

partial_function (option) parseAcceptParameters_loop ::
  "IsoSession \<Rightarrow> ByteBuffer \<Rightarrow> int \<Rightarrow> int \<Rightarrow> bool \<Rightarrow> bool \<Rightarrow> int \<Rightarrow> (int \<times> IsoSession) option" where
  "parseAcceptParameters_loop session message startOffset maxOffset hasProtocolOptions hasProtocolVersion offset =
     (if offset < maxOffset then do {
        pi \<leftarrow> rd (bb_buffer message) offset;
        param_len \<leftarrow> rd (bb_buffer message) (offset + 1);
        let offset = offset + 2;
        if pi = 19 then
          if param_len \<noteq> 1 then Some (-1, session)
          else do {
            v \<leftarrow> rd (bb_buffer message) offset;
            parseAcceptParameters_loop (session\<lparr>protocolOptions := v\<rparr>) message startOffset maxOffset
              True hasProtocolVersion (offset + 1) }
        else if pi = 21 then
          parseAcceptParameters_loop session message startOffset maxOffset hasProtocolOptions hasProtocolVersion (offset + 4)
        else if pi = 22 then do {
          param_val \<leftarrow> rd (bb_buffer message) offset;
          if param_val \<noteq> 2 then Some (-1, session)
          else parseAcceptParameters_loop session message startOffset maxOffset hasProtocolOptions True (offset + 1) }
        else if pi = 26 then do {
          param_val \<leftarrow> rd (bb_buffer message) offset;
          parseAcceptParameters_loop session message startOffset maxOffset hasProtocolOptions hasProtocolVersion (offset + 1) }
        else if pi = 23 \<or> pi = 55 \<or> pi = 56 \<or> pi = 57 \<or> pi = 58 then
          parseAcceptParameters_loop session message startOffset maxOffset hasProtocolOptions hasProtocolVersion
            (offset + uint param_len)
        else
          parseAcceptParameters_loop session message startOffset maxOffset hasProtocolOptions hasProtocolVersion offset }
      else Some (if hasProtocolOptions \<and> hasProtocolVersion then offset - startOffset else -1, session))"

definition parseAcceptParameters :: "IsoSession \<Rightarrow> ByteBuffer \<Rightarrow> int \<Rightarrow> int \<Rightarrow> (int \<times> IsoSession) option" where
  "parseAcceptParameters session message startOffset parameterLength =
     parseAcceptParameters_loop session message startOffset (startOffset + parameterLength) False False startOffset"

partial_function (option) parseSessionHeaderParameters_loop ::
  "ByteBufferApi \<Rightarrow> IsoSession \<Rightarrow> ByteBuffer \<Rightarrow> int \<Rightarrow> int \<Rightarrow> (IsoSessionIndication \<times> IsoSession) option" where
  "parseSessionHeaderParameters_loop api session message parametersOctets offset =
     (if offset < parametersOctets + 2 then do {
        pgi \<leftarrow> rd (bb_buffer message) offset;
        parameterLength \<leftarrow> rd (bb_buffer message) (offset + 1);
        let offset = offset + 2;
        if pgi = 1 \<or> pgi = 17 \<or> pgi = 25 \<or> pgi = 49 \<or> pgi = 60 then
          parseSessionHeaderParameters_loop api session message parametersOctets (offset + uint parameterLength)
        else if pgi = 5 then do {
          (connectAcceptLen, session) \<leftarrow> parseAcceptParameters session message offset (uint parameterLength);
          if connectAcceptLen = -1 then Some (SESSION_ERROR, session)
          else parseSessionHeaderParameters_loop api session message parametersOctets (offset + connectAcceptLen) }
        else if pgi = 20 then
          if parameterLength \<noteq> 2 then Some (SESSION_ERROR, session)
          else do {
            hi \<leftarrow> rd (bb_buffer message) offset;
            let session = session\<lparr>sessionRequirement := word_of_int (uint hi * 0x100)\<rparr>;
            lo \<leftarrow> rd (bb_buffer message) (offset + 1);
            let session = session\<lparr>sessionRequirement := sessionRequirement session + ucast lo\<rparr>;
            parseSessionHeaderParameters_loop api session message parametersOctets (offset + 2) }
        else if pgi = 51 then
          if parameterLength > 16 then Some (SESSION_ERROR, session)
          else do {
            (v, offset) \<leftarrow> read_octets (bb_buffer message) (uint parameterLength) offset
              (sel_value (callingSessionSelector session));
            parseSessionHeaderParameters_loop api
              (session\<lparr>callingSessionSelector := \<lparr>sel_size = parameterLength, sel_value = v\<rparr>\<rparr>)
              message parametersOctets offset }
        else if pgi = 52 then
          if parameterLength > 16 then Some (SESSION_ERROR, session)
          else do {
            (v, offset) \<leftarrow> read_octets (bb_buffer message) (uint parameterLength) offset
              (sel_value (calledSessionSelector session));
            parseSessionHeaderParameters_loop api
              (session\<lparr>calledSessionSelector := \<lparr>sel_size = parameterLength, sel_value = v\<rparr>\<rparr>)
              message parametersOctets offset }
        else if pgi = 193 then
          Some (SESSION_OK, session\<lparr>ss_userData := ByteBuffer_wrap api (padd (bb_buffer message) offset)
            (bb_size message - offset) (bb_maxSize message - offset)\<rparr>)
        else parseSessionHeaderParameters_loop api session message parametersOctets offset }
      else Some (SESSION_ERROR, session))"

definition parseSessionHeaderParameters ::
  "ByteBufferApi \<Rightarrow> IsoSession \<Rightarrow> ByteBuffer \<Rightarrow> int \<Rightarrow> (IsoSessionIndication \<times> IsoSession) option" where
  "parseSessionHeaderParameters api session message parametersOctets =
     parseSessionHeaderParameters_loop api session message parametersOctets 2"

text \<open>The four SPDUs whose parameters are parsed differ in the indication they give.\<close>

definition parse_parameters_as ::
  "IsoSessionIndication \<Rightarrow> ByteBufferApi \<Rightarrow> IsoSession \<Rightarrow> ByteBuffer \<Rightarrow> byte \<Rightarrow> (IsoSessionIndication \<times> IsoSession) option" where
  "parse_parameters_as indication api self message len =
     (if uint len \<noteq> bb_size message - 2 then Some (SESSION_ERROR, self)
      else do {
        (result, self) \<leftarrow> parseSessionHeaderParameters api self message (uint len);
        Some (if result = SESSION_OK then indication else SESSION_ERROR, self) })"

definition IsoSession_parseMessage ::
  "ByteBufferApi \<Rightarrow> IsoSession \<Rightarrow> ByteBuffer \<Rightarrow> (IsoSessionIndication \<times> IsoSession) option" where
  "IsoSession_parseMessage api self message = do {
     let buffer = bb_buffer message;
     if bb_size message > 1 then do {
       id \<leftarrow> rd buffer 0;
       len \<leftarrow> rd buffer 1;
       if id = 13 then parse_parameters_as SESSION_CONNECT api self message len
       else if id = 14 then parse_parameters_as SESSION_CONNECT api self message len
       else if id = 1 then
         if bb_size message < 4 then Some (SESSION_ERROR, self)
         else do {
           data \<leftarrow> (if len = 0 then do {
               b2 \<leftarrow> rd buffer 2;
               if b2 = 1 then do { b3 \<leftarrow> rd buffer 3; Some (b3 = 0) } else Some False } else Some False);
           if data
           then Some (SESSION_DATA, self\<lparr>ss_userData :=
             ByteBuffer_wrap api (padd buffer 4) (bb_size message - 4) (bb_maxSize message - 4)\<rparr>)
           else Some (SESSION_ERROR, self) }
       else if id = 8 then Some (SESSION_NOT_FINISHED, self)
       else if id = 9 then parse_parameters_as SESSION_FINISH api self message len
       else if id = 10 then parse_parameters_as SESSION_DISCONNECT api self message len
       else if id = 25 then Some (SESSION_ABORT, self)
       else Some (SESSION_ERROR, self) }
     else Some (SESSION_ERROR, self) }"

section \<open>Encoding\<close>

definition dataSpdu :: "byte list" where
  "dataSpdu = [0x01, 0x00, 0x01, 0x00]"

definition IsoSession_createDataSpdu :: "BufferChain \<Rightarrow> BufferChain \<Rightarrow> BufferChain" where
  "IsoSession_createDataSpdu buffer payload =
     BufferChain (4 + bc_length payload) 4 (bc_partMaxLength buffer) (dataSpdu, 0) (Some payload)"

definition encodeConnectAcceptItem :: "byte \<Rightarrow> cursor \<Rightarrow> cursor option" where
  "encodeConnectAcceptItem options s = do {
     s \<leftarrow> put 5 s;
     s \<leftarrow> put 6 s;
     s \<leftarrow> put 0x13 s;
     s \<leftarrow> put 1 s;
     s \<leftarrow> put options s;
     s \<leftarrow> put 0x16 s;
     s \<leftarrow> put 1 s;
     put 2 s }"

definition encodeConnectionIdentifier :: "byte \<Rightarrow> cursor \<Rightarrow> cursor option" where
  "encodeConnectionIdentifier reasonCode s = do {
     s \<leftarrow> put 1 s;
     s \<leftarrow> put 2 s;
     s \<leftarrow> put 17 s;
     s \<leftarrow> put 1 s;
     s \<leftarrow> put 1 s;
     s \<leftarrow> put 50 s;
     s \<leftarrow> put 1 s;
     put reasonCode s }"

definition encodeSessionRequirement :: "IsoSession \<Rightarrow> cursor \<Rightarrow> cursor option" where
  "encodeSessionRequirement self s = do {
     s \<leftarrow> put 0x14 s;
     s \<leftarrow> put 2 s;
     s \<leftarrow> put (ucast (sessionRequirement self div 0x100)) s;
     put (ucast (sessionRequirement self AND 0x00ff)) s }"

definition encodeCallingSessionSelector :: "IsoSession \<Rightarrow> cursor \<Rightarrow> cursor option" where
  "encodeCallingSessionSelector self s = do {
     s \<leftarrow> put 0x33 s;
     s \<leftarrow> put (sel_size (callingSessionSelector self)) s;
     copy_bytes (sel_value (callingSessionSelector self), 0) (uint (sel_size (callingSessionSelector self))) s }"

definition encodeCalledSessionSelector :: "IsoSession \<Rightarrow> cursor \<Rightarrow> cursor option" where
  "encodeCalledSessionSelector self s = do {
     s \<leftarrow> put 0x34 s;
     s \<leftarrow> put (sel_size (calledSessionSelector self)) s;
     copy_bytes (sel_value (calledSessionSelector self), 0) (uint (sel_size (calledSessionSelector self))) s }"

definition encodeSessionUserData :: "byte \<Rightarrow> cursor \<Rightarrow> cursor option" where
  "encodeSessionUserData payloadLength s = do { s \<leftarrow> put 0xc1 s; put payloadLength s }"

definition IsoSession_createConnectSpdu ::
  "IsoSession \<Rightarrow> 'tls IsoConnectionParameters \<Rightarrow> BufferChain \<Rightarrow> BufferChain \<Rightarrow> (IsoSession \<times> BufferChain) option" where
  "IsoSession_createConnectSpdu self isoParameters buffer payload = do {
     s \<leftarrow> put 13 (bc_buffer buffer, 0);
     let lengthOffset = snd s;
     let s = (fst s, snd s + 1);
     let self = self\<lparr>calledSessionSelector := remoteSSelector isoParameters\<rparr>;
     let self = self\<lparr>callingSessionSelector := localSSelector isoParameters\<rparr>;
     s \<leftarrow> encodeConnectAcceptItem 0 s;
     s \<leftarrow> encodeSessionRequirement self s;
     s \<leftarrow> encodeCallingSessionSelector self s;
     s \<leftarrow> encodeCalledSessionSelector self s;
     s \<leftarrow> encodeSessionUserData (word_of_int (bc_length payload)) s;
     let spduLength = (snd s - lengthOffset - 1) + bc_length payload;
     b \<leftarrow> wr (fst s) lengthOffset (word_of_int spduLength);
     Some (self, BufferChain (snd s + bc_length payload) (snd s) (bc_partMaxLength buffer) b (Some payload)) }"

definition IsoSession_createAbortSpdu :: "BufferChain \<Rightarrow> BufferChain \<Rightarrow> BufferChain option" where
  "IsoSession_createAbortSpdu buffer payload = do {
     s \<leftarrow> put 25 (bc_buffer buffer, 0);
     s \<leftarrow> put (word_of_int (5 + bc_length payload)) s;
     s \<leftarrow> put 17 s;
     s \<leftarrow> put 1 s;
     s \<leftarrow> put 11 s;
     s \<leftarrow> put 193 s;
     s \<leftarrow> put (word_of_int (bc_length payload)) s;
     Some (BufferChain (bc_length payload + snd s) (snd s) (bc_partMaxLength buffer) (fst s) (Some payload)) }"

definition IsoSession_createFinishSpdu :: "BufferChain \<Rightarrow> BufferChain \<Rightarrow> BufferChain option" where
  "IsoSession_createFinishSpdu buffer payload = do {
     s \<leftarrow> put 9 (bc_buffer buffer, 0);
     s \<leftarrow> put (word_of_int (2 + bc_length payload)) s;
     s \<leftarrow> put 193 s;
     s \<leftarrow> put (word_of_int (bc_length payload)) s;
     Some (BufferChain (bc_length payload + snd s) (snd s) (bc_partMaxLength buffer) (fst s) (Some payload)) }"

definition IsoSession_createDisconnectSpdu :: "BufferChain \<Rightarrow> BufferChain \<Rightarrow> BufferChain option" where
  "IsoSession_createDisconnectSpdu buffer payload = do {
     s \<leftarrow> put 10 (bc_buffer buffer, 0);
     s \<leftarrow> put (word_of_int (2 + bc_length payload)) s;
     s \<leftarrow> put 193 s;
     s \<leftarrow> put (word_of_int (bc_length payload)) s;
     Some (BufferChain (bc_length payload + snd s) (snd s) (bc_partMaxLength buffer) (fst s) (Some payload)) }"

definition IsoSession_createAcceptSpdu :: "IsoSession \<Rightarrow> BufferChain \<Rightarrow> BufferChain \<Rightarrow> BufferChain option" where
  "IsoSession_createAcceptSpdu self buffer payload = do {
     let payloadLength = bc_length payload;
     s \<leftarrow> put 14 (bc_buffer buffer, 0);
     let lengthOffset = snd s;
     let s = (fst s, snd s + 1);
     s \<leftarrow> encodeConnectAcceptItem (protocolOptions self) s;
     s \<leftarrow> encodeSessionRequirement self s;
     s \<leftarrow> encodeCalledSessionSelector self s;
     s \<leftarrow> encodeSessionUserData (word_of_int payloadLength) s;
     let spduLength = (snd s - lengthOffset - 1) + payloadLength;
     b \<leftarrow> wr (fst s) lengthOffset (word_of_int spduLength);
     Some (BufferChain (snd s + payloadLength) (snd s) (bc_partMaxLength buffer) b (Some payload)) }"

text \<open>The chain itself is left as it was: neither its length nor the length octet of the SPDU is set.\<close>

definition IsoSession_createRefuseSpdu :: "BufferChain \<Rightarrow> byte \<Rightarrow> BufferChain option" where
  "IsoSession_createRefuseSpdu buffer reasonCode = do {
     s \<leftarrow> put 12 (bc_buffer buffer, 0);
     let s = (fst s, snd s + 1);
     s \<leftarrow> encodeConnectionIdentifier reasonCode s;
     Some (BufferChain (bc_length buffer) (bc_partLength buffer) (bc_partMaxLength buffer) (fst s) (bc_nextPart buffer)) }"

definition default_SSelector :: SSelector where
  "default_SSelector = \<lparr>sel_size = 2, sel_value = (replicate 16 0)[0 := 0, 1 := 1]\<rparr>"

definition IsoSession_init :: IsoSession where
  "IsoSession_init = \<lparr>callingSessionSelector = default_SSelector, calledSessionSelector = default_SSelector,
     sessionRequirement = 0x0002, protocolOptions = 0,
     ss_userData = \<lparr>bb_buffer = ([], 0), bb_size = 0, bb_maxSize = 0\<rparr>\<rparr>"

definition IsoSession_getUserData :: "IsoSession \<Rightarrow> ByteBuffer" where
  "IsoSession_getUserData session = ss_userData session"

section \<open>SPDUs as octet strings\<close>

definition accept_item :: "byte \<Rightarrow> byte list" where
  "accept_item options = [5, 6, 0x13, 1, options, 0x16, 1, 2]"

definition requirement_item :: "16 word \<Rightarrow> byte list" where
  "requirement_item r = [0x14, 2, ucast (r div 0x100), ucast (r AND 0x00ff)]"

definition selector_item :: "byte \<Rightarrow> SSelector \<Rightarrow> byte list" where
  "selector_item pgi s = pgi # sel_size s # sel_bytes s"

definition spdu :: "byte \<Rightarrow> byte list \<Rightarrow> byte list \<Rightarrow> byte list" where
  "spdu si params data = si # word_of_int (2 + int (length params) + int (length data)) # params @
     [0xc1, word_of_int (int (length data))] @ data"

definition connect_params :: "SSelector \<Rightarrow> SSelector \<Rightarrow> 16 word \<Rightarrow> byte list" where
  "connect_params calling called r = accept_item 0 @ requirement_item r @ selector_item 0x33 calling @ selector_item 0x34 called"

definition accept_params :: "byte \<Rightarrow> SSelector \<Rightarrow> 16 word \<Rightarrow> byte list" where
  "accept_params options called r = accept_item options @ requirement_item r @ selector_item 0x34 called"

text \<open>The state of a session that the encoders rely on and the parser keeps.\<close>

definition session_ok :: "IsoSession \<Rightarrow> bool" where
  "session_ok self \<longleftrightarrow> selector_ok 16 (callingSessionSelector self) \<and> selector_ok 16 (calledSessionSelector self)"

lemma encodeConnectAcceptItem_emits [emits]: "encodeConnectAcceptItem options = emit (accept_item options)"
  by (rule ext) (simp add: encodeConnectAcceptItem_def accept_item_def emit_single emit_fuse emit_fuse_bind del: emit.simps)

lemma encodeSessionRequirement_emits [emits]: "encodeSessionRequirement self = emit (requirement_item (sessionRequirement self))"
  by (rule ext) (simp add: encodeSessionRequirement_def requirement_item_def emit_single emit_fuse emit_fuse_bind del: emit.simps)

lemma encodeSessionUserData_emits [emits]: "encodeSessionUserData n = emit [0xc1, n]"
  by (rule ext) (simp add: encodeSessionUserData_def emit_single emit_fuse emit_fuse_bind del: emit.simps)

lemma encodeSelector_emits:
  assumes "session_ok self"
  shows "encodeCallingSessionSelector self = emit (selector_item 0x33 (callingSessionSelector self))"
    and "encodeCalledSessionSelector self = emit (selector_item 0x34 (calledSessionSelector self))"
  using assms by (auto intro!: ext simp: encodeCallingSessionSelector_def encodeCalledSessionSelector_def selector_item_def
      session_ok_def copy_selector emit_single emit_fuse emit_fuse_bind simp del: emit.simps)

lemma length_items [outlen]:
  "length (accept_item options) = 8" "length (requirement_item r) = 4"
  "selector_ok 16 s \<Longrightarrow> length (selector_item pgi s) = 2 + unat (sel_size s)"
  by (simp_all add: accept_item_def requirement_item_def selector_item_def length_sel_bytes)

text \<open>An octet that is left out and filled in later, as the length octet of an SPDU is.\<close>

lemma emit_skip_patch:
  assumes v: "valid_range p 0 (2 + int (length xs))"
  shows "put si (p, 0) = Some (store p 0 [si], 1)"
    and "emit xs (store p 0 [si], 2) = Some (store (store p 0 [si]) 2 xs, 2 + int (length xs))"
    and "wr (store (store p 0 [si]) 2 xs) 1 x = Some (store p 0 (si # x # xs))"
proof -
  show "put si (p, 0) = Some (store p 0 [si], 1)"
    using emit_valid [of p 0 "[si]"] v by (auto simp: valid_range_def emit_single simp del: emit.simps)
  have "valid_range (store p 0 [si]) 2 (2 + int (length xs))"
    using v by (subst valid_range_store) (auto simp: valid_range_def)
  then show "emit xs (store p 0 [si], 2) = Some (store (store p 0 [si]) 2 xs, 2 + int (length xs))"
    by (rule emit_valid)
  obtain blk o' where p: "p = (blk, int o')" using v by (cases p) (auto simp: valid_range_def elim: nonneg_int_cases)
  then show "wr (store (store p 0 [si]) 2 xs) 1 x = Some (store p 0 (si # x # xs))" using v
    by (auto simp: wr_def store_def valid_range_def Let_def list_update_append nat_add_distrib min_def
        take_Suc drop_Suc list_eq_iff_nth_eq nth_append nth_list_update add.commute)
qed

lemma spdu_chain:
  assumes c: "chain_wf payload" "0 < bc_partLength payload" and v: "valid_range p 0 (4 + int (length params))"
    and "n = 4 + int (length params)" and "m = bc_length payload + n"
  shows "let chain = BufferChain m n k (store p 0 (si # word_of_int (2 + int (length params) + bc_length payload) # params @
      [0xc1, word_of_int (bc_length payload)])) (Some payload)
    in chain_wf chain \<and> chain_bytes chain = spdu si params (chain_bytes payload)"
proof -
  let ?h = "si # word_of_int (2 + int (length params) + bc_length payload) # params @ [0xc1, word_of_int (bc_length payload)]"
  have "valid_range p 0 (int (length ?h))" "n = int (length ?h)" using assms(3,4) by simp_all
  note chain = chain_header [OF c this assms(5), of k]
  have "spdu si params (chain_bytes payload) = ?h @ chain_bytes payload"
    using chain_length [OF c(1)] by (simp add: spdu_def)
  then show ?thesis unfolding Let_def using chain by metis
qed

lemma createConnectSpdu_run:
  assumes p: "params_ok p" and c: "chain_wf payload" "0 < bc_partLength payload" and v: "valid_range (bc_buffer buffer) 0 52"
  shows "\<exists>chain. IsoSession_createConnectSpdu self p buffer payload =
      Some (self\<lparr>calledSessionSelector := remoteSSelector p, callingSessionSelector := localSSelector p\<rparr>, chain) \<and>
    chain_wf chain \<and> chain_bytes chain =
      spdu 13 (connect_params (localSSelector p) (remoteSSelector p) (sessionRequirement self)) (chain_bytes payload)"
proof -
  let ?self = "self\<lparr>calledSessionSelector := remoteSSelector p, callingSessionSelector := localSSelector p\<rparr>"
  let ?params = "connect_params (localSSelector p) (remoteSSelector p) (sessionRequirement self)"
  let ?xs = "?params @ [0xc1, word_of_int (bc_length payload)]"
  have ok: "session_ok ?self" "selector_ok 16 (localSSelector p)" "selector_ok 16 (remoteSSelector p)"
    using p by (simp_all add: session_ok_def params_ok_def)
  then have len: "length ?params \<le> 48" by (simp add: connect_params_def outlen) (simp add: selector_ok_def)
  then have v': "valid_range (bc_buffer buffer) 0 (4 + int (length ?params))" using v by (auto simp: valid_range_def)
  then have "valid_range (bc_buffer buffer) 0 (2 + int (length ?xs))" by simp
  note patch = emit_skip_patch [OF this]
  have "\<exists>m n. IsoSession_createConnectSpdu self p buffer payload = Some (?self, BufferChain m n (bc_partMaxLength buffer)
        (store (bc_buffer buffer) 0 (13 # word_of_int (2 + int (length ?params) + bc_length payload) # ?xs)) (Some payload)) \<and>
      n = 4 + int (length ?params) \<and> m = bc_length payload + n"
    using patch(1) [of 13] patch(2,3) encodeSelector_emits [OF ok(1)]
    by (simp add: IsoSession_createConnectSpdu_def emits emit_fuse_bind connect_params_def Let_def del: emit.simps)
  then show ?thesis using spdu_chain [OF c v'] by (elim exE conjE) (simp add: Let_def)
qed

lemma createAcceptSpdu_run:
  assumes ok: "session_ok self" and c: "chain_wf payload" "0 < bc_partLength payload" and v: "valid_range (bc_buffer buffer) 0 34"
  shows "\<exists>chain. IsoSession_createAcceptSpdu self buffer payload = Some chain \<and> chain_wf chain \<and> chain_bytes chain =
      spdu 14 (accept_params (protocolOptions self) (calledSessionSelector self) (sessionRequirement self)) (chain_bytes payload)"
proof -
  let ?params = "accept_params (protocolOptions self) (calledSessionSelector self) (sessionRequirement self)"
  let ?xs = "?params @ [0xc1, word_of_int (bc_length payload)]"
  have len: "length ?params \<le> 30" using ok by (simp add: accept_params_def outlen session_ok_def) (simp add: selector_ok_def)
  then have v': "valid_range (bc_buffer buffer) 0 (4 + int (length ?params))" using v by (auto simp: valid_range_def)
  then have "valid_range (bc_buffer buffer) 0 (2 + int (length ?xs))" by simp
  note patch = emit_skip_patch [OF this]
  have "\<exists>m n. IsoSession_createAcceptSpdu self buffer payload = Some (BufferChain m n (bc_partMaxLength buffer)
        (store (bc_buffer buffer) 0 (14 # word_of_int (2 + int (length ?params) + bc_length payload) # ?xs)) (Some payload)) \<and>
      n = 4 + int (length ?params) \<and> m = bc_length payload + n"
    using patch(1) [of 14] patch(2,3) encodeSelector_emits [OF ok]
    by (simp add: IsoSession_createAcceptSpdu_def emits emit_fuse_bind accept_params_def Let_def del: emit.simps)
  then show ?thesis using spdu_chain [OF c v'] by (elim exE conjE) (simp add: Let_def)
qed

lemma createSpdu_run:
  assumes c: "chain_wf payload" "0 < bc_partLength payload" and v: "valid_range (bc_buffer buffer) 0 7"
  shows "\<exists>chain. IsoSession_createFinishSpdu buffer payload = Some chain \<and> chain_wf chain \<and>
      chain_bytes chain = spdu 9 [] (chain_bytes payload)"
    and "\<exists>chain. IsoSession_createDisconnectSpdu buffer payload = Some chain \<and> chain_wf chain \<and>
      chain_bytes chain = spdu 10 [] (chain_bytes payload)"
    and "\<exists>chain. IsoSession_createAbortSpdu buffer payload = Some chain \<and> chain_wf chain \<and>
      chain_bytes chain = spdu 25 [17, 1, 11] (chain_bytes payload)"
proof -
  have v4: "valid_range (bc_buffer buffer) 0 (4 + int (length []))" "valid_range (bc_buffer buffer) 0 (4 + int (length [17, 1, 11 :: byte]))"
    using v by (auto simp: valid_range_def)
  let ?n = "bc_length payload"
  have e: "emit [si, word_of_int (2 + ?n), 193, word_of_int ?n] (bc_buffer buffer, 0) =
      Some (store (bc_buffer buffer) 0 [si, word_of_int (2 + ?n), 193, word_of_int ?n], 4)"
    "emit [si, word_of_int (5 + ?n), 17, 1, 11, 193, word_of_int ?n] (bc_buffer buffer, 0) =
      Some (store (bc_buffer buffer) 0 [si, word_of_int (5 + ?n), 17, 1, 11, 193, word_of_int ?n], 7)" for si
    using v by (auto simp: emit_valid valid_range_def simp del: emit.simps)
  note run = IsoSession_createFinishSpdu_def IsoSession_createDisconnectSpdu_def IsoSession_createAbortSpdu_def
    emit_single emit_fuse_bind append.simps e Let_def
  show "\<exists>chain. IsoSession_createFinishSpdu buffer payload = Some chain \<and> chain_wf chain \<and>
      chain_bytes chain = spdu 9 [] (chain_bytes payload)"
    "\<exists>chain. IsoSession_createDisconnectSpdu buffer payload = Some chain \<and> chain_wf chain \<and>
      chain_bytes chain = spdu 10 [] (chain_bytes payload)"
    using spdu_chain [OF c v4(1), of 4 "?n + 4" "bc_partMaxLength buffer"] unfolding run by simp_all
  show "\<exists>chain. IsoSession_createAbortSpdu buffer payload = Some chain \<and> chain_wf chain \<and>
      chain_bytes chain = spdu 25 [17, 1, 11] (chain_bytes payload)"
    using spdu_chain [OF c v4(2), of 7 "?n + 7" "bc_partMaxLength buffer"] unfolding run by simp
qed

section \<open>What the parser reads back\<close>

lemma parseAcceptParameters_item:
  assumes "holds (bb_buffer m) off (accept_item options)"
  shows "parseAcceptParameters s m (off + 2) 6 = Some (6, s\<lparr>protocolOptions := options\<rparr>)"
proof -
  have r: "rd (bb_buffer m) (off + 2) = Some 0x13" "rd (bb_buffer m) (off + 3) = Some 1" "rd (bb_buffer m) (off + 4) = Some options"
    "rd (bb_buffer m) (off + 5) = Some 0x16" "rd (bb_buffer m) (off + 6) = Some 1" "rd (bb_buffer m) (off + 7) = Some 2"
    using assms by (simp_all add: accept_item_def)
  show ?thesis unfolding parseAcceptParameters_def
    by (subst parseAcceptParameters_loop.simps, simp add: r, subst parseAcceptParameters_loop.simps, simp add: r,
        subst parseAcceptParameters_loop.simps, simp)
qed

lemma requirement_read:
  "word_of_int (uint (ucast (r div 0x100) :: byte) * 0x100) + ucast (ucast (r AND 0x00ff) :: byte) = (r :: 16 word)"
proof -
  have n: "0 \<le> uint r" "uint r < 65536" using uint_bounded [of r] by simp_all
  then have "uint r div 256 mod 256 = uint r div 256" by (intro mod_pos_pos_trivial) (auto simp: pos_imp_zdiv_nonneg_iff)
  then have hi: "uint (ucast (r div 0x100) :: byte) = uint r div 256"
    by (simp add: unsigned_ucast_eq uint_div take_bit_eq_mod)
  have lo: "uint (ucast (r AND 0xff) :: byte) = uint r mod 256"
    using take_bit_eq_mask [of 8 "uint r"] by (simp add: unsigned_ucast_eq unsigned_and_eq take_bit_eq_mod mask_eq_exp_minus_1)
  have "(ucast (ucast (r AND 0xff) :: byte) :: 16 word) = word_of_int (uint r mod 256)"
    unfolding lo [symmetric] by simp
  then have "word_of_int (uint (ucast (r div 0x100) :: byte) * 0x100) + ucast (ucast (r AND 0x00ff) :: byte) =
      (word_of_int (uint r div 256 * 256 + uint r mod 256) :: 16 word)"
    by (simp only: hi of_int_add)
  then show ?thesis by (simp only: div_mult_mod_eq word_of_int_uint)
qed

text \<open>A selector as the parser stores it: octets behind its size keep their old values.\<close>

definition stored :: "Selector \<Rightarrow> Selector \<Rightarrow> Selector" where
  "stored sel old = \<lparr>sel_size = sel_size sel, sel_value = sel_bytes sel @ drop (unat (sel_size sel)) (sel_value old)\<rparr>"

lemma stored_bytes: "selector_ok k sel \<Longrightarrow> sel_bytes (stored sel old) = sel_bytes sel"
  by (simp add: stored_def sel_bytes_def selector_ok_def)

lemma stored_ok: "selector_ok k sel \<Longrightarrow> selector_ok k old \<Longrightarrow> selector_ok k (stored sel old)"
  by (simp add: stored_def sel_bytes_def selector_ok_def)

lemma read_selector:
  assumes "holds p off (sel_bytes sel)" and "selector_ok k sel" and "selector_ok k old"
  shows "read_octets p (uint (sel_size sel)) off (sel_value old) = Some (sel_value (stored sel old), off + uint (sel_size sel))"
proof -
  have "uint (sel_size sel) = int (length (sel_bytes sel))" "length (sel_bytes sel) = unat (sel_size sel)"
    using length_sel_bytes [OF assms(2)] by simp_all
  moreover have "length (sel_bytes sel) \<le> length (sel_value old)"
    using assms(2,3) by (simp add: length_sel_bytes) (simp add: selector_ok_def)
  ultimately show ?thesis
    using read_octets_ok [of p off "sel_bytes sel" "sel_value old"] assms(1) by (simp add: holds_def stored_def)
qed

lemma header_step:
  assumes "off < n + 2"
  shows header_accept: "holds (bb_buffer m) off (accept_item options) \<Longrightarrow>
      parseSessionHeaderParameters_loop api s m n off =
      parseSessionHeaderParameters_loop api (s\<lparr>protocolOptions := options\<rparr>) m n (off + 8)"
    and header_requirement: "holds (bb_buffer m) off (requirement_item r) \<Longrightarrow>
      parseSessionHeaderParameters_loop api s m n off =
      parseSessionHeaderParameters_loop api (s\<lparr>sessionRequirement := r\<rparr>) m n (off + 4)"
    and header_calling: "holds (bb_buffer m) off (selector_item 0x33 sel) \<Longrightarrow> selector_ok 16 sel \<Longrightarrow> session_ok s \<Longrightarrow>
      parseSessionHeaderParameters_loop api s m n off =
      parseSessionHeaderParameters_loop api (s\<lparr>callingSessionSelector := stored sel (callingSessionSelector s)\<rparr>) m n
        (off + 2 + uint (sel_size sel))"
    and header_called: "holds (bb_buffer m) off (selector_item 0x34 sel) \<Longrightarrow> selector_ok 16 sel \<Longrightarrow> session_ok s \<Longrightarrow>
      parseSessionHeaderParameters_loop api s m n off =
      parseSessionHeaderParameters_loop api (s\<lparr>calledSessionSelector := stored sel (calledSessionSelector s)\<rparr>) m n
        (off + 2 + uint (sel_size sel))"
    and header_userData: "holds (bb_buffer m) off [0xc1, l] \<Longrightarrow>
      parseSessionHeaderParameters_loop api s m n off =
      Some (SESSION_OK, s\<lparr>ss_userData := ByteBuffer_wrap api (padd (bb_buffer m) (off + 2))
        (bb_size m - (off + 2)) (bb_maxSize m - (off + 2))\<rparr>)"
proof -
  assume h: "holds (bb_buffer m) off (accept_item options)"
  then have "parseAcceptParameters s m (off + 2) 6 = Some (6, s\<lparr>protocolOptions := options\<rparr>)"
    by (rule parseAcceptParameters_item)
  moreover have "rd (bb_buffer m) off = Some 5" "rd (bb_buffer m) (off + 1) = Some 6"
    using h by (simp_all add: accept_item_def)
  ultimately show "parseSessionHeaderParameters_loop api s m n off =
      parseSessionHeaderParameters_loop api (s\<lparr>protocolOptions := options\<rparr>) m n (off + 8)"
    using assms by (subst parseSessionHeaderParameters_loop.simps) simp
next
  assume "holds (bb_buffer m) off (requirement_item r)"
  then show "parseSessionHeaderParameters_loop api s m n off =
      parseSessionHeaderParameters_loop api (s\<lparr>sessionRequirement := r\<rparr>) m n (off + 4)"
    using assms requirement_read [of r] by (subst parseSessionHeaderParameters_loop.simps) (simp add: requirement_item_def)
next
  assume h: "holds (bb_buffer m) off (selector_item 0x33 sel)" "selector_ok 16 sel" "session_ok s"
  then have "\<not> sel_size sel > 16" "read_octets (bb_buffer m) (uint (sel_size sel)) (off + 2) (sel_value (callingSessionSelector s)) =
      Some (sel_value (stored sel (callingSessionSelector s)), off + 2 + uint (sel_size sel))"
    by (auto intro!: read_selector [of _ _ _ 16] simp: selector_item_def session_ok_def)
      (simp add: selector_ok_def word_less_nat_alt)
  then show "parseSessionHeaderParameters_loop api s m n off =
      parseSessionHeaderParameters_loop api (s\<lparr>callingSessionSelector := stored sel (callingSessionSelector s)\<rparr>) m n
        (off + 2 + uint (sel_size sel))"
    using assms h(1) by (subst parseSessionHeaderParameters_loop.simps) (simp add: selector_item_def stored_def)
next
  assume h: "holds (bb_buffer m) off (selector_item 0x34 sel)" "selector_ok 16 sel" "session_ok s"
  then have "\<not> sel_size sel > 16" "read_octets (bb_buffer m) (uint (sel_size sel)) (off + 2) (sel_value (calledSessionSelector s)) =
      Some (sel_value (stored sel (calledSessionSelector s)), off + 2 + uint (sel_size sel))"
    by (auto intro!: read_selector [of _ _ _ 16] simp: selector_item_def session_ok_def)
      (simp add: selector_ok_def word_less_nat_alt)
  then show "parseSessionHeaderParameters_loop api s m n off =
      parseSessionHeaderParameters_loop api (s\<lparr>calledSessionSelector := stored sel (calledSessionSelector s)\<rparr>) m n
        (off + 2 + uint (sel_size sel))"
    using assms h(1) by (subst parseSessionHeaderParameters_loop.simps) (simp add: selector_item_def stored_def)
next
  assume "holds (bb_buffer m) off [0xc1, l]"
  then show "parseSessionHeaderParameters_loop api s m n off =
      Some (SESSION_OK, s\<lparr>ss_userData := ByteBuffer_wrap api (padd (bb_buffer m) (off + 2))
        (bb_size m - (off + 2)) (bb_maxSize m - (off + 2))\<rparr>)"
    using assms by (subst parseSessionHeaderParameters_loop.simps) (simp add: Let_def)
qed

lemma length_spdu [outlen]: "length (spdu si params data) = 4 + length params + length data"
  by (simp add: spdu_def)

text \<open>The length octet of an SPDU has the value the parser expects if the SPDU has at most 257 octets.\<close>

lemma parse_spdu:
  assumes m: "bb_wf m" "bb_bytes m = spdu si params data"
    and si: "(si, ind) \<in> {(13, SESSION_CONNECT), (14, SESSION_CONNECT), (9, SESSION_FINISH), (10, SESSION_DISCONNECT)}"
  shows "IsoSession_parseMessage api s m =
    (if bb_size m \<le> 257 then do {
       (result, s) \<leftarrow> parseSessionHeaderParameters api s m (bb_size m - 2);
       Some (if result = SESSION_OK then ind else SESSION_ERROR, s) }
     else Some (SESSION_ERROR, s))"
proof -
  have sz: "bb_size m = 4 + int (length params) + int (length data)"
    using bb_bytes_length [OF m(1)] m(2) by (simp add: outlen)
  let ?l = "word_of_int (2 + int (length params) + int (length data)) :: byte"
  have l: "uint ?l = (bb_size m - 2) mod 256" by (simp only: sz uint_word_of_int) (simp add: add.assoc)
  have r: "rd (bb_buffer m) 0 = Some si" "rd (bb_buffer m) 1 = Some ?l"
    using holds_bb_bytes [OF m] by (simp_all add: spdu_def)
  have "uint ?l = bb_size m - 2 \<longleftrightarrow> bb_size m \<le> 257"
    using sz unfolding l by (auto simp: mod_pos_pos_trivial)
  moreover have "1 < bb_size m" using sz by simp
  ultimately show ?thesis using si r
    by (auto simp: IsoSession_parseMessage_def parse_parameters_as_def)
qed

lemma header_end:
  assumes m: "bb_wf m" "bb_bytes m = spdu si params data" and api: "bytebuffer_ok api"
  shows "\<exists>b. parseSessionHeaderParameters_loop api s m (bb_size m - 2) (2 + int (length params)) =
      Some (SESSION_OK, s\<lparr>ss_userData := b\<rparr>) \<and> bb_wf b \<and> bb_bytes b = data"
proof -
  have sz: "bb_size m = 4 + int (length params) + int (length data)"
    using bb_bytes_length [OF m(1)] m(2) by (simp add: outlen)
  let ?off = "4 + int (length params)"
  have h: "holds (bb_buffer m) (2 + int (length params)) [0xc1, word_of_int (int (length data))]"
    "holds (bb_buffer m) ?off data"
    using holds_bb_bytes [OF m] by (simp_all add: spdu_def)
  let ?b = "\<lparr>bb_buffer = padd (bb_buffer m) ?off, bb_size = bb_size m - ?off, bb_maxSize = bb_maxSize m - ?off\<rparr>"
  have "bb_wf ?b" using m(1) sz by (auto simp: bb_wf_def valid_range_def)
  moreover have "bb_bytes ?b = data" using holds_octets_at [OF h(2)] sz by (simp add: bb_bytes_def)
  ultimately show ?thesis
    using header_userData [OF _ h(1), of "bb_size m - 2" api s] sz
    by (intro exI [of _ ?b]) (simp add: bytebuffer_simps [OF api] add.commute)
qed

lemma connect_params_parsed:
  assumes m: "bb_wf m" "bb_bytes m = spdu si (connect_params calling called r) data" and api: "bytebuffer_ok api"
    and s: "session_ok s" "selector_ok 16 calling" "selector_ok 16 called"
  shows "\<exists>b. parseSessionHeaderParameters api s m (bb_size m - 2) = Some (SESSION_OK, s\<lparr>protocolOptions := 0, sessionRequirement := r,
      callingSessionSelector := stored calling (callingSessionSelector s),
      calledSessionSelector := stored called (calledSessionSelector s), ss_userData := b\<rparr>) \<and> bb_wf b \<and> bb_bytes b = data"
proof -
  have sz: "bb_size m = 20 + uint (sel_size calling) + uint (sel_size called) + int (length data)"
    using bb_bytes_length [OF m(1)] m(2) s by (simp add: outlen connect_params_def)
  have h: "holds (bb_buffer m) 2 (accept_item 0)" "holds (bb_buffer m) 10 (requirement_item r)"
    "holds (bb_buffer m) 14 (selector_item 0x33 calling)"
    "holds (bb_buffer m) (16 + uint (sel_size calling)) (selector_item 0x34 called)"
    using holds_bb_bytes [OF m] s by (simp_all add: spdu_def connect_params_def outlen)
  have pos: "0 \<le> uint (sel_size calling)" "0 \<le> uint (sel_size called)" by simp_all
  have e: "2 + int (length (connect_params calling called r)) = 16 + uint (sel_size calling) + 2 + uint (sel_size called)"
    using s by (simp add: connect_params_def outlen)
  let ?s1 = "s\<lparr>protocolOptions := 0, sessionRequirement := r\<rparr>"
  let ?s2 = "?s1\<lparr>callingSessionSelector := stored calling (callingSessionSelector s)\<rparr>"
  have ok: "session_ok ?s1" "session_ok ?s2" using s stored_ok [of 16 calling "callingSessionSelector s"] by (simp_all add: session_ok_def)
  have "parseSessionHeaderParameters api s m (bb_size m - 2) =
      parseSessionHeaderParameters_loop api ?s2 m (bb_size m - 2) (16 + uint (sel_size calling))"
    unfolding parseSessionHeaderParameters_def
    using header_accept [OF _ h(1), of "bb_size m - 2" api s] header_requirement [OF _ h(2), of "bb_size m - 2" api]
      header_calling [OF _ h(3) s(2) ok(1), of "bb_size m - 2" api] sz pos by simp
  also have "\<dots> = parseSessionHeaderParameters_loop api (?s2\<lparr>calledSessionSelector := stored called (calledSessionSelector s)\<rparr>) m
      (bb_size m - 2) (2 + int (length (connect_params calling called r)))"
    using header_called [OF _ h(4) s(3) ok(2), of "bb_size m - 2" api] sz pos unfolding e by simp
  finally show ?thesis using header_end [OF m api] by simp
qed

lemma accept_params_parsed:
  assumes m: "bb_wf m" "bb_bytes m = spdu si (accept_params options called r) data" and api: "bytebuffer_ok api"
    and s: "session_ok s" "selector_ok 16 called"
  shows "\<exists>b. parseSessionHeaderParameters api s m (bb_size m - 2) = Some (SESSION_OK, s\<lparr>protocolOptions := options,
      sessionRequirement := r, calledSessionSelector := stored called (calledSessionSelector s), ss_userData := b\<rparr>) \<and>
    bb_wf b \<and> bb_bytes b = data"
proof -
  have sz: "bb_size m = 18 + uint (sel_size called) + int (length data)"
    using bb_bytes_length [OF m(1)] m(2) s by (simp add: outlen accept_params_def)
  have h: "holds (bb_buffer m) 2 (accept_item options)" "holds (bb_buffer m) 10 (requirement_item r)"
    "holds (bb_buffer m) 14 (selector_item 0x34 called)"
    using holds_bb_bytes [OF m] s by (simp_all add: spdu_def accept_params_def outlen)
  have pos: "0 \<le> uint (sel_size called)" by simp
  have e: "2 + int (length (accept_params options called r)) = 14 + 2 + uint (sel_size called)"
    using s by (simp add: accept_params_def outlen)
  let ?s1 = "s\<lparr>protocolOptions := options, sessionRequirement := r\<rparr>"
  have ok: "session_ok ?s1" using s by (simp add: session_ok_def)
  have "parseSessionHeaderParameters api s m (bb_size m - 2) = parseSessionHeaderParameters_loop api
      (?s1\<lparr>calledSessionSelector := stored called (calledSessionSelector s)\<rparr>) m
      (bb_size m - 2) (2 + int (length (accept_params options called r)))"
    unfolding parseSessionHeaderParameters_def
    using header_accept [OF _ h(1), of "bb_size m - 2" api s] header_requirement [OF _ h(2), of "bb_size m - 2" api]
      header_called [OF _ h(3) s(2) ok, of "bb_size m - 2" api] sz pos unfolding e by simp
  then show ?thesis using header_end [OF m api] by simp
qed

section \<open>Every message is parsed safely\<close>

lemma parseAcceptParameters_total:
  assumes v: "valid_range (bb_buffer m) 0 (maxOffset + 2)" and "0 \<le> start" "start \<le> offset"
  shows "\<exists>r options. parseAcceptParameters_loop s m start maxOffset hasOptions hasVersion offset =
    Some (r, s\<lparr>protocolOptions := options\<rparr>) \<and> (r = -1 \<or> 0 \<le> r)"
  using assms(3)
proof (induction "nat (maxOffset - offset)" arbitrary: s hasOptions hasVersion offset rule: less_induct)
  case less
  have stop: ?case if "parseAcceptParameters_loop s m start maxOffset hasOptions hasVersion offset = Some (r, s)" "r = -1 \<or> 0 \<le> r" for r
    using that by (intro exI [of _ r] exI [of _ "protocolOptions s"]) simp
  show ?case
  proof (cases "offset < maxOffset")
    case False
    then show ?thesis using less.prems by (intro stop) (subst parseAcceptParameters_loop.simps, auto)
  next
    case True
    have pos: "0 \<le> offset" using less.prems assms(2) by simp
    obtain pi l x where r: "rd (bb_buffer m) offset = Some pi" "rd (bb_buffer m) (offset + 1) = Some l" "rd (bb_buffer m) (offset + 2) = Some x"
      using rd_valid [OF v pos] rd_valid [OF v, of "offset + 1"] rd_valid [OF v, of "offset + 2"] pos True by auto
    have IH: "\<exists>r opt. parseAcceptParameters_loop (s\<lparr>protocolOptions := options\<rparr>) m start maxOffset a b off =
        Some (r, s\<lparr>protocolOptions := opt\<rparr>) \<and> (r = -1 \<or> 0 \<le> r)" if "offset < off" for options a b off
      using less.hyps [of off "s\<lparr>protocolOptions := options\<rparr>" a b] that True less.prems by simp
    note IH0 = IH [of _ "protocolOptions s", simplified]
    have adv: "offset < offset + 2 + uint l" using byte_bound [of l] by linarith
    consider "pi = 19" "l = 1" | "pi = 19" "l \<noteq> 1" | "pi = 21" | "pi = 22" "x = 2" | "pi = 22" "x \<noteq> 2" | "pi = 26"
      | "pi \<in> {23, 55, 56, 57, 58}" | "pi \<notin> {19, 21, 22, 26, 23, 55, 56, 57, 58}"
      by blast
    then show ?thesis
    proof cases
      case 2
      then show ?thesis using True r by (intro stop [of "-1"]) (subst parseAcceptParameters_loop.simps, simp_all)
    next
      case 5
      then show ?thesis using True r by (intro stop [of "-1"]) (subst parseAcceptParameters_loop.simps, simp_all)
    next
      case 7
      then show ?thesis using True r IH0 [OF adv] by (subst parseAcceptParameters_loop.simps) (auto simp: Let_def)
    next
      case 8
      then show ?thesis using True r IH0 [of "offset + 2"] by (subst parseAcceptParameters_loop.simps) (auto simp: Let_def)
    qed (use True r IH [of "offset + 3" x] IH0 [of "offset + 3"] IH0 [of "offset + 6"] in
        \<open>(subst parseAcceptParameters_loop.simps, simp add: Let_def)+\<close>)
  qed
qed

lemma parseHeader_total:
  assumes v: "valid_range (bb_buffer m) 0 515" and api: "bytebuffer_ok api" and n: "n \<le> 255"
    and "2 \<le> offset" and "session_ok s"
  shows "\<exists>ind s'. parseSessionHeaderParameters_loop api s m n offset = Some (ind, s') \<and> session_ok s' \<and>
    (ind = SESSION_ERROR \<and> ss_userData s' = ss_userData s \<or>
     ind = SESSION_OK \<and> (\<exists>off. 4 \<le> off \<and> off \<le> n + 3 \<and> ss_userData s' =
       \<lparr>bb_buffer = padd (bb_buffer m) off, bb_size = bb_size m - off, bb_maxSize = bb_maxSize m - off\<rparr>))"
  using assms(4-)
proof (induction "nat (n + 2 - offset)" arbitrary: s offset rule: less_induct)
  case less
  let ?post = "\<lambda>res. \<exists>ind s'. res = Some (ind, s') \<and> session_ok s' \<and>
    (ind = SESSION_ERROR \<and> ss_userData s' = ss_userData s \<or>
     ind = SESSION_OK \<and> (\<exists>off. 4 \<le> off \<and> off \<le> n + 3 \<and> ss_userData s' =
       \<lparr>bb_buffer = padd (bb_buffer m) off, bb_size = bb_size m - off, bb_maxSize = bb_maxSize m - off\<rparr>))"
  show ?case
  proof (cases "offset < n + 2")
    case False
    then show ?thesis using less.prems by (subst parseSessionHeaderParameters_loop.simps) simp
  next
    case True
    obtain g l x y where r: "rd (bb_buffer m) offset = Some g" "rd (bb_buffer m) (offset + 1) = Some l"
        "rd (bb_buffer m) (offset + 2) = Some x" "rd (bb_buffer m) (offset + 3) = Some y"
      using rd_valid [OF v, of offset] rd_valid [OF v, of "offset + 1"] rd_valid [OF v, of "offset + 2"]
        rd_valid [OF v, of "offset + 3"] less.prems(1) True n by auto
    have IH: "?post (parseSessionHeaderParameters_loop api s' m n off)"
      if "offset < off" "session_ok s'" "ss_userData s' = ss_userData s" for s' off
      using less.hyps [of off s'] that True less.prems by simp
    have adv: "offset < offset + 2 + uint l" using byte_bound [of l] by linarith
    have l: "uint l < 256" using byte_bound [of l] by simp
    obtain k options where acc: "parseAcceptParameters s m (offset + 2) (uint l) = Some (k, s\<lparr>protocolOptions := options\<rparr>)" "k = -1 \<or> 0 \<le> k"
      using parseAcceptParameters_total [of m "offset + 2 + uint l" "offset + 2" "offset + 2" s False False] v less.prems(1) n True l
      by (auto simp: parseAcceptParameters_def valid_range_def)
    have sel: "\<exists>v. read_octets (bb_buffer m) (uint l) (offset + 2) (sel_value sel) = Some (v, offset + 2 + uint l) \<and>
        selector_ok 16 \<lparr>sel_size = l, sel_value = v\<rparr>" if "\<not> l > 16" "selector_ok 16 sel" for sel
    proof -
      have "uint l \<le> 16" using that(1) by (simp add: word_less_def)
      then show ?thesis
        using read_octets_valid [of "bb_buffer m" "offset + 2" "uint l" "sel_value sel"] v that(2) less.prems(1) n True
        by (auto simp: valid_range_def selector_ok_def nat_le_iff simp flip: nat_uint_eq)
    qed
    consider (skip) "g \<in> {1, 17, 25, 49, 60}" | (accept) "g = 5" | (req) "g = 20" | (calling) "g = 51" | (called) "g = 52" | (data) "g = 193"
      | (other) "g \<notin> {1, 17, 25, 49, 60, 5, 20, 51, 52, 193}"
      by blast
    then show ?thesis
    proof cases
      case skip
      then show ?thesis using True r IH [OF adv less.prems(2) refl]
        by (subst parseSessionHeaderParameters_loop.simps) (auto simp: Let_def)
    next
      case accept
      show ?thesis using True r accept acc less.prems(2) IH [of "offset + 2 + k" "s\<lparr>protocolOptions := options\<rparr>"]
        by (subst parseSessionHeaderParameters_loop.simps) (auto simp: Let_def session_ok_def)
    next
      case req
      show ?thesis using True r req less.prems(2)
          IH [of "offset + 4" "s\<lparr>sessionRequirement := word_of_int (uint x * 0x100) + ucast y\<rparr>"]
        by (subst parseSessionHeaderParameters_loop.simps) (auto simp: Let_def session_ok_def)
    next
      case calling
      show ?thesis using True r calling less.prems(2) sel [of "callingSessionSelector s"]
          IH [OF adv, of "s\<lparr>callingSessionSelector := \<lparr>sel_size = l, sel_value = v\<rparr>\<rparr>" for v]
        by (subst parseSessionHeaderParameters_loop.simps) (auto simp: Let_def session_ok_def)
    next
      case called
      show ?thesis using True r called less.prems(2) sel [of "calledSessionSelector s"]
          IH [OF adv, of "s\<lparr>calledSessionSelector := \<lparr>sel_size = l, sel_value = v\<rparr>\<rparr>" for v]
        by (subst parseSessionHeaderParameters_loop.simps) (auto simp: Let_def session_ok_def)
    next
      case data
      show ?thesis using True r data less.prems bytebuffer_simps [OF api]
        by (subst parseSessionHeaderParameters_loop.simps) (auto simp: Let_def session_ok_def intro!: exI [of _ "offset + 2"])
    next
      case other
      then show ?thesis using True r IH [of "offset + 2" s] less.prems(2)
        by (subst parseSessionHeaderParameters_loop.simps) (auto simp: Let_def)
    qed
  qed
qed

section \<open>Data\<close>

lemma createDataSpdu_chain:
  assumes "chain_wf payload" and "0 < bc_partLength payload"
  shows "chain_wf (IsoSession_createDataSpdu buffer payload)" "0 < bc_partLength (IsoSession_createDataSpdu buffer payload)"
    "bc_length (IsoSession_createDataSpdu buffer payload) = 4 + bc_length payload"
    "chain_bytes (IsoSession_createDataSpdu buffer payload) = dataSpdu @ chain_bytes payload"
  using assms by (simp_all add: IsoSession_createDataSpdu_def dataSpdu_def valid_range_def octets_at_def)

lemma session_data:
  assumes api: "bytebuffer_ok api" and m: "bb_wf m" "bb_bytes m = dataSpdu @ xs"
  shows "\<exists>b. IsoSession_parseMessage api s m = Some (SESSION_DATA, s\<lparr>ss_userData := b\<rparr>) \<and> bb_wf b \<and> bb_bytes b = xs"
proof -
  have sz: "bb_size m = 4 + int (length xs)" using bb_bytes_length [OF m(1)] m(2) by (simp add: dataSpdu_def)
  have h: "rd (bb_buffer m) 0 = Some 1" "rd (bb_buffer m) 1 = Some 0" "rd (bb_buffer m) 2 = Some 1" "rd (bb_buffer m) 3 = Some 0"
    "holds (bb_buffer m) 4 xs"
    using holds_bb_bytes [OF m] by (simp_all add: dataSpdu_def)
  let ?b = "\<lparr>bb_buffer = padd (bb_buffer m) 4, bb_size = bb_size m - 4, bb_maxSize = bb_maxSize m - 4\<rparr>"
  have "bb_wf ?b" using m(1) sz by (auto simp: bb_wf_def valid_range_def)
  moreover have "bb_bytes ?b = xs" using holds_octets_at [OF h(5)] sz by (simp add: bb_bytes_def)
  ultimately show ?thesis using sz h
    by (intro exI [of _ ?b]) (simp add: IsoSession_parseMessage_def bytebuffer_simps [OF api])
qed

text \<open>What the layers above the session see of a received message.\<close>

definition session_receive :: "IsoSession \<Rightarrow> ByteBufferApi \<Rightarrow> ByteBuffer \<Rightarrow> ByteBuffer option" where
  "session_receive s api m = (case IsoSession_parseMessage api s m of
     Some (SESSION_DATA, s') \<Rightarrow> Some (IsoSession_getUserData s') | _ \<Rightarrow> None)"

interpretation session_data_layer: pdu_layer "\<lambda>part c. Some (IsoSession_createDataSpdu part c)" "\<lambda>_. True" "session_receive s" limit 4
  for s limit
proof (unfold_locales, goal_cases)
  case (1 c part)
  then show ?case using createDataSpdu_chain [of c part] by simp
next
  case (2 c part c' api m)
  then have "bb_bytes m = dataSpdu @ chain_bytes c" using createDataSpdu_chain [of c part] by simp
  from session_data [OF 2(6,7) this, of s] show ?case
    by (auto simp: session_receive_def IsoSession_getUserData_def)
qed

section \<open>Properties\<close>

definition user_data_of :: "ByteBuffer \<Rightarrow> ByteBuffer \<Rightarrow> bool" where
  "user_data_of m b \<longleftrightarrow> (\<exists>off. 4 \<le> off \<and> off \<le> bb_size m + 1 \<and>
     b = \<lparr>bb_buffer = padd (bb_buffer m) off, bb_size = bb_size m - off, bb_maxSize = bb_maxSize m - off\<rparr>)"

definition parse_result :: "ByteBuffer \<Rightarrow> IsoSession \<Rightarrow> IsoSessionIndication \<Rightarrow> IsoSession \<Rightarrow> bool" where
  "parse_result m s ind s' \<longleftrightarrow> session_ok s' \<and>
     (if ind \<in> {SESSION_CONNECT, SESSION_DATA, SESSION_FINISH, SESSION_DISCONNECT} then user_data_of m (ss_userData s')
      else ind \<in> {SESSION_ERROR, SESSION_ABORT, SESSION_NOT_FINISHED} \<and> ss_userData s' = ss_userData s)"

lemma parse_parameters_total:
  assumes v: "valid_range (bb_buffer m) 0 515" and api: "bytebuffer_ok api" and s: "session_ok s"
    and ind: "ind \<in> {SESSION_CONNECT, SESSION_FINISH, SESSION_DISCONNECT}"
  shows "\<exists>i s'. parse_parameters_as ind api s m l = Some (i, s') \<and> parse_result m s i s'"
proof (cases "uint l = bb_size m - 2")
  case False
  then show ?thesis using s by (simp add: parse_parameters_as_def parse_result_def)
next
  case True
  obtain i s' where h: "parseSessionHeaderParameters_loop api s m (uint l) 2 = Some (i, s')" "session_ok s'"
    "i = SESSION_ERROR \<and> ss_userData s' = ss_userData s \<or> i = SESSION_OK \<and> (\<exists>off. 4 \<le> off \<and> off \<le> uint l + 3 \<and> ss_userData s' =
       \<lparr>bb_buffer = padd (bb_buffer m) off, bb_size = bb_size m - off, bb_maxSize = bb_maxSize m - off\<rparr>)"
    using parseHeader_total [OF v api, of "uint l" 2 s] byte_bound [of l] s by auto
  have "parse_result m s (if i = SESSION_OK then ind else SESSION_ERROR) s'"
    using h(2,3) ind True by (auto simp: parse_result_def user_data_of_def)
  then show ?thesis using h(1) True by (auto simp: parse_parameters_as_def parseSessionHeaderParameters_def)
qed

lemma message_size: "bb_wf m \<Longrightarrow> bb_bytes m = chain_bytes chain \<Longrightarrow> chain_wf chain \<Longrightarrow> bc_length chain = bb_size m"
  using bb_bytes_length [of m] chain_length [of chain] by simp

lemma released:
  assumes "bb_wf m" and "bb_bytes m = spdu si [] xs" and "bytebuffer_ok api" and "int (length xs) \<le> 253"
    and "(si, ind) \<in> {(9, SESSION_FINISH), (10, SESSION_DISCONNECT)}"
  shows "\<exists>peer'. IsoSession_parseMessage api peer m = Some (ind, peer') \<and>
    bb_wf (IsoSession_getUserData peer') \<and> bb_bytes (IsoSession_getUserData peer') = xs"
  using parse_spdu [OF assms(1,2), of ind api peer] header_end [OF assms(1,2,3), of peer] bb_bytes_length [OF assms(1)] assms(2,4,5)
  by (auto simp: parseSessionHeaderParameters_def IsoSession_getUserData_def outlen)

lemma aborted:
  assumes "bb_wf m" and "bb_bytes m = spdu 25 ps xs"
  shows "IsoSession_parseMessage api peer m = Some (SESSION_ABORT, peer)"
proof -
  have "rd (bb_buffer m) 0 = Some 25" "\<exists>l. rd (bb_buffer m) 1 = Some l" "1 < bb_size m"
    using holds_bb_bytes [OF assms(1)] bb_bytes_length [OF assms(1)] assms(2) by (auto simp: spdu_def)
  then show ?thesis by (auto simp: IsoSession_parseMessage_def)
qed

text \<open>
  C23: Whatever a message of the peer holds, \<open>IsoSession_parseMessage\<close> is memory safe if the
  buffer of the message has at least 515 octets: it returns, keeps the selectors within their
  arrays, and on an indication with user data makes the user data a suffix of the message that
  starts at octet 4 or later (possibly one octet behind the end of the message); on any other
  indication it leaves the user data alone.
\<close>

theorem session_parse_safe:
  assumes "bytebuffer_ok api" and "bb_wf m" and "515 \<le> bb_maxSize m" and "session_ok s"
  shows "\<exists>ind s'. IsoSession_parseMessage api s m = Some (ind, s') \<and> parse_result m s ind s'"
proof -
  have v: "valid_range (bb_buffer m) 0 515" using assms(2,3) by (auto simp: bb_wf_def valid_range_def)
  obtain t l x y where r: "rd (bb_buffer m) 0 = Some t" "rd (bb_buffer m) 1 = Some l" "rd (bb_buffer m) 2 = Some x" "rd (bb_buffer m) 3 = Some y"
    using rd_valid [OF v, of 0] rd_valid [OF v, of 1] rd_valid [OF v, of 2] rd_valid [OF v, of 3] by auto
  note par = parse_parameters_total [OF v assms(1,4), of _ l]
  consider "bb_size m \<le> 1" | "1 < bb_size m" "t \<in> {13, 14, 9, 10}" | "1 < bb_size m" "t \<notin> {13, 14, 9, 10, 1}"
    | "1 < bb_size m" "t = 1" "4 \<le> bb_size m" "l = 0 \<and> x = 1 \<and> y = 0"
    | "1 < bb_size m" "t = 1" "\<not> (4 \<le> bb_size m \<and> l = 0 \<and> x = 1 \<and> y = 0)"
    by fastforce
  then show ?thesis
  proof cases
    case 2
    then show ?thesis using r par [of SESSION_CONNECT] par [of SESSION_FINISH] par [of SESSION_DISCONNECT]
      by (auto simp: IsoSession_parseMessage_def)
  next
    case 4
    have "user_data_of m \<lparr>bb_buffer = padd (bb_buffer m) 4, bb_size = bb_size m - 4, bb_maxSize = bb_maxSize m - 4\<rparr>"
      using 4 by (auto simp: user_data_of_def intro!: exI [of _ 4])
    then show ?thesis using 4 r assms(4)
      by (simp add: IsoSession_parseMessage_def bytebuffer_simps [OF assms(1)] parse_result_def session_ok_def)
  next
    case 5
    then have "IsoSession_parseMessage api s m = Some (SESSION_ERROR, s)"
      using r by (auto simp: IsoSession_parseMessage_def Let_def)
    then show ?thesis using assms(4) by (simp add: parse_result_def)
  qed (use r assms(4) in \<open>auto simp: IsoSession_parseMessage_def parse_result_def\<close>)
qed

text \<open>
  C20: A connect SPDU is read back by the peer: \<open>IsoSession_parseMessage\<close> reports a connection
  with the selectors of the connection parameters, the session requirement of the caller and
  the payload as user data, provided that the SPDU has at most 257 octets. The single length
  octet of a longer SPDU is truncated, and the peer rejects the message.
\<close>

theorem session_connect_roundtrip:
  assumes "bytebuffer_ok api" and "params_ok p" and "chain_wf payload" and "0 < bc_partLength payload"
    and "valid_range (bc_buffer buffer) 0 52"
  shows "\<exists>self' chain. IsoSession_createConnectSpdu self p buffer payload = Some (self', chain) \<and> chain_wf chain \<and>
    (\<forall>m peer. bb_wf m \<longrightarrow> bb_bytes m = chain_bytes chain \<longrightarrow> session_ok peer \<longrightarrow> (if bc_length chain \<le> 257
      then \<exists>peer'. IsoSession_parseMessage api peer m = Some (SESSION_CONNECT, peer') \<and> session_ok peer' \<and>
        sel_bytes (callingSessionSelector peer') = sel_bytes (localSSelector p) \<and>
        sel_bytes (calledSessionSelector peer') = sel_bytes (remoteSSelector p) \<and>
        sessionRequirement peer' = sessionRequirement self \<and> protocolOptions peer' = 0 \<and>
        bb_wf (IsoSession_getUserData peer') \<and> bb_bytes (IsoSession_getUserData peer') = chain_bytes payload
      else IsoSession_parseMessage api peer m = Some (SESSION_ERROR, peer)))"
proof -
  obtain self' chain where c: "IsoSession_createConnectSpdu self p buffer payload = Some (self', chain)" "chain_wf chain"
    "chain_bytes chain = spdu 13 (connect_params (localSSelector p) (remoteSSelector p) (sessionRequirement self)) (chain_bytes payload)"
    using createConnectSpdu_run [OF assms(2-5), of self] by blast
  have sel: "selector_ok 16 (localSSelector p)" "selector_ok 16 (remoteSSelector p)" using assms(2) by (simp_all add: params_ok_def)
  show ?thesis
    apply (rule exI [of _ self'], rule exI [of _ chain], intro conjI allI impI)
    subgoal by (rule c(1))
    subgoal by (rule c(2))
    subgoal premises m for m peer
      using connect_params_parsed [OF m(1) trans [OF m(2) c(3)] assms(1) m(3) sel]
        parse_spdu [OF m(1) trans [OF m(2) c(3)], of SESSION_CONNECT api peer] m(3) sel message_size [OF m(1,2) c(2)]
      by (auto simp: session_ok_def stored_bytes stored_ok IsoSession_getUserData_def)
    done
qed

text \<open>
  C21: An accept SPDU carries the protocol options, the session requirement, the called
  selector and the payload back to the caller, again up to 257 octets.
\<close>

theorem session_accept_roundtrip:
  assumes "bytebuffer_ok api" and "session_ok self" and "chain_wf payload" and "0 < bc_partLength payload"
    and "valid_range (bc_buffer buffer) 0 34"
  shows "\<exists>chain. IsoSession_createAcceptSpdu self buffer payload = Some chain \<and> chain_wf chain \<and>
    (\<forall>m peer. bb_wf m \<longrightarrow> bb_bytes m = chain_bytes chain \<longrightarrow> session_ok peer \<longrightarrow> (if bc_length chain \<le> 257
      then \<exists>peer'. IsoSession_parseMessage api peer m = Some (SESSION_CONNECT, peer') \<and> session_ok peer' \<and>
        callingSessionSelector peer' = callingSessionSelector peer \<and>
        sel_bytes (calledSessionSelector peer') = sel_bytes (calledSessionSelector self) \<and>
        sessionRequirement peer' = sessionRequirement self \<and> protocolOptions peer' = protocolOptions self \<and>
        bb_wf (IsoSession_getUserData peer') \<and> bb_bytes (IsoSession_getUserData peer') = chain_bytes payload
      else IsoSession_parseMessage api peer m = Some (SESSION_ERROR, peer)))"
proof -
  obtain chain where c: "IsoSession_createAcceptSpdu self buffer payload = Some chain" "chain_wf chain" "chain_bytes chain =
      spdu 14 (accept_params (protocolOptions self) (calledSessionSelector self) (sessionRequirement self)) (chain_bytes payload)"
    using createAcceptSpdu_run [OF assms(2-5)] by blast
  have sel: "selector_ok 16 (calledSessionSelector self)" using assms(2) by (simp add: session_ok_def)
  show ?thesis
    apply (rule exI [of _ chain], intro conjI allI impI)
    subgoal by (rule c(1))
    subgoal by (rule c(2))
    subgoal premises m for m peer
      using accept_params_parsed [OF m(1) trans [OF m(2) c(3)] assms(1) m(3) sel]
        parse_spdu [OF m(1) trans [OF m(2) c(3)], of SESSION_CONNECT api peer] m(3) sel message_size [OF m(1,2) c(2)]
      by (auto simp: session_ok_def stored_bytes stored_ok IsoSession_getUserData_def)
    done
qed

text \<open>
  C22: The SPDUs that release or abort a session are recognised by the peer, and a finish or
  disconnect SPDU delivers its payload of up to 253 octets.
\<close>

theorem session_release_roundtrip:
  assumes "bytebuffer_ok api" and "chain_wf payload" and "0 < bc_partLength payload" and "bc_length payload \<le> 253"
    and "valid_range (bc_buffer buffer) 0 7"
    and "(create, ind) \<in> {(IsoSession_createFinishSpdu, SESSION_FINISH), (IsoSession_createDisconnectSpdu, SESSION_DISCONNECT),
      (IsoSession_createAbortSpdu, SESSION_ABORT)}"
  shows "\<exists>chain. create buffer payload = Some chain \<and> chain_wf chain \<and>
    (\<forall>m peer. bb_wf m \<longrightarrow> bb_bytes m = chain_bytes chain \<longrightarrow>
      (\<exists>peer'. IsoSession_parseMessage api peer m = Some (ind, peer') \<and>
        (if ind = SESSION_ABORT then peer' = peer
         else bb_wf (IsoSession_getUserData peer') \<and> bb_bytes (IsoSession_getUserData peer') = chain_bytes payload)))"
proof -
  have len: "int (length (chain_bytes payload)) \<le> 253" using chain_length [OF assms(2)] assms(4) by simp
  obtain chain where "create buffer payload = Some chain \<and> chain_wf chain \<and>
      (ind = SESSION_FINISH \<and> chain_bytes chain = spdu 9 [] (chain_bytes payload) \<or>
       ind = SESSION_DISCONNECT \<and> chain_bytes chain = spdu 10 [] (chain_bytes payload) \<or>
       ind = SESSION_ABORT \<and> chain_bytes chain = spdu 25 [17, 1, 11] (chain_bytes payload))"
    using createSpdu_run [OF assms(2,3,5)] assms(6) by auto
  then show ?thesis using released [OF _ _ assms(1) len] aborted by (auto intro!: exI [of _ chain])
qed

text \<open>
  The parser trusts that a parameter header is followed by its length octet. A message
  that ends with the type octet of the user data parameter is accepted, and its user data
  has the size -1.
\<close>

theorem session_truncated_user_data:
  assumes "bytebuffer_ok api" and "bb_wf m" and "4 \<le> bb_maxSize m"
    and "bb_bytes m = [si, 1, 193]" and "(si, ind) \<in> {(13, SESSION_CONNECT), (14, SESSION_CONNECT), (9, SESSION_FINISH), (10, SESSION_DISCONNECT)}"
  shows "\<exists>s'. IsoSession_parseMessage api s m = Some (ind, s') \<and> bb_size (IsoSession_getUserData s') = -1"
proof -
  have sz: "bb_size m = 3" using bb_bytes_length [OF assms(2)] assms(4) by simp
  have r: "rd (bb_buffer m) 0 = Some si" "rd (bb_buffer m) 1 = Some 1" "rd (bb_buffer m) 2 = Some 193"
    using holds_bb_bytes [OF assms(2,4)] by simp_all
  obtain l where l: "rd (bb_buffer m) 3 = Some l"
    using rd_valid [of "bb_buffer m" 0 4 3] assms(2,3) by (auto simp: bb_wf_def valid_range_def)
  have "parseSessionHeaderParameters api s m 1 = Some (SESSION_OK, s\<lparr>ss_userData :=
      \<lparr>bb_buffer = padd (bb_buffer m) 4, bb_size = -1, bb_maxSize = bb_maxSize m - 4\<rparr>\<rparr>)"
    unfolding parseSessionHeaderParameters_def using r l sz
    by (subst parseSessionHeaderParameters_loop.simps) (simp add: bytebuffer_simps [OF assms(1)])
  then show ?thesis using r sz assms(5)
    by (auto simp: IsoSession_parseMessage_def parse_parameters_as_def IsoSession_getUserData_def)
qed

section \<open>Examples\<close>

lemma session_init_ok [simp]: "session_ok IsoSession_init"
  by (simp add: session_ok_def IsoSession_init_def default_SSelector_def selector_ok_def)

theorem session_parse_safe_witness:
  "\<exists>ind s'. IsoSession_parseMessage plain_bytebuffer IsoSession_init (message_of [13, 2, 51, 255]) = Some (ind, s') \<and>
    parse_result (message_of [13, 2, 51, 255]) IsoSession_init ind s'"
  by (rule session_parse_safe) (simp_all add: plain_bytebuffer_ok)

theorem session_connect_roundtrip_witness:
  "\<exists>self' chain peer'. IsoSession_createConnectSpdu IsoSession_init (IsoConnectionParameters_create :: unit IsoConnectionParameters)
      example_part example_payload = Some (self', chain) \<and>
    IsoSession_parseMessage plain_bytebuffer IsoSession_init (message_of (chain_bytes chain)) = Some (SESSION_CONNECT, peer') \<and>
    bb_bytes (IsoSession_getUserData peer') = [0x31, 0x32, 0x33]"
proof -
  let ?p = "IsoConnectionParameters_create :: unit IsoConnectionParameters"
  obtain self' chain where c: "IsoSession_createConnectSpdu IsoSession_init ?p example_part example_payload = Some (self', chain)"
    "chain_wf chain" "chain_bytes chain = spdu 13 (connect_params (localSSelector ?p) (remoteSSelector ?p)
      (sessionRequirement IsoSession_init)) [0x31, 0x32, 0x33]"
    using createConnectSpdu_run [of ?p example_payload example_part IsoSession_init] by auto
  have "bc_length chain = 23"
    using chain_length [OF c(2)] c(3)
    by (simp add: outlen connect_params_def selector_item_def sel_bytes_def IsoConnectionParameters_create_def zero_selector_def)
  then show ?thesis
    using session_connect_roundtrip [OF plain_bytebuffer_ok, of ?p example_payload example_part IsoSession_init] c(1)
      message_of session_init_ok by (simp; fastforce)
qed

theorem session_accept_roundtrip_witness:
  "\<exists>chain peer'. IsoSession_createAcceptSpdu IsoSession_init example_part example_payload = Some chain \<and>
    IsoSession_parseMessage plain_bytebuffer IsoSession_init (message_of (chain_bytes chain)) = Some (SESSION_CONNECT, peer') \<and>
    bb_bytes (IsoSession_getUserData peer') = [0x31, 0x32, 0x33]"
proof -
  obtain chain where c: "IsoSession_createAcceptSpdu IsoSession_init example_part example_payload = Some chain" "chain_wf chain"
    "chain_bytes chain = spdu 14 (accept_params (protocolOptions IsoSession_init) (calledSessionSelector IsoSession_init)
      (sessionRequirement IsoSession_init)) [0x31, 0x32, 0x33]"
    using createAcceptSpdu_run [of IsoSession_init example_payload example_part] by auto
  have "bc_length chain = 23"
    using chain_length [OF c(2)] c(3)
    by (simp add: outlen accept_params_def selector_item_def sel_bytes_def IsoSession_init_def default_SSelector_def)
  then show ?thesis
    using session_accept_roundtrip [OF plain_bytebuffer_ok, of IsoSession_init example_payload example_part] c(1)
      message_of session_init_ok by (simp; fastforce)
qed

theorem session_release_roundtrip_witness:
  "\<exists>chain peer'. IsoSession_createFinishSpdu example_part example_payload = Some chain \<and>
    IsoSession_parseMessage plain_bytebuffer IsoSession_init (message_of (chain_bytes chain)) = Some (SESSION_FINISH, peer') \<and>
    bb_bytes (IsoSession_getUserData peer') = [0x31, 0x32, 0x33]"
  using session_release_roundtrip [OF plain_bytebuffer_ok, of example_payload example_part IsoSession_createFinishSpdu SESSION_FINISH]
    message_of session_init_ok
  by (simp; fastforce)

theorem session_truncated_user_data_witness:
  "\<exists>s'. IsoSession_parseMessage plain_bytebuffer IsoSession_init (message_of [13, 1, 193]) = Some (SESSION_CONNECT, s') \<and>
    bb_size (IsoSession_getUserData s') = -1"
  by (rule session_truncated_user_data [of _ _ 13]) (simp_all add: plain_bytebuffer_ok)

end
