(* ===== verification/Ber_Parser.thy ===== *)
theory Ber_Parser
  imports Ber_Decoder Stack_Buffers
begin

text \<open>
  The step that every parser of a BER message repeats: read a tag, decode the length that
  follows it, give up if the length is invalid. Two facts about it carry the proofs of the
  parsers: on any input it stays inside the message and moves forward, and on what the
  encoder writes it returns the tag and the length.
\<close>

declare split_paired_All [simp del] split_paired_Ex [simp del]

text \<open>
  \<open>bufPos = BerDecoder_decodeLength(buffer, &len, bufPos, maxBufPos); if (bufPos < 0) return \<dots>\<close>:
  the result \<open>None\<close> below \<open>Some\<close> is the early return. A length that was never stored is
  not read.
\<close>

definition decodeLength_or_fail :: "ptr \<Rightarrow> int \<Rightarrow> int \<Rightarrow> (int \<times> int) option option" where
  "decodeLength_or_fail buffer bufPos maxBufPos = do {
     (bufPos, stored) \<leftarrow> BerDecoder_decodeLength buffer bufPos maxBufPos;
     if bufPos < 0 then Some None else do { len \<leftarrow> stored; Some (Some (bufPos, len)) } }"

text \<open>\<open>tag = buffer[bufPos++]\<close> in front of it.\<close>

definition decodeTL :: "ptr \<Rightarrow> int \<Rightarrow> int \<Rightarrow> (byte \<times> int \<times> int) option option" where
  "decodeTL buffer bufPos maxBufPos = do {
     tag \<leftarrow> rd buffer bufPos;
     r \<leftarrow> decodeLength_or_fail buffer (bufPos + 1) maxBufPos;
     case r of None \<Rightarrow> Some None | Some (bufPos, len) \<Rightarrow> Some (Some (tag, bufPos, len)) }"

lemma decodeLength_or_fail_safe:
  assumes "valid_range buffer lo maxBufPos" and "maxBufPos < 2 ^ 22" and "0 \<le> lo" and "lo \<le> bufPos"
  shows "decodeLength_or_fail buffer bufPos maxBufPos = Some None \<or>
    (\<exists>p n. decodeLength_or_fail buffer bufPos maxBufPos = Some (Some (p, n)) \<and> bufPos < p \<and> 0 \<le> n \<and> p + n \<le> maxBufPos)"
proof -
  obtain p l where d: "BerDecoder_decodeLength buffer bufPos maxBufPos = Some (p, l)" "decode_ok bufPos maxBufPos (p, l)"
    using decodeLength_safe [OF assms] by blast
  then show ?thesis using assms(3,4) by (auto simp: decodeLength_or_fail_def decode_ok_def)
qed

lemma decodeLength_or_fail_indefinite:
  assumes "valid_range buffer lo maxBufPos" and "maxBufPos < 2 ^ 22" and "0 \<le> lo" and "lo \<le> bufPos" and "rd buffer bufPos = Some 0x80"
    and "decodeLength_or_fail buffer bufPos maxBufPos = Some (Some (p, n))"
  shows "2 \<le> n"
  using decodeLength_indefinite [OF assms(1-5)] assms(6)
  by (fastforce simp: decodeLength_or_fail_def bind_eq_Some_conv split: if_splits)

lemma decodeTL_safe:
  assumes "valid_range buffer lo hi" and "maxBufPos < 2 ^ 22" and "0 \<le> lo" and "lo \<le> bufPos" and "bufPos < hi" and "maxBufPos \<le> hi"
  shows "decodeTL buffer bufPos maxBufPos = Some None \<or>
    (\<exists>tag p n. decodeTL buffer bufPos maxBufPos = Some (Some (tag, p, n)) \<and> rd buffer bufPos = Some tag \<and>
      bufPos + 1 < p \<and> 0 \<le> n \<and> p + n \<le> maxBufPos)"
proof -
  have "valid_range buffer lo maxBufPos" using assms(1,6) by (auto simp: valid_range_def)
  then have "decodeLength_or_fail buffer (bufPos + 1) maxBufPos = Some None \<or>
    (\<exists>p n. decodeLength_or_fail buffer (bufPos + 1) maxBufPos = Some (Some (p, n)) \<and> bufPos + 1 < p \<and> 0 \<le> n \<and> p + n \<le> maxBufPos)"
    using decodeLength_or_fail_safe [of buffer lo maxBufPos "bufPos + 1"] assms(2-4) by auto
  moreover obtain tag where "rd buffer bufPos = Some tag" using rd_valid [OF assms(1,4,5)] by blast
  ultimately show ?thesis by (auto simp: decodeTL_def)
qed

text \<open>A tag with the length of the contents, as \<open>BerEncoder_encodeTL\<close> writes it.\<close>

definition tl_octets :: "byte \<Rightarrow> int \<Rightarrow> byte list" where
  "tl_octets tag n = tag # len_octets n"

definition tlv :: "byte \<Rightarrow> byte list \<Rightarrow> byte list" where
  "tlv tag xs = tl_octets tag (int (length xs)) @ xs"

lemma encodeTL_tl_octets [emits]: "0 \<le> n \<Longrightarrow> n < 2 ^ 32 \<Longrightarrow> BerEncoder_encodeTL tag (word_of_int n) = emit (tl_octets tag n)"
  by (rule ext) (simp add: encodeTL_emits uint32_of_int tl_octets_def)

lemma length_tl_octets [outlen]: "length (tl_octets tag n) = Suc (length (len_octets n))"
  by (simp add: tl_octets_def)

lemma length_tlv [outlen]: "length (tlv tag xs) = Suc (length (len_octets (int (length xs))) + length xs)"
  by (simp add: tlv_def outlen)

lemma length_tl_octets_le: "length (tl_octets tag n) \<le> 5" "2 \<le> length (tl_octets tag n)"
  by (auto simp: tl_octets_def length_len_octets)

lemma determineLengthSize_octets:
  "0 \<le> n \<Longrightarrow> n < 2 ^ 32 \<Longrightarrow> n \<noteq> 65535 \<Longrightarrow>
   1 + BerEncoder_determineLengthSize (word_of_int n) = int (length (tl_octets tag n))"
  using determineLengthSize_correct [of "word_of_int n"] by (simp add: uint32_of_int outlen)

lemma decodeTL_tl_octets:
  assumes "holds buffer bufPos (tl_octets tag n)" and "0 \<le> n" and "n < 2 ^ 24" and "0 \<le> bufPos" and "maxBufPos < 2 ^ 30"
    and "bufPos + int (length (tl_octets tag n)) + n \<le> maxBufPos"
  shows "decodeTL buffer bufPos maxBufPos = Some (Some (tag, bufPos + int (length (tl_octets tag n)), n))"
proof -
  have "rdn buffer (bufPos + 1) (length (len_octets n)) = Some (len_octets n)" "rd buffer bufPos = Some tag"
    using assms(1) by (simp_all add: tl_octets_def holds_def [symmetric])
  then show ?thesis
    using decodeLength_len_octets [of buffer "bufPos + 1" n maxBufPos] assms(2-)
    by (simp add: decodeTL_def decodeLength_or_fail_def outlen add.assoc)
qed

lemma decodeTL_tlv:
  assumes "holds buffer bufPos (tlv tag xs)" and "length xs < 2 ^ 24" and "0 \<le> bufPos" and "maxBufPos < 2 ^ 30"
    and "bufPos + int (length (tlv tag xs)) \<le> maxBufPos"
  shows "decodeTL buffer bufPos maxBufPos = Some (Some (tag, bufPos + int (length (tlv tag xs)) - int (length xs), int (length xs)))"
    and "holds buffer (bufPos + int (length (tlv tag xs)) - int (length xs)) xs"
  using decodeTL_tl_octets [of buffer bufPos tag "int (length xs)" maxBufPos] assms by (auto simp: tlv_def algebra_simps)

text \<open>The same element where the parser reads the tag and the length in two steps.\<close>

lemma decodeLength_tlv:
  assumes "holds buffer bufPos (tlv tag xs)" and "length xs < 2 ^ 24" and "0 \<le> bufPos" and "maxBufPos < 2 ^ 30"
    and "bufPos + int (length (tlv tag xs)) \<le> maxBufPos"
  shows "rd buffer bufPos = Some tag"
    and "decodeLength_or_fail buffer (bufPos + 1) maxBufPos =
      Some (Some (bufPos + int (length (tlv tag xs)) - int (length xs), int (length xs)))"
proof -
  show "rd buffer bufPos = Some tag" using assms(1) by (simp add: tlv_def tl_octets_def)
  then show "decodeLength_or_fail buffer (bufPos + 1) maxBufPos =
      Some (Some (bufPos + int (length (tlv tag xs)) - int (length xs), int (length xs)))"
    using decodeTL_tlv(1) [OF assms] by (auto simp: decodeTL_def bind_eq_Some_conv split: option.splits prod.splits)
qed

text \<open>A length that reaches past the end of the message is refused.\<close>

lemma decodeLength_octets_announced:
  "rdn buffer p k = Some xs \<Longrightarrow> decodeLength_octets buffer maxBufPos k p acc = Some (Inr (q, len)) \<Longrightarrow>
   q = p + int k \<and> len = acc * 256 ^ k + be_uint xs"
proof (induction k arbitrary: p acc xs)
  case (Suc k)
  then obtain y ys where y: "rd buffer p = Some y" "rdn buffer (p + 1) k = Some ys" "xs = y # ys" by (auto simp: bind_eq_Some_conv)
  have "decodeLength_octets buffer maxBufPos k (p + 1) (acc * 256 + uint y) = Some (Inr (q, len))"
    using Suc.prems(2) y(1) by (auto simp: bind_eq_Some_conv i32_def split: if_splits)
  from Suc.IH [OF y(2) this] show ?case using y(3) length_rdn [OF y(2)] by (simp add: be_uint_Cons algebra_simps)
qed (simp add: be_uint_def)

lemma decodeLength_announced:
  assumes r: "rdn buffer p (length (len_octets n)) = Some (len_octets n)" and n: "0 \<le> n" "n < 2 ^ 24"
    and d: "BerDecoder_decodeLength buffer p maxBufPos = Some (q, l)" "0 \<le> q"
  shows "l = Some n \<and> q = p + int (length (len_octets n))"
proof (cases "n < 128")
  case True
  then have "rd buffer p = Some (word_of_int n)" using r by (simp add: len_octets_def bind_eq_Some_conv)
  moreover have "(word_of_int n :: byte) AND 0x80 = 0" using True n by (simp add: byte_sign_bit uint_byte_of_int)
  ultimately show ?thesis using True n d
    by (auto simp: BerDecoder_decodeLength_def BerDecoder_decodeLengthRecursive.simps decodeLength_check_def len_octets_def uint_byte_of_int
        Let_def bind_eq_Some_conv split: if_splits)
next
  case False
  then obtain b xs where o: "len_octets n = b # xs" "b AND 0x80 \<noteq> 0" "unat (b AND 0x7f) = length xs" "xs \<noteq> []" "be_uint xs = n"
    using len_octets_long [of n] n by auto
  have b: "rd buffer p = Some b" "rdn buffer (p + 1) (length xs) = Some xs" "b AND 0x7f \<noteq> 0"
    using r o unfolding o(1) rdn_Cons by auto
  obtain s where s: "decodeLength_octets buffer maxBufPos (length xs) (p + 1) 0 = Some s"
      "(case s of Inl len \<Rightarrow> Some (- 1, Some len) | Inr (bufPos, len) \<Rightarrow> decodeLength_check maxBufPos bufPos len) = Some (q, l)"
    using d b o
    by (auto simp: BerDecoder_decodeLength_def BerDecoder_decodeLengthRecursive.simps Let_def bind_eq_Some_conv split: if_splits)
  then obtain bufPos len where "s = Inr (bufPos, len)" using d(2) by (auto split: sum.splits)
  with s decodeLength_octets_announced [OF b(2), of maxBufPos 0 bufPos len] d(2) o(1,5) show ?thesis
    by (auto simp: decodeLength_check_def bind_eq_Some_conv split: if_splits)
qed

lemma decodeTL_too_long:
  assumes "holds buffer p (tl_octets tag n)" and "0 \<le> n" "n < 2 ^ 24" and "0 \<le> p" "p < maxBufPos" "maxBufPos < 2 ^ 22"
    and "valid_range buffer 0 maxBufPos" and "maxBufPos < p + int (length (tl_octets tag n)) + n"
  shows "decodeTL buffer p maxBufPos = Some None"
proof -
  have r: "rdn buffer (p + 1) (length (len_octets n)) = Some (len_octets n)"
    using assms(1) by (simp add: tl_octets_def holds_def [symmetric])
  show ?thesis
    using decodeTL_safe [OF assms(7,6) order_refl assms(4,5) order_refl] decodeLength_announced [OF r assms(2,3), of maxBufPos] assms(4,8)
    by (fastforce simp: decodeTL_def decodeLength_or_fail_def bind_eq_Some_conv outlen split: if_splits option.splits)
qed

lemma tlv_short: "length xs < 128 \<Longrightarrow> tlv tag xs = tag # word_of_int (int (length xs)) # xs"
  by (simp add: tlv_def tl_octets_def len_octets_def)

lemma length_tlv_le: "length xs + 2 \<le> length (tlv tag xs) \<and> length (tlv tag xs) \<le> length xs + 5"
  using length_tl_octets_le [of tag "int (length xs)"] by (simp add: tlv_def)

section \<open>A header in front of a payload\<close>

text \<open>
  \<open>writeBuffer->partLength = bufPos; writeBuffer->length = bufPos + payload->length;
  writeBuffer->nextPart = payload\<close>, the last step of the encoders.
\<close>

definition finish_part :: "BufferChain \<Rightarrow> BufferChain \<Rightarrow> cursor \<Rightarrow> BufferChain" where
  "finish_part writeBuffer payload s =
     BufferChain (snd s + bc_length payload) (snd s) (bc_partMaxLength writeBuffer) (fst s) (Some payload)"

lemma decodeUint32_total:
  assumes "valid_range buffer 0 hi" and "0 \<le> p" and "0 \<le> n" and "p + n \<le> hi"
  shows "\<exists>v. BerDecoder_decodeUint32 buffer n p = Some v"
proof -
  have "valid_range buffer p (p + int (nat n))" using assms by (auto simp: valid_range_def)
  then show ?thesis using decodeUint32_value [OF rdn_valid] assms(3) by fastforce
qed

lemma rdn_total: "valid_range buffer 0 hi \<Longrightarrow> 0 \<le> p \<Longrightarrow> p + int n \<le> hi \<Longrightarrow> \<exists>xs. rdn buffer p n = Some xs"
  using rdn_valid [of buffer p n] by (auto simp: valid_range_def)

lemma encodeTL_small:
  "BerEncoder_encodeTL tag (ucast (n :: byte)) = emit (tl_octets tag (uint n))"
  using encodeTL_tl_octets [of "uint n" tag] byte_bound [of n] by simp

lemma encodeTL_short: "0 \<le> n \<Longrightarrow> n < 128 \<Longrightarrow> BerEncoder_encodeTL tag (word_of_int n) = emit [tag, word_of_int n]"
  using encodeTL_tl_octets [of n tag] by (simp add: tl_octets_def len_octets_def)

lemma encodeTL_num:
  "BerEncoder_encodeTL tag 1 = emit [tag, 1]"
  "numeral k < (128 :: int) \<Longrightarrow> BerEncoder_encodeTL tag (numeral k) = emit [tag, numeral k]"
  using encodeTL_short [of 1 tag] encodeTL_short [of "numeral k" tag] by simp_all

lemma finish_part_run:
  assumes c: "chain_wf payload" "0 < bc_partLength payload" and v: "valid_range (bc_buffer wb) 0 (int (length h))"
  shows "\<exists>chain. do { s \<leftarrow> emit h (bc_buffer wb, 0); Some (finish_part wb payload s) } = Some chain \<and> chain_wf chain \<and>
    bc_partLength chain = int (length h) \<and> chain_bytes chain = h @ chain_bytes payload"
  using chain_header [OF c v refl refl] emit_valid [of "bc_buffer wb" 0 h] v by (simp add: finish_part_def add.commute)

lemma decodeUint32_octet: "rd buffer p = Some b \<Longrightarrow> BerDecoder_decodeUint32 buffer 1 p = Some (ucast b)"
  using decodeUint32_value [of buffer p 1 "[b]"] by (simp add: be_uint_Cons)

lemma octet_back: "ucast (ucast (b :: byte) :: 32 word) = b"
  by (rule bit_word_eqI) (simp add: bit_simps)

lemma definite_length: "0 \<le> n \<Longrightarrow> \<exists>l ls. len_octets n = l # ls \<and> l \<noteq> 0x80"
proof (cases "n < 128")
  case True
  assume "0 \<le> n"
  then have "uint (word_of_int n :: byte) \<noteq> uint (0x80 :: byte)" using True by (simp add: uint_word_of_int)
  then show ?thesis using True by (auto simp: len_octets_def)
qed (simp add: len_octets_def)

lemma chain_nonempty: "chain_wf c \<Longrightarrow> 0 < bc_partLength c \<Longrightarrow> chain_bytes c \<noteq> []"
  by (cases c) (auto simp: length_octets_at dest!: arg_cong [of _ "[]" length])

end
