(* ===== verification/Iso_Presentation.thy ===== *)
theory Iso_Presentation
  imports Ber_Parser Iso_Connection_Parameters
begin

text \<open>
  The presentation layer (\<^verbatim>\<open>iso_presentation/iso_presentation.c\<close>): its state, the encoders
  of its protocol data units and the parsers. A presentation PDU is a BER value whose inner
  element \<open>user-data\<close> (tag \<open>0x61\<close>) carries the payload of the layer above together with the
  identifier of the presentation context it belongs to (1 for ACSE, 3 for MMS).

  The loops of the parsers over the elements of a BER value are \<open>partial_function\<close>s; that they
  end, inside the message, is proved in the theory \<open>Iso_Presentation_Props\<close>.
\<close>

section \<open>Data\<close>

record IsoPresentation =
  callingPresentationSelector :: PSelector
  calledPresentationSelector :: PSelector
  nextContextId :: byte
  acseContextId :: byte
  mmsContextId :: byte
  nextPayload :: ByteBuffer

text \<open>The static array \<open>calledPresentationSelector\<close> of the source.\<close>

definition static_calledPresentationSelector :: "byte list" where
  "static_calledPresentationSelector = [0x00, 0x00, 0x00, 0x01]"

definition asn_id_as_acse :: "byte list" where
  "asn_id_as_acse = [0x52, 0x01, 0x00, 0x01]"

definition asn_id_mms :: "byte list" where
  "asn_id_mms = [0x28, 0xca, 0x22, 0x02, 0x01]"

definition ber_id :: "byte list" where
  "ber_id = [0x51, 0x01]"

section \<open>Encoding\<close>

text \<open>
  The encoders take the cursor \<open>(buffer, bufPos)\<close>; \<open>memcpy(buffer + bufPos, xs, n); bufPos += n\<close>
  of a static array is \<open>emit xs\<close>.
\<close>

definition encodeAcceptBer :: "cursor \<Rightarrow> cursor option" where
  "encodeAcceptBer s = do {
     s \<leftarrow> BerEncoder_encodeTL 0x30 7 s;
     s \<leftarrow> BerEncoder_encodeTL 0x80 1 s;
     s \<leftarrow> put 0 s;
     s \<leftarrow> BerEncoder_encodeTL 0x81 2 s;
     s \<leftarrow> put 0x51 s;
     put 0x01 s }"

text \<open>The lengths that both branches of \<open>encodeUserData\<close> compute first.\<close>

definition encodedDataSetLength :: "BufferChain \<Rightarrow> int" where
  "encodedDataSetLength payload =
     3 + (bc_length payload + 1) + BerEncoder_determineLengthSize (word_of_int (bc_length payload))"

definition fullyEncodedDataLength :: "BufferChain \<Rightarrow> int" where
  "fullyEncodedDataLength payload = encodedDataSetLength payload +
     (BerEncoder_determineLengthSize (word_of_int (encodedDataSetLength payload)) + 1)"

text \<open>\<open>encodeUserData\<close> with \<open>encode = false\<close> returns a length, with \<open>encode = true\<close> it writes.\<close>

definition encodeUserData_length :: "BufferChain \<Rightarrow> int" where
  "encodeUserData_length payload =
     (fullyEncodedDataLength payload + 1) + BerEncoder_determineLengthSize (word_of_int (fullyEncodedDataLength payload))"

definition encodeUserData :: "BufferChain \<Rightarrow> byte \<Rightarrow> cursor \<Rightarrow> cursor option" where
  "encodeUserData payload contextId s = do {
     s \<leftarrow> BerEncoder_encodeTL 0x61 (word_of_int (fullyEncodedDataLength payload)) s;
     s \<leftarrow> BerEncoder_encodeTL 0x30 (word_of_int (encodedDataSetLength payload)) s;
     s \<leftarrow> BerEncoder_encodeTL 0x02 1 s;
     s \<leftarrow> put contextId s;
     BerEncoder_encodeTL 0xa0 (word_of_int (bc_length payload)) s }"

definition createConnectPdu :: "IsoPresentation \<Rightarrow> BufferChain \<Rightarrow> BufferChain \<Rightarrow> BufferChain option" where
  "createConnectPdu self writeBuffer payload = do {
     let contentLength = 5;
     let normalModeLength = 12;
     let pclLength = 27;
     let pclLength = pclLength + uint (sel_size (callingPresentationSelector self));
     let pclLength = pclLength + uint (sel_size (calledPresentationSelector self));
     let normalModeLength = normalModeLength + pclLength;
     let normalModeLength = normalModeLength + encodeUserData_length payload;
     let normalModeLength = normalModeLength + 2;
     let contentLength = contentLength + normalModeLength;
     let contentLength = contentLength + (1 + BerEncoder_determineLengthSize (word_of_int normalModeLength));
     s \<leftarrow> BerEncoder_encodeTL 0x31 (word_of_int contentLength) (bc_buffer writeBuffer, 0);
     s \<leftarrow> BerEncoder_encodeTL 0xa0 3 s;
     s \<leftarrow> BerEncoder_encodeTL 0x80 1 s;
     s \<leftarrow> put 1 s;
     s \<leftarrow> BerEncoder_encodeTL 0xa2 (word_of_int normalModeLength) s;
     s \<leftarrow> BerEncoder_encodeTL 0x81 (ucast (sel_size (callingPresentationSelector self))) s;
     s \<leftarrow> copy_bytes (sel_value (callingPresentationSelector self), 0) (uint (sel_size (callingPresentationSelector self))) s;
     s \<leftarrow> BerEncoder_encodeTL 0x82 (ucast (sel_size (calledPresentationSelector self))) s;
     s \<leftarrow> copy_bytes (sel_value (calledPresentationSelector self), 0) (uint (sel_size (calledPresentationSelector self))) s;
     s \<leftarrow> BerEncoder_encodeTL 0xa4 35 s;
     s \<leftarrow> BerEncoder_encodeTL 0x30 15 s;
     s \<leftarrow> BerEncoder_encodeTL 0x02 1 s;
     s \<leftarrow> put 1 s;
     s \<leftarrow> BerEncoder_encodeTL 0x06 4 s;
     s \<leftarrow> emit asn_id_as_acse s;
     s \<leftarrow> BerEncoder_encodeTL 0x30 4 s;
     s \<leftarrow> BerEncoder_encodeTL 0x06 2 s;
     s \<leftarrow> emit ber_id s;
     s \<leftarrow> BerEncoder_encodeTL 0x30 16 s;
     s \<leftarrow> BerEncoder_encodeTL 0x02 1 s;
     s \<leftarrow> put 3 s;
     s \<leftarrow> BerEncoder_encodeTL 0x06 5 s;
     s \<leftarrow> emit asn_id_mms s;
     s \<leftarrow> BerEncoder_encodeTL 0x30 4 s;
     s \<leftarrow> BerEncoder_encodeTL 0x06 2 s;
     s \<leftarrow> emit ber_id s;
     s \<leftarrow> encodeUserData payload (acseContextId self) s;
     Some (finish_part writeBuffer payload s) }"

definition IsoPresentation_createConnectPdu ::
  "IsoPresentation \<Rightarrow> 'tls IsoConnectionParameters \<Rightarrow> BufferChain \<Rightarrow> BufferChain \<Rightarrow> (IsoPresentation \<times> BufferChain) option" where
  "IsoPresentation_createConnectPdu self parameters buffer payload = do {
     let self = self\<lparr>acseContextId := 1\<rparr>;
     let self = self\<lparr>mmsContextId := 3\<rparr>;
     let self = self\<lparr>callingPresentationSelector := localPSelector parameters\<rparr>;
     let self = self\<lparr>calledPresentationSelector := remotePSelector parameters\<rparr>;
     chain \<leftarrow> createConnectPdu self buffer payload;
     Some (self, chain) }"

definition IsoPresentation_createAbortUserMessage :: "IsoPresentation \<Rightarrow> BufferChain \<Rightarrow> BufferChain \<Rightarrow> BufferChain option" where
  "IsoPresentation_createAbortUserMessage self writeBuffer payload = do {
     let contentLength = encodeUserData_length payload;
     s \<leftarrow> BerEncoder_encodeTL 0xa0 (word_of_int contentLength) (bc_buffer writeBuffer, 0);
     s \<leftarrow> encodeUserData payload (acseContextId self) s;
     Some (finish_part writeBuffer payload s) }"

definition IsoPresentation_createCpaMessage :: "IsoPresentation \<Rightarrow> BufferChain \<Rightarrow> BufferChain \<Rightarrow> BufferChain option" where
  "IsoPresentation_createCpaMessage self writeBuffer payload = do {
     let contentLength = 5;
     let normalModeLength = 6;
     let normalModeLength = normalModeLength + 20;
     let normalModeLength = normalModeLength + encodeUserData_length payload;
     let contentLength = contentLength + normalModeLength;
     let contentLength = contentLength + (BerEncoder_determineLengthSize (word_of_int normalModeLength) + 1);
     s \<leftarrow> BerEncoder_encodeTL 0x31 (word_of_int contentLength) (bc_buffer writeBuffer, 0);
     s \<leftarrow> BerEncoder_encodeTL 0xa0 3 s;
     s \<leftarrow> BerEncoder_encodeTL 0x80 1 s;
     s \<leftarrow> put 1 s;
     s \<leftarrow> BerEncoder_encodeTL 0xa2 (word_of_int normalModeLength) s;
     s \<leftarrow> BerEncoder_encodeTL 0x83 4 s;
     s \<leftarrow> emit static_calledPresentationSelector s;
     s \<leftarrow> BerEncoder_encodeTL 0xa5 18 s;
     s \<leftarrow> encodeAcceptBer s;
     s \<leftarrow> encodeAcceptBer s;
     s \<leftarrow> encodeUserData payload (acseContextId self) s;
     Some (finish_part writeBuffer payload s) }"

text \<open>
  The bodies of \<open>IsoPresentation_createUserData\<close> and \<open>IsoPresentation_createUserDataACSE\<close> differ in
  the context identifier only.
\<close>

definition create_user_data :: "byte \<Rightarrow> BufferChain \<Rightarrow> BufferChain \<Rightarrow> BufferChain option" where
  "create_user_data contextId writeBuffer payload = do {
     let payloadLength = bc_length payload;
     let userDataLengthFieldSize = BerEncoder_determineLengthSize (word_of_int payloadLength);
     let pdvListLength = payloadLength + (userDataLengthFieldSize + 4);
     let pdvListLengthFieldSize = BerEncoder_determineLengthSize (word_of_int pdvListLength);
     let presentationLength = pdvListLength + (pdvListLengthFieldSize + 1);
     s \<leftarrow> BerEncoder_encodeTL 0x61 (word_of_int presentationLength) (bc_buffer writeBuffer, 0);
     s \<leftarrow> BerEncoder_encodeTL 0x30 (word_of_int pdvListLength) s;
     s \<leftarrow> put 0x02 s;
     s \<leftarrow> put 0x01 s;
     s \<leftarrow> put contextId s;
     s \<leftarrow> BerEncoder_encodeTL 0xa0 (word_of_int payloadLength) s;
     Some (finish_part writeBuffer payload s) }"

definition IsoPresentation_createUserData :: "IsoPresentation \<Rightarrow> BufferChain \<Rightarrow> BufferChain \<Rightarrow> BufferChain option" where
  "IsoPresentation_createUserData self writeBuffer payload = create_user_data (mmsContextId self) writeBuffer payload"

definition IsoPresentation_createUserDataACSE :: "IsoPresentation \<Rightarrow> BufferChain \<Rightarrow> BufferChain \<Rightarrow> BufferChain option" where
  "IsoPresentation_createUserDataACSE self writeBuffer payload = create_user_data (acseContextId self) writeBuffer payload"

section \<open>Parsing\<close>

text \<open>The parsers return the C result (a position or -1, or 1 and 0) and the new state.\<close>

partial_function (option) parseFullyEncodedData_loop ::
  "IsoPresentation \<Rightarrow> ptr \<Rightarrow> int \<Rightarrow> bool \<Rightarrow> int \<Rightarrow> (int \<times> IsoPresentation) option" where
  "parseFullyEncodedData_loop self buffer endPos userDataPresent bufPos =
     (if bufPos < endPos then do {
        r \<leftarrow> decodeTL buffer bufPos endPos;
        case r of None \<Rightarrow> Some (-1, self)
        | Some (tag, bufPos, len) \<Rightarrow>
          if tag = 0x02 then do {
            presentationSelector \<leftarrow> BerDecoder_decodeUint32 buffer len bufPos;
            parseFullyEncodedData_loop (self\<lparr>nextContextId := ucast presentationSelector\<rparr>) buffer endPos
              userDataPresent (bufPos + len) }
          else if tag = 0x06 then parseFullyEncodedData_loop self buffer endPos userDataPresent (bufPos + len)
          else if tag = 0xa0 then
            parseFullyEncodedData_loop
              (self\<lparr>nextPayload := (nextPayload self)\<lparr>bb_buffer := padd buffer bufPos, bb_size := len\<rparr>\<rparr>)
              buffer endPos True (bufPos + len)
          else if tag = 0x00 then parseFullyEncodedData_loop self buffer endPos userDataPresent bufPos
          else parseFullyEncodedData_loop self buffer endPos userDataPresent (bufPos + len) }
      else Some (if \<not> userDataPresent then -1 else bufPos, self))"

definition parseFullyEncodedData :: "IsoPresentation \<Rightarrow> ptr \<Rightarrow> int \<Rightarrow> int \<Rightarrow> (int \<times> IsoPresentation) option" where
  "parseFullyEncodedData self buffer len bufPos = do {
     let endPos = bufPos + len;
     b \<leftarrow> rd buffer bufPos;
     if b \<noteq> 0x30 then Some (-1, self)
     else do {
       r \<leftarrow> decodeLength_or_fail buffer (bufPos + 1) endPos;
       case r of None \<Rightarrow> Some (-1, self)
       | Some (bufPos, len) \<Rightarrow> parseFullyEncodedData_loop self buffer (bufPos + len) False bufPos } }"

text \<open>\<open>contextId\<close>, \<open>isAcse\<close> and \<open>isMms\<close> are the local variables of \<open>parsePCDLEntry\<close>.\<close>

partial_function (option) parsePCDLEntry_loop ::
  "ptr \<Rightarrow> int \<Rightarrow> int \<Rightarrow> bool \<Rightarrow> bool \<Rightarrow> int \<Rightarrow> (int \<times> int \<times> bool \<times> bool) option option" where
  "parsePCDLEntry_loop buffer endPos contextId isAcse isMms bufPos =
     (if bufPos < endPos then do {
        r \<leftarrow> decodeTL buffer bufPos endPos;
        case r of None \<Rightarrow> Some None
        | Some (tag, bufPos, len) \<Rightarrow>
          if tag = 0x02 then do {
            v \<leftarrow> BerDecoder_decodeUint32 buffer len bufPos;
            parsePCDLEntry_loop buffer endPos (sint v) isAcse isMms (bufPos + len) }
          else if tag = 0x06 then
            if len = 5 then do {
              xs \<leftarrow> rdn buffer bufPos 5;
              parsePCDLEntry_loop buffer endPos contextId isAcse (isMms \<or> xs = asn_id_mms) (bufPos + len) }
            else if len = 4 then do {
              xs \<leftarrow> rdn buffer bufPos 4;
              parsePCDLEntry_loop buffer endPos contextId (isAcse \<or> xs = asn_id_as_acse) isMms (bufPos + len) }
            else parsePCDLEntry_loop buffer endPos contextId isAcse isMms (bufPos + len)
          else if tag = 0x30 then parsePCDLEntry_loop buffer endPos contextId isAcse isMms (bufPos + len)
          else if tag = 0x00 then parsePCDLEntry_loop buffer endPos contextId isAcse isMms bufPos
          else parsePCDLEntry_loop buffer endPos contextId isAcse isMms (bufPos + len) }
      else Some (Some (bufPos, contextId, isAcse, isMms)))"

definition parsePCDLEntry :: "IsoPresentation \<Rightarrow> ptr \<Rightarrow> int \<Rightarrow> int \<Rightarrow> (int \<times> IsoPresentation) option" where
  "parsePCDLEntry self buffer totalLength bufPos = do {
     r \<leftarrow> parsePCDLEntry_loop buffer (bufPos + totalLength) (-1) False False bufPos;
     case r of None \<Rightarrow> Some (-1, self)
     | Some (bufPos, contextId, isAcse, isMms) \<Rightarrow>
       if contextId < 0 then Some (-1, self)
       else if \<not> isAcse \<and> \<not> isMms then Some (-1, self)
       else if isMms then Some (bufPos, self\<lparr>mmsContextId := word_of_int contextId\<rparr>)
       else Some (bufPos, self\<lparr>acseContextId := word_of_int contextId\<rparr>) }"

partial_function (option) parsePCDL_loop :: "IsoPresentation \<Rightarrow> ptr \<Rightarrow> int \<Rightarrow> int \<Rightarrow> (int \<times> IsoPresentation) option" where
  "parsePCDL_loop self buffer endPos bufPos =
     (if bufPos < endPos then do {
        r \<leftarrow> decodeTL buffer bufPos endPos;
        case r of None \<Rightarrow> Some (-1, self)
        | Some (tag, bufPos, len) \<Rightarrow>
          if tag = 0x30 then do {
            (bufPos, self) \<leftarrow> parsePCDLEntry self buffer len bufPos;
            if bufPos < 0 then Some (-1, self) else parsePCDL_loop self buffer endPos bufPos }
          else if tag = 0x00 then parsePCDL_loop self buffer endPos bufPos
          else parsePCDL_loop self buffer endPos (bufPos + len) }
      else Some (bufPos, self))"

definition parsePresentationContextDefinitionList ::
  "IsoPresentation \<Rightarrow> ptr \<Rightarrow> int \<Rightarrow> int \<Rightarrow> (int \<times> IsoPresentation) option" where
  "parsePresentationContextDefinitionList self buffer totalLength bufPos =
     parsePCDL_loop self buffer (bufPos + totalLength) bufPos"

text \<open>The body of the cases \<open>0x81\<close> and \<open>0x82\<close>: a selector of up to 16 octets is stored.\<close>

definition parse_selector :: "PSelector \<Rightarrow> ptr \<Rightarrow> int \<Rightarrow> int \<Rightarrow> PSelector option" where
  "parse_selector sel buffer len bufPos =
     (if len > 16 then Some sel
      else do {
        (v, _) \<leftarrow> read_octets buffer len bufPos (sel_value sel);
        Some \<lparr>sel_size = word_of_int len, sel_value = v\<rparr> })"

partial_function (option) parseNormalModeParameters_loop ::
  "IsoPresentation \<Rightarrow> ptr \<Rightarrow> int \<Rightarrow> bool \<Rightarrow> int \<Rightarrow> (int \<times> IsoPresentation) option" where
  "parseNormalModeParameters_loop self buffer endPos hasUserData bufPos =
     (if bufPos < endPos then do {
        tag \<leftarrow> rd buffer bufPos;
        if bufPos + 1 = endPos then Some (-1, self)
        else do {
          r \<leftarrow> decodeLength_or_fail buffer (bufPos + 1) endPos;
          case r of None \<Rightarrow> Some (-1, self)
          | Some (bufPos, len) \<Rightarrow>
            if tag = 0x81 then do {
              sel \<leftarrow> parse_selector (callingPresentationSelector self) buffer len bufPos;
              parseNormalModeParameters_loop (self\<lparr>callingPresentationSelector := sel\<rparr>) buffer endPos hasUserData (bufPos + len) }
            else if tag = 0x82 then do {
              sel \<leftarrow> parse_selector (calledPresentationSelector self) buffer len bufPos;
              parseNormalModeParameters_loop (self\<lparr>calledPresentationSelector := sel\<rparr>) buffer endPos hasUserData (bufPos + len) }
            else if tag = 0xa4 then do {
              (bufPos, self) \<leftarrow> parsePresentationContextDefinitionList self buffer len bufPos;
              if bufPos < 0 then Some (-1, self)
              else parseNormalModeParameters_loop self buffer endPos hasUserData bufPos }
            else if tag = 0x61 then do {
              (bufPos, self) \<leftarrow> parseFullyEncodedData self buffer len bufPos;
              if bufPos < 0 then Some (-1, self)
              else parseNormalModeParameters_loop self buffer endPos
                (if bb_size (nextPayload self) > 0 then True else hasUserData) bufPos }
            else if tag = 0x00 then parseNormalModeParameters_loop self buffer endPos hasUserData bufPos
            else parseNormalModeParameters_loop self buffer endPos hasUserData (bufPos + len) } }
      else Some (if \<not> hasUserData then -1 else bufPos, self))"

definition parseNormalModeParameters :: "IsoPresentation \<Rightarrow> ptr \<Rightarrow> int \<Rightarrow> int \<Rightarrow> (int \<times> IsoPresentation) option" where
  "parseNormalModeParameters self buffer totalLength bufPos = do {
     let self = self\<lparr>calledPresentationSelector := (calledPresentationSelector self)\<lparr>sel_size := 0\<rparr>\<rparr>;
     let self = self\<lparr>callingPresentationSelector := (callingPresentationSelector self)\<lparr>sel_size := 0\<rparr>\<rparr>;
     parseNormalModeParameters_loop self buffer (bufPos + totalLength) False bufPos }"

partial_function (option) parseAcceptMessage_loop :: "IsoPresentation \<Rightarrow> ptr \<Rightarrow> int \<Rightarrow> int \<Rightarrow> (int \<times> IsoPresentation) option" where
  "parseAcceptMessage_loop self buffer maxBufPos bufPos =
     (if bufPos < maxBufPos then do {
        r \<leftarrow> decodeTL buffer bufPos maxBufPos;
        case r of None \<Rightarrow> Some (0, self)
        | Some (tag, bufPos, len) \<Rightarrow>
          if tag = 0xa0 then parseAcceptMessage_loop self buffer maxBufPos (bufPos + len)
          else if tag = 0xa2 then do {
            (bufPos, self) \<leftarrow> parseNormalModeParameters self buffer len bufPos;
            if bufPos < 0 then Some (0, self) else parseAcceptMessage_loop self buffer maxBufPos bufPos }
          else if tag = 0x00 then parseAcceptMessage_loop self buffer maxBufPos bufPos
          else parseAcceptMessage_loop self buffer maxBufPos (bufPos + len) }
      else Some (1, self))"

definition IsoPresentation_parseAcceptMessage :: "IsoPresentation \<Rightarrow> ByteBuffer \<Rightarrow> (int \<times> IsoPresentation) option" where
  "IsoPresentation_parseAcceptMessage self byteBuffer = do {
     let buffer = bb_buffer byteBuffer;
     let maxBufPos = bb_size byteBuffer;
     cpTag \<leftarrow> rd buffer 0;
     if cpTag \<noteq> 0x31 then Some (0, self)
     else do {
       r \<leftarrow> decodeLength_or_fail buffer 1 maxBufPos;
       case r of None \<Rightarrow> Some (0, self)
       | Some (bufPos, len) \<Rightarrow> parseAcceptMessage_loop self buffer maxBufPos bufPos } }"

definition IsoPresentation_init :: "IsoPresentation \<Rightarrow> IsoPresentation" where
  "IsoPresentation_init self = self"

partial_function (option) parseUserData_loop ::
  "ByteBufferApi \<Rightarrow> IsoPresentation \<Rightarrow> ptr \<Rightarrow> int \<Rightarrow> bool \<Rightarrow> int \<Rightarrow> (int \<times> IsoPresentation) option" where
  "parseUserData_loop api self buffer maxBufPos hasAbstractSyntaxName bufPos =
     (if bufPos < maxBufPos then do {
        tag \<leftarrow> rd buffer bufPos;
        lenField \<leftarrow> rd buffer (bufPos + 1);
        r \<leftarrow> decodeLength_or_fail buffer (bufPos + 1) maxBufPos;
        case r of None \<Rightarrow> Some (0, self)
        | Some (bufPos, len) \<Rightarrow>
          if tag = 0x02 then do {
            b \<leftarrow> rd buffer bufPos;
            parseUserData_loop api (self\<lparr>nextContextId := b\<rparr>) buffer maxBufPos True (bufPos + len) }
          else if tag = 0x06 then do {
            b0 \<leftarrow> rd buffer bufPos;
            wrong \<leftarrow> (if b0 \<noteq> 0x51 then Some True else do { b1 \<leftarrow> rd buffer (bufPos + 1); Some (b1 \<noteq> 0x01) });
            if wrong then Some (0, self)
            else parseUserData_loop api self buffer maxBufPos hasAbstractSyntaxName (bufPos + len) }
          else if tag = 0xa0 then
            if \<not> hasAbstractSyntaxName then Some (0, self)
            else let userDataLength = (if lenField = 0x80 then len - 2 else len) in
              Some (1, self\<lparr>nextPayload := ByteBuffer_wrap api (padd buffer bufPos) userDataLength userDataLength\<rparr>)
          else parseUserData_loop api self buffer maxBufPos hasAbstractSyntaxName bufPos }
      else Some (0, self))"

definition IsoPresentation_parseUserData ::
  "ByteBufferApi \<Rightarrow> IsoPresentation \<Rightarrow> ByteBuffer \<Rightarrow> (int \<times> IsoPresentation) option" where
  "IsoPresentation_parseUserData api self readBuffer = do {
     let buffer = bb_buffer readBuffer;
     let maxBufPos = bb_size readBuffer;
     if maxBufPos < 9 then Some (0, self)
     else do {
       b \<leftarrow> rd buffer 0;
       if b \<noteq> 0x61 then Some (0, self)
       else do {
         r \<leftarrow> decodeLength_or_fail buffer 1 maxBufPos;
         case r of None \<Rightarrow> Some (0, self)
         | Some (bufPos, len) \<Rightarrow> do {
             b \<leftarrow> rd buffer bufPos;
             if b \<noteq> 0x30 then Some (0, self)
             else do {
               r \<leftarrow> decodeLength_or_fail buffer (bufPos + 1) maxBufPos;
               case r of None \<Rightarrow> Some (0, self)
               | Some (bufPos, len) \<Rightarrow> parseUserData_loop api self buffer maxBufPos False bufPos } } } } }"

partial_function (option) parseConnect_loop ::
  "IsoPresentation \<Rightarrow> ptr \<Rightarrow> int \<Rightarrow> bool \<Rightarrow> int \<Rightarrow> (int \<times> IsoPresentation) option" where
  "parseConnect_loop self buffer maxBufPos hasNormalModeParameters bufPos =
     (if bufPos < maxBufPos then do {
        r \<leftarrow> decodeTL buffer bufPos maxBufPos;
        case r of None \<Rightarrow> Some (0, self)
        | Some (tag, bufPos, len) \<Rightarrow>
          if tag = 0xa0 then do {
            b \<leftarrow> rd buffer bufPos;
            if b \<noteq> 0x80 then Some (0, self)
            else do {
              r \<leftarrow> decodeLength_or_fail buffer (bufPos + 1) maxBufPos;
              case r of None \<Rightarrow> Some (0, self)
              | Some (bufPos, len) \<Rightarrow> do {
                  modeSelector \<leftarrow> BerDecoder_decodeUint32 buffer len bufPos;
                  parseConnect_loop self buffer maxBufPos hasNormalModeParameters (bufPos + len) } } }
          else if tag = 0xa2 then do {
            (bufPos, self) \<leftarrow> parseNormalModeParameters self buffer len bufPos;
            if bufPos < 0 then Some (0, self) else parseConnect_loop self buffer maxBufPos True bufPos }
          else if tag = 0x00 then parseConnect_loop self buffer maxBufPos hasNormalModeParameters bufPos
          else parseConnect_loop self buffer maxBufPos hasNormalModeParameters (bufPos + len) }
      else Some (if \<not> hasNormalModeParameters then 0 else 1, self))"

definition IsoPresentation_parseConnect :: "IsoPresentation \<Rightarrow> ByteBuffer \<Rightarrow> (int \<times> IsoPresentation) option" where
  "IsoPresentation_parseConnect self byteBuffer = do {
     let buffer = bb_buffer byteBuffer;
     let maxBufPos = bb_size byteBuffer;
     cpTag \<leftarrow> rd buffer 0;
     if cpTag \<noteq> 0x31 then Some (0, self)
     else do {
       r \<leftarrow> decodeLength_or_fail buffer 1 maxBufPos;
       case r of None \<Rightarrow> Some (0, self)
       | Some (bufPos, len) \<Rightarrow> parseConnect_loop self buffer maxBufPos False bufPos } }"

end
