(* ===== verification/Acse.thy ===== *)
theory Acse
  imports Ber_Parser Iso_Connection_Parameters
begin

text \<open>
  The association control service element (\<^verbatim>\<open>iso_acse/acse.c\<close>): its state, the parsers of the
  association request (AARQ) and of the response (AARE), authentication of the client, and the
  encoders of all messages. \<open>None\<close> is undefined behaviour, a failed \<open>assert\<close> or a loop that never
  ends.

  Two things are not part of the repository and are parameters: the callback \<open>AcseAuthenticator\<close>
  of the application, a function of its parameter, the offered credentials and the application
  reference to its verdict, the security token and the application reference it leaves; and
  \<open>TLSSocket_getPeerCertificate\<close>. Debug output is left out.
\<close>

section \<open>Data\<close>

datatype AcseConnectionState = idle | requestIndicated | connected

datatype AcseIndication =
  ACSE_ERROR | ACSE_ASSOCIATE | ACSE_ASSOCIATE_FAILED | ACSE_OK | ACSE_ABORT
| ACSE_RELEASE_REQUEST | ACSE_RELEASE_RESPONSE

type_synonym ('par, 'tok) AcseAuthenticator =
  "'par \<Rightarrow> AcseAuthenticationParameter \<Rightarrow> IsoApplicationReference \<Rightarrow> bool \<times> 'tok option \<times> IsoApplicationReference"

record ('par, 'tok) AcseConnection =
  ac_state :: AcseConnectionState
  nextReference :: int
  userDataBuffer :: "ptr option"
  userDataBufferSize :: int
  ac_authentication :: "AcseAuthenticationParameter option"
  authenticator :: "('par, 'tok) AcseAuthenticator option"
  applicationReference :: IsoApplicationReference
  authenticatorParameter :: 'par
  securityToken :: "'tok option"
  ac_tlsSocket :: "nat option"

definition ACSE_RESULT_ACCEPT :: byte where "ACSE_RESULT_ACCEPT = 0"
definition ACSE_RESULT_REJECT_PERMANENT :: byte where "ACSE_RESULT_REJECT_PERMANENT = 1"

definition appContextNameMms :: "byte list" where
  "appContextNameMms = [0x28, 0xca, 0x22, 0x02, 0x03]"

definition auth_mech_password_oid :: "byte list" where
  "auth_mech_password_oid = [0x52, 0x03, 0x01]"

definition requirements_authentication :: "byte list" where
  "requirements_authentication = [0x80]"

section \<open>Authentication\<close>

definition checkAuthMechanismName :: "ptr option \<Rightarrow> int \<Rightarrow> AcseAuthenticationMechanism option" where
  "checkAuthMechanismName authMechanism authMechLen = (case authMechanism of
     None \<Rightarrow> Some ACSE_AUTH_NONE
   | Some p \<Rightarrow>
       if authMechLen = 3 then do {
         xs \<leftarrow> rdn p 0 3;
         Some (if xs = auth_mech_password_oid then ACSE_AUTH_PASSWORD else ACSE_AUTH_NONE) }
       else Some ACSE_AUTH_NONE)"

text \<open>
  The value of the authentication parameter stays uninitialised for the other mechanisms; the
  model gives the callback no octets then.
\<close>

definition authenticateClient ::
  "('par, 'tok) AcseConnection \<Rightarrow> AcseAuthenticationMechanism \<Rightarrow> ptr option \<Rightarrow> int \<Rightarrow> (bool \<times> ('par, 'tok) AcseConnection) option" where
  "authenticateClient self m authValue authValueLen = do {
     f \<leftarrow> authenticator self;
     let authParameter = (if m = ACSE_AUTH_PASSWORD \<or> m = ACSE_AUTH_TLS
       then \<lparr>mechanism = m, auth_octets = map_option (\<lambda>p. octets_at p authValueLen) authValue, auth_length = authValueLen\<rparr>
       else \<lparr>mechanism = m, auth_octets = None, auth_length = 0\<rparr>);
     let (accepted, token, reference) = f (authenticatorParameter self) authParameter (applicationReference self);
     Some (accepted, self\<lparr>securityToken := token, applicationReference := reference\<rparr>) }"

definition checkAuthentication ::
  "(nat \<Rightarrow> byte list option) \<Rightarrow> ('par, 'tok) AcseConnection \<Rightarrow> ptr option \<Rightarrow> int \<Rightarrow> ptr option \<Rightarrow> int \<Rightarrow>
    (bool \<times> ('par, 'tok) AcseConnection) option" where
  "checkAuthentication getPeerCertificate self authMechanism authMechLen authValue authValueLen = do {
     let self = self\<lparr>securityToken := None\<rparr>;
     case authenticator self of None \<Rightarrow> Some (True, self)
     | Some _ \<Rightarrow> do {
         m \<leftarrow> checkAuthMechanismName authMechanism authMechLen;
         case (if m = ACSE_AUTH_NONE then Option.bind (ac_tlsSocket self) getPeerCertificate else None) of
           None \<Rightarrow> authenticateClient self m authValue authValueLen
         | Some certBuf \<Rightarrow> authenticateClient self ACSE_AUTH_TLS (Some (certBuf, 0)) (int (length certBuf)) } }"

section \<open>Parsing\<close>

text \<open>
  \<open>parseUserInformation\<close> looks at \<open>len\<close> before it looks at the result of the decoder: a length
  that was never stored is undefined (\<open>len \<leftarrow> stored\<close>), and a length of zero continues the loop
  with whatever position the decoder returned, -1 included. The result is the position or -1, the
  flag \<open>userInfoValid\<close>, and the state.
\<close>

partial_function (option) parseUserInformation_loop ::
  "('par, 'tok) AcseConnection \<Rightarrow> ptr \<Rightarrow> int \<Rightarrow> bool \<Rightarrow> bool \<Rightarrow> int \<Rightarrow> (int \<times> bool \<times> ('par, 'tok) AcseConnection) option" where
  "parseUserInformation_loop self buffer maxBufPos hasindirectReference isDataValid bufPos =
     (if bufPos < maxBufPos then do {
        tag \<leftarrow> rd buffer bufPos;
        (bufPos, stored) \<leftarrow> BerDecoder_decodeLength buffer (bufPos + 1) maxBufPos;
        len \<leftarrow> stored;
        if len = 0 then parseUserInformation_loop self buffer maxBufPos hasindirectReference isDataValid bufPos
        else if bufPos < 0 \<or> bufPos + len > maxBufPos then Some (-1, False, self)
        else if tag = 0x02 then do {
          v \<leftarrow> BerDecoder_decodeUint32 buffer len bufPos;
          parseUserInformation_loop (self\<lparr>nextReference := uint v\<rparr>) buffer maxBufPos True isDataValid (bufPos + len) }
        else if tag = 0xa0 then
          parseUserInformation_loop (self\<lparr>userDataBufferSize := len, userDataBuffer := Some (padd buffer bufPos)\<rparr>)
            buffer maxBufPos hasindirectReference True (bufPos + len)
        else parseUserInformation_loop self buffer maxBufPos hasindirectReference isDataValid (bufPos + len) }
      else Some (bufPos, hasindirectReference \<and> isDataValid, self))"

definition parseUserInformation ::
  "('par, 'tok) AcseConnection \<Rightarrow> ptr \<Rightarrow> int \<Rightarrow> int \<Rightarrow> (int \<times> bool \<times> ('par, 'tok) AcseConnection) option" where
  "parseUserInformation self buffer bufPos maxBufPos = parseUserInformation_loop self buffer maxBufPos False False bufPos"

text \<open>
  One round of the loop in \<open>parseAarePdu\<close>: the \<open>switch\<close> gives the new values of the local
  variables and the position, or \<open>None\<close> for the early return of \<open>ACSE_ERROR\<close>.
\<close>

definition parseAare_element ::
  "('par, 'tok) AcseConnection \<Rightarrow> ptr \<Rightarrow> int \<Rightarrow> bool \<Rightarrow> 32 word \<Rightarrow> byte \<Rightarrow> int \<Rightarrow> int \<Rightarrow>
    ((bool \<times> 32 word \<times> int) option \<times> ('par, 'tok) AcseConnection) option" where
  "parseAare_element self buffer maxBufPos userInfoValid result tag len bufPos =
     (if tag = 0xa1 then Some (Some (userInfoValid, result, bufPos + len), self)
      else if tag = 0xa2 then do {
        r \<leftarrow> decodeLength_or_fail buffer (bufPos + 1) maxBufPos;
        case r of None \<Rightarrow> Some (None, self)
        | Some (bufPos, len) \<Rightarrow> do {
            result \<leftarrow> BerDecoder_decodeUint32 buffer len bufPos;
            Some (Some (userInfoValid, result, bufPos + len), self) } }
      else if tag = 0xa3 then Some (Some (userInfoValid, result, bufPos + len), self)
      else if tag = 0xbe then do {
        b \<leftarrow> rd buffer bufPos;
        if b \<noteq> 0x28 then Some (Some (userInfoValid, result, bufPos + len), self)
        else do {
          r \<leftarrow> decodeLength_or_fail buffer (bufPos + 1) maxBufPos;
          case r of None \<Rightarrow> Some (None, self)
          | Some (bufPos, len) \<Rightarrow> do {
              (bufPos, valid, self) \<leftarrow> parseUserInformation self buffer bufPos (bufPos + len);
              Some (if bufPos < 0 then None else Some (valid, result, bufPos), self) } } }
      else if tag = 0x00 then Some (Some (userInfoValid, result, bufPos), self)
      else Some (Some (userInfoValid, result, bufPos + len), self))"

partial_function (option) parseAare_loop ::
  "('par, 'tok) AcseConnection \<Rightarrow> ptr \<Rightarrow> int \<Rightarrow> bool \<Rightarrow> 32 word \<Rightarrow> int \<Rightarrow> (AcseIndication \<times> ('par, 'tok) AcseConnection) option" where
  "parseAare_loop self buffer maxBufPos userInfoValid result bufPos =
     (if bufPos < maxBufPos then do {
        r \<leftarrow> decodeTL buffer bufPos maxBufPos;
        case r of None \<Rightarrow> Some (ACSE_ERROR, self)
        | Some (tag, bufPos, len) \<Rightarrow>
          if len = 0 then parseAare_loop self buffer maxBufPos userInfoValid result bufPos
          else if bufPos + len > maxBufPos then Some (ACSE_ERROR, self)
          else do {
            (r, self) \<leftarrow> parseAare_element self buffer maxBufPos userInfoValid result tag len bufPos;
            case r of None \<Rightarrow> Some (ACSE_ERROR, self)
            | Some (userInfoValid, result, bufPos) \<Rightarrow> parseAare_loop self buffer maxBufPos userInfoValid result bufPos } }
      else Some (if \<not> userInfoValid then ACSE_ERROR else if result \<noteq> 0 then ACSE_ASSOCIATE_FAILED else ACSE_ASSOCIATE, self))"

definition parseAarePdu ::
  "('par, 'tok) AcseConnection \<Rightarrow> ptr \<Rightarrow> int \<Rightarrow> int \<Rightarrow> (AcseIndication \<times> ('par, 'tok) AcseConnection) option" where
  "parseAarePdu self buffer bufPos maxBufPos = parseAare_loop self buffer maxBufPos False 99 bufPos"

text \<open>The cases \<open>0xa6\<close> (calling AP title) and \<open>0xa7\<close> (calling AE qualifier) of the request.\<close>

definition parse_callingApTitle :: "('par, 'tok) AcseConnection \<Rightarrow> ptr \<Rightarrow> int \<Rightarrow> int \<Rightarrow> ('par, 'tok) AcseConnection option" where
  "parse_callingApTitle self buffer len bufPos = do {
     b \<leftarrow> rd buffer bufPos;
     if b = 0x06 then do {
       innerLength \<leftarrow> rd buffer (bufPos + 1);
       if uint innerLength = len - 2 then do {
         oid \<leftarrow> BerDecoder_decodeOID buffer (bufPos + 2) (uint innerLength);
         Some (self\<lparr>applicationReference := (applicationReference self)\<lparr>apTitle := oid\<rparr>\<rparr>) }
       else Some self }
     else Some self }"

definition parse_callingAEQualifier :: "('par, 'tok) AcseConnection \<Rightarrow> ptr \<Rightarrow> int \<Rightarrow> int \<Rightarrow> ('par, 'tok) AcseConnection option" where
  "parse_callingAEQualifier self buffer len bufPos = do {
     b \<leftarrow> rd buffer bufPos;
     if b = 0x02 then do {
       innerLength \<leftarrow> rd buffer (bufPos + 1);
       if uint innerLength = len - 2 then do {
         v \<leftarrow> BerDecoder_decodeInt32 (padd buffer 2) (uint innerLength) bufPos;
         Some (self\<lparr>applicationReference := (applicationReference self)\<lparr>aeQualifier := sint v\<rparr>\<rparr>) }
       else Some self }
     else Some self }"

text \<open>The local variables of \<open>parseAarqPdu\<close>.\<close>

record AarqLocals =
  authValue :: "ptr option"
  authValueLen :: int
  authMechanism :: "ptr option"
  authMechLen :: int
  userInfoValid :: bool

text \<open>
  The \<open>switch\<close> over the tag: the new local variables and the position, or \<open>None\<close> for the early
  return of \<open>ACSE_ASSOCIATE_FAILED\<close>.
\<close>

definition parseAarq_element ::
  "('par, 'tok) AcseConnection \<Rightarrow> ptr \<Rightarrow> int \<Rightarrow> AarqLocals \<Rightarrow> byte \<Rightarrow> int \<Rightarrow> int \<Rightarrow>
    ((AarqLocals \<times> int) option \<times> ('par, 'tok) AcseConnection) option" where
  "parseAarq_element self buffer maxBufPos v tag len bufPos =
     (if tag = 0xa1 \<or> tag = 0xa2 \<or> tag = 0xa3 then Some (Some (v, bufPos + len), self)
      else if tag = 0xa6 then do {
        self \<leftarrow> parse_callingApTitle self buffer len bufPos;
        Some (Some (v, bufPos + len), self) }
      else if tag = 0xa7 then do {
        self \<leftarrow> parse_callingAEQualifier self buffer len bufPos;
        Some (Some (v, bufPos + len), self) }
      else if tag = 0x8a then Some (Some (v, bufPos + len), self)
      else if tag = 0x8b then
        Some (Some (v\<lparr>authMechLen := len, authMechanism := Some (padd buffer bufPos)\<rparr>, bufPos + len), self)
      else if tag = 0xac then do {
        r \<leftarrow> decodeLength_or_fail buffer (bufPos + 1) maxBufPos;
        case r of None \<Rightarrow> Some (None, self)
        | Some (bufPos, len) \<Rightarrow>
            Some (Some (v\<lparr>authValueLen := len, authValue := Some (padd buffer bufPos)\<rparr>, bufPos + len), self) }
      else if tag = 0xbe then do {
        b \<leftarrow> rd buffer bufPos;
        if b \<noteq> 0x28 then Some (Some (v, bufPos + len), self)
        else do {
          r \<leftarrow> decodeLength_or_fail buffer (bufPos + 1) maxBufPos;
          case r of None \<Rightarrow> Some (None, self)
          | Some (bufPos, len) \<Rightarrow> do {
              (bufPos, valid, self) \<leftarrow> parseUserInformation self buffer bufPos (bufPos + len);
              Some (if bufPos < 0 then None else Some (v\<lparr>userInfoValid := valid\<rparr>, bufPos), self) } } }
      else if tag = 0x00 then Some (Some (v, bufPos), self)
      else Some (Some (v, bufPos + len), self))"

partial_function (option) parseAarq_loop ::
  "('par, 'tok) AcseConnection \<Rightarrow> ptr \<Rightarrow> int \<Rightarrow> AarqLocals \<Rightarrow> int \<Rightarrow> (AarqLocals option \<times> ('par, 'tok) AcseConnection) option" where
  "parseAarq_loop self buffer maxBufPos v bufPos =
     (if bufPos < maxBufPos then do {
        r \<leftarrow> decodeTL buffer bufPos maxBufPos;
        case r of None \<Rightarrow> Some (None, self)
        | Some (tag, bufPos, len) \<Rightarrow>
          if len = 0 then parseAarq_loop self buffer maxBufPos v bufPos
          else if bufPos + len > maxBufPos then Some (None, self)
          else do {
            (r, self) \<leftarrow> parseAarq_element self buffer maxBufPos v tag len bufPos;
            case r of None \<Rightarrow> Some (None, self)
            | Some (v, bufPos) \<Rightarrow> parseAarq_loop self buffer maxBufPos v bufPos } }
      else Some (Some v, self))"

definition parseAarqPdu ::
  "(nat \<Rightarrow> byte list option) \<Rightarrow> ('par, 'tok) AcseConnection \<Rightarrow> ptr \<Rightarrow> int \<Rightarrow> int \<Rightarrow> (AcseIndication \<times> ('par, 'tok) AcseConnection) option" where
  "parseAarqPdu getPeerCertificate self buffer bufPos maxBufPos = do {
     (r, self) \<leftarrow> parseAarq_loop self buffer maxBufPos
       \<lparr>authValue = None, authValueLen = 0, authMechanism = None, authMechLen = 0, userInfoValid = False\<rparr> bufPos;
     case r of None \<Rightarrow> Some (ACSE_ASSOCIATE_FAILED, self)
     | Some v \<Rightarrow> do {
         (accepted, self) \<leftarrow> checkAuthentication getPeerCertificate self (authMechanism v) (authMechLen v) (authValue v) (authValueLen v);
         if \<not> accepted then Some (ACSE_ASSOCIATE_FAILED, self)
         else if \<not> userInfoValid v then Some (ACSE_ASSOCIATE_FAILED, self)
         else Some (ACSE_ASSOCIATE, self) } }"

definition AcseConnection_init ::
  "('par, 'tok) AcseConnection \<Rightarrow> ('par, 'tok) AcseAuthenticator option \<Rightarrow> 'par \<Rightarrow> nat option \<Rightarrow> ('par, 'tok) AcseConnection" where
  "AcseConnection_init self auth parameter tlsSocket = self\<lparr>
     ac_state := idle,
     nextReference := 0,
     userDataBuffer := None,
     userDataBufferSize := 0,
     authenticator := auth,
     authenticatorParameter := parameter,
     ac_tlsSocket := tlsSocket,
     applicationReference := \<lparr>apTitle = \<lparr>arc = replicate 10 0, arcCount = 0\<rparr>, aeQualifier = 0\<rparr>\<rparr>"

definition AcseConnection_parseMessage ::
  "(nat \<Rightarrow> byte list option) \<Rightarrow> ('par, 'tok) AcseConnection \<Rightarrow> ByteBuffer option \<Rightarrow> (AcseIndication \<times> ('par, 'tok) AcseConnection) option" where
  "AcseConnection_parseMessage getPeerCertificate self message = (case message of
     None \<Rightarrow> Some (ACSE_ERROR, self)
   | Some message \<Rightarrow>
       if bb_size message < 1 then Some (ACSE_ERROR, self)
       else do {
         let buffer = bb_buffer message;
         let messageSize = bb_size message;
         r \<leftarrow> decodeTL buffer 0 messageSize;
         case r of None \<Rightarrow> Some (ACSE_ERROR, self)
         | Some (messageType, bufPos, len) \<Rightarrow>
             if messageType = 0x60 then parseAarqPdu getPeerCertificate self buffer bufPos messageSize
             else if messageType = 0x61 then parseAarePdu self buffer bufPos messageSize
             else if messageType = 0x62 then Some (ACSE_RELEASE_REQUEST, self)
             else if messageType = 0x63 then Some (ACSE_RELEASE_RESPONSE, self)
             else if messageType = 0x64 then Some (ACSE_ABORT, self)
             else if messageType = 0x00 then Some (ACSE_ERROR, self)
             else Some (ACSE_ERROR, self) })"

section \<open>Encoding\<close>

text \<open>The payload of the response may be \<open>NULL\<close>, which the first assertions rule out.\<close>

definition AcseConnection_createAssociateResponseMessage ::
  "bool \<Rightarrow> ('par, 'tok) AcseConnection \<Rightarrow> byte \<Rightarrow> BufferChain \<Rightarrow> BufferChain option \<Rightarrow> BufferChain option" where
  "AcseConnection_createAssociateResponseMessage le self acseResult writeBuffer payload = do {
     payload \<leftarrow> payload;
     let fixedContentLength = 9 + 5 + 5;
     let payloadLength = bc_length payload;
     let variableContentLength = payloadLength;
     let variableContentLength = variableContentLength + 1;
     let variableContentLength = variableContentLength + BerEncoder_determineLengthSize (word_of_int payloadLength);
     nextRefLength \<leftarrow> BerEncoder_UInt32determineEncodedSize le (word_of_int (nextReference self));
     let variableContentLength = variableContentLength + nextRefLength;
     let variableContentLength = variableContentLength + 2;
     let assocDataLength = variableContentLength;
     let variableContentLength = variableContentLength + BerEncoder_determineLengthSize (word_of_int assocDataLength);
     let variableContentLength = variableContentLength + 1;
     let userInfoLength = variableContentLength;
     let variableContentLength = variableContentLength + BerEncoder_determineLengthSize (word_of_int userInfoLength);
     let variableContentLength = variableContentLength + 1;
     let variableContentLength = variableContentLength + 2;
     let contentLength = fixedContentLength + variableContentLength;
     s \<leftarrow> BerEncoder_encodeTL 0x61 (word_of_int contentLength) (bc_buffer writeBuffer, 0);
     s \<leftarrow> BerEncoder_encodeTL 0xa1 7 s;
     s \<leftarrow> BerEncoder_encodeTL 0x06 5 s;
     s \<leftarrow> emit appContextNameMms s;
     s \<leftarrow> BerEncoder_encodeTL 0xa2 3 s;
     s \<leftarrow> BerEncoder_encodeTL 0x02 1 s;
     s \<leftarrow> put acseResult s;
     s \<leftarrow> BerEncoder_encodeTL 0xa3 5 s;
     s \<leftarrow> BerEncoder_encodeTL 0xa1 3 s;
     s \<leftarrow> BerEncoder_encodeTL 0x02 1 s;
     s \<leftarrow> put 0 s;
     s \<leftarrow> BerEncoder_encodeTL 0xbe (word_of_int userInfoLength) s;
     s \<leftarrow> BerEncoder_encodeTL 0x28 (word_of_int assocDataLength) s;
     s \<leftarrow> BerEncoder_encodeTL 0x02 (word_of_int nextRefLength) s;
     s \<leftarrow> BerEncoder_encodeUInt32 le (word_of_int (nextReference self)) s;
     s \<leftarrow> BerEncoder_encodeTL 0xa0 (word_of_int payloadLength) s;
     Some (finish_part writeBuffer payload s) }"

definition AcseConnection_createAssociateFailedMessage ::
  "bool \<Rightarrow> ('par, 'tok) AcseConnection \<Rightarrow> BufferChain \<Rightarrow> BufferChain option" where
  "AcseConnection_createAssociateFailedMessage le self writeBuffer =
     AcseConnection_createAssociateResponseMessage le self ACSE_RESULT_REJECT_PERMANENT writeBuffer None"

text \<open>
  The request, in four parts: the length of an application process title with its qualifier, the
  length of the authentication elements, and the two pieces of code that write them.
\<close>

definition title_length :: "bool \<Rightarrow> int \<Rightarrow> int \<Rightarrow> (int \<times> int) option" where
  "title_length le apTitleLen qualifier =
     (if apTitleLen > 0 then do {
        aeQualifierLength \<leftarrow> BerEncoder_UInt32determineEncodedSize le (word_of_int qualifier);
        Some ((4 + apTitleLen) + (4 + aeQualifierLength), aeQualifierLength) }
      else Some (0, 0))"

definition write_title ::
  "bool \<Rightarrow> byte \<Rightarrow> byte \<Rightarrow> byte list \<Rightarrow> int \<Rightarrow> int \<Rightarrow> int \<Rightarrow> cursor \<Rightarrow> cursor option" where
  "write_title le titleTag qualifierTag title apTitleLen qualifier aeQualifierLength s =
     (if apTitleLen > 0 then do {
        s \<leftarrow> BerEncoder_encodeTL titleTag (word_of_int (apTitleLen + 2)) s;
        s \<leftarrow> BerEncoder_encodeTL 0x06 (word_of_int apTitleLen) s;
        s \<leftarrow> copy_bytes (title, 0) apTitleLen s;
        s \<leftarrow> BerEncoder_encodeTL qualifierTag (word_of_int (aeQualifierLength + 2)) s;
        s \<leftarrow> BerEncoder_encodeTL 0x02 (word_of_int aeQualifierLength) s;
        BerEncoder_encodeUInt32 le (word_of_int qualifier) s }
      else Some s)"

definition auth_length_of :: "AcseAuthenticationParameter option \<Rightarrow> int \<times> int \<times> int" where
  "auth_length_of authParameter = (case authParameter of
     None \<Rightarrow> (0, 0, 0)
   | Some a \<Rightarrow>
       if mechanism a = ACSE_AUTH_PASSWORD then
         let passwordLength = auth_length a;
             authValueStringLength = BerEncoder_determineLengthSize (word_of_int passwordLength);
             authValueLength = BerEncoder_determineLengthSize (word_of_int (passwordLength + authValueStringLength + 1))
         in (4 + 5 + 2 + (passwordLength + authValueStringLength) + authValueLength, passwordLength, authValueStringLength)
       else (4 + 5 + 2, 0, 0))"

definition write_auth :: "AcseAuthenticationParameter option \<Rightarrow> int \<Rightarrow> int \<Rightarrow> cursor \<Rightarrow> cursor option" where
  "write_auth authParameter passwordLength authValueStringLength s = (case authParameter of
     None \<Rightarrow> Some s
   | Some a \<Rightarrow> do {
       s \<leftarrow> BerEncoder_encodeTL 0x8a 2 s;
       s \<leftarrow> put 0x04 s;
       if mechanism a = ACSE_AUTH_PASSWORD then do {
         s \<leftarrow> put (requirements_authentication ! 0) s;
         s \<leftarrow> BerEncoder_encodeTL 0x8b 3 s;
         s \<leftarrow> emit auth_mech_password_oid s;
         s \<leftarrow> BerEncoder_encodeTL 0xac (word_of_int (authValueStringLength + passwordLength + 1)) s;
         s \<leftarrow> BerEncoder_encodeTL 0x80 (word_of_int passwordLength) s;
         octetString \<leftarrow> auth_octets a;
         copy_bytes (octetString, 0) passwordLength s }
       else put 0 s })"

definition AcseConnection_createAssociateRequestMessage ::
  "bool \<Rightarrow> ('par, 'tok) AcseConnection \<Rightarrow> 'tls IsoConnectionParameters \<Rightarrow> BufferChain \<Rightarrow> BufferChain \<Rightarrow>
    AcseAuthenticationParameter option \<Rightarrow> BufferChain option" where
  "AcseConnection_createAssociateRequestMessage le self isoParameters writeBuffer payload authParameter = do {
     let payloadLength = bc_length payload;
     let contentLength = 9;
     (n, calledAEQualifierLength) \<leftarrow> title_length le (remoteApTitleLen isoParameters) (remoteAEQualifier isoParameters);
     let contentLength = contentLength + n;
     (n, callingAEQualifierLength) \<leftarrow> title_length le (localApTitleLen isoParameters) (localAEQualifier isoParameters);
     let contentLength = contentLength + n;
     let (n, passwordLength, authValueStringLength) = auth_length_of authParameter;
     let contentLength = contentLength + n;
     let userInfoLength = payloadLength;
     let userInfoLength = userInfoLength + 1;
     let userInfoLength = userInfoLength + BerEncoder_determineLengthSize (word_of_int payloadLength);
     let userInfoLength = userInfoLength + 1;
     let userInfoLength = userInfoLength + 2;
     let assocDataLength = userInfoLength;
     let userInfoLength = userInfoLength + BerEncoder_determineLengthSize (word_of_int assocDataLength);
     let userInfoLength = userInfoLength + 1;
     let userInfoLen = userInfoLength;
     let userInfoLength = userInfoLength + BerEncoder_determineLengthSize (word_of_int userInfoLength);
     let userInfoLength = userInfoLength + 1;
     let contentLength = contentLength + userInfoLength;
     s \<leftarrow> BerEncoder_encodeTL 0x60 (word_of_int contentLength) (bc_buffer writeBuffer, 0);
     s \<leftarrow> BerEncoder_encodeTL 0xa1 7 s;
     s \<leftarrow> BerEncoder_encodeTL 0x06 5 s;
     s \<leftarrow> emit appContextNameMms s;
     s \<leftarrow> write_title le 0xa2 0xa3 (remoteApTitle isoParameters) (remoteApTitleLen isoParameters) (remoteAEQualifier isoParameters)
       calledAEQualifierLength s;
     s \<leftarrow> write_title le 0xa6 0xa7 (localApTitle isoParameters) (localApTitleLen isoParameters) (localAEQualifier isoParameters)
       callingAEQualifierLength s;
     s \<leftarrow> write_auth authParameter passwordLength authValueStringLength s;
     s \<leftarrow> BerEncoder_encodeTL 0xbe (word_of_int userInfoLen) s;
     s \<leftarrow> BerEncoder_encodeTL 0x28 (word_of_int assocDataLength) s;
     s \<leftarrow> BerEncoder_encodeTL 0x02 1 s;
     s \<leftarrow> put 3 s;
     s \<leftarrow> BerEncoder_encodeTL 0xa0 (word_of_int payloadLength) s;
     Some (finish_part writeBuffer payload s) }"

definition single_part :: "byte list \<Rightarrow> BufferChain \<Rightarrow> BufferChain option" where
  "single_part xs writeBuffer = do {
     (buffer, n) \<leftarrow> emit xs (bc_buffer writeBuffer, 0);
     Some (BufferChain n n (bc_partMaxLength writeBuffer) buffer None) }"

definition AcseConnection_createAbortMessage :: "('par, 'tok) AcseConnection \<Rightarrow> BufferChain \<Rightarrow> bool \<Rightarrow> BufferChain option" where
  "AcseConnection_createAbortMessage self writeBuffer isProvider =
     single_part [0x64, 3, 0x80, 1, if isProvider then 1 else 0] writeBuffer"

definition AcseConnection_createReleaseRequestMessage :: "('par, 'tok) AcseConnection \<Rightarrow> BufferChain \<Rightarrow> BufferChain option" where
  "AcseConnection_createReleaseRequestMessage self writeBuffer = single_part [0x62, 3, 0x80, 1, 0] writeBuffer"

definition AcseConnection_createReleaseResponseMessage :: "('par, 'tok) AcseConnection \<Rightarrow> BufferChain \<Rightarrow> BufferChain option" where
  "AcseConnection_createReleaseResponseMessage self writeBuffer = single_part [0x63, 0] writeBuffer"

end
