(* ===== verification/Iso_Environment.thy ===== *)
theory Iso_Environment
  imports Cotp_Connect Iso_Session Iso_Presentation Acse
begin

text \<open>
  What the connections of the server and of the client share: the platform they run on, the parts
  of the send buffer, and the state that \<open>calloc\<close> gives to a new layer.

  The platform is a parameter: sockets, byte buffers, the certificate of a TLS peer, the byte
  order, \<open>malloc\<close> (the octets that new memory happens to hold) and the build option
  \<open>CONFIG_MMS_MAXIMUM_PDU_SIZE\<close>, which is not part of the repository.
\<close>

declare split_paired_All [simp del] split_paired_Ex [simp del]

record 'w IsoEnv =
  env_net :: "'w SocketApi"
  env_bb :: ByteBufferApi
  env_cert :: "nat \<Rightarrow> byte list option"
  env_le :: bool
  env_malloc :: "int \<Rightarrow> byte list"
  env_maxPdu :: int

text \<open>
  A part of the outgoing message that starts at offset \<open>n\<close> of the send buffer. Its lengths are set by
  the encoder. Every part starts where the chain before it ends, so the parts do not overlap, and
  each of them has its own copy of the buffer.
\<close>

definition part_at :: "int \<Rightarrow> ptr \<Rightarrow> int \<Rightarrow> BufferChain" where
  "part_at bufSize buf n = BufferChain 0 0 (bufSize - n) (padd buf n) None"

text \<open>A part that only refers to the octets of a buffer, as \<open>BufferChain_init\<close> makes it.\<close>

definition payload_part :: "ptr \<Rightarrow> int \<Rightarrow> BufferChain" where
  "payload_part buf n = BufferChain n n n buf None"

definition zero_cotp :: CotpConnection where
  "zero_cotp = \<lparr>cc_state = 0, cc_remoteRef = 0, cc_localRef = 0, cc_protocolClass = 0, cc_handleSet = 0, cc_socket = 0, cc_tlsSocket = None,
     cc_options = \<lparr>tSelSrc = zero_selector 4, tSelDst = zero_selector 4, tpduSize = 0\<rparr>, cc_isLastDataUnit = False,
     cc_payload = \<lparr>bb_buffer = ([], 0), bb_size = 0, bb_maxSize = 0\<rparr>, cc_writeBuffer = None,
     cc_readBuffer = \<lparr>bb_buffer = ([], 0), bb_size = 0, bb_maxSize = 0\<rparr>, cc_packetSize = 0, cc_socketExtensionBuffer = None,
     cc_socketExtensionBufferSize = 0, cc_socketExtensionBufferFill = 0\<rparr>"

definition zero_session :: IsoSession where
  "zero_session = \<lparr>callingSessionSelector = zero_selector 16, calledSessionSelector = zero_selector 16, sessionRequirement = 0,
     protocolOptions = 0, ss_userData = \<lparr>bb_buffer = ([], 0), bb_size = 0, bb_maxSize = 0\<rparr>\<rparr>"

definition zero_presentation :: IsoPresentation where
  "zero_presentation = \<lparr>callingPresentationSelector = zero_selector 16, calledPresentationSelector = zero_selector 16, nextContextId = 0,
     acseContextId = 0, mmsContextId = 0, nextPayload = \<lparr>bb_buffer = ([], 0), bb_size = 0, bb_maxSize = 0\<rparr>\<rparr>"

definition zero_acse :: "'par \<Rightarrow> ('par, 'tok) AcseConnection" where
  "zero_acse par = \<lparr>ac_state = idle, nextReference = 0, userDataBuffer = None, userDataBufferSize = 0, ac_authentication = None,
     authenticator = None, applicationReference = \<lparr>apTitle = \<lparr>arc = replicate 10 0, arcCount = 0\<rparr>, aeQualifier = 0\<rparr>,
     authenticatorParameter = par, securityToken = None, ac_tlsSocket = None\<rparr>"

end
