(* ===== verification/Iso_Client_Connection.thy ===== *)
theory Iso_Client_Connection
  imports Iso_Environment
begin

text \<open>
  The connection of a client (\<^verbatim>\<open>iso_client/iso_client_connection.c\<close>): the state machine
  \<open>IsoClientConnection_handleConnection\<close> that leads from the TCP connection over the COTP handshake and the
  ACSE association to the exchange of data, and the functions with which the MMS client sends, releases,
  aborts and closes.

  The client is told of events through a callback, which may call back into the connection: it is
  the parameter \<open>cb\<close>, a function on the connection and the world. The operating system (asynchronous
  connect, TLS, clock) is a parameter too. \<open>transmitBufferMutex\<close> is a counter; waiting at zero does
  not return, since nobody else posts. The other two semaphores are taken and given back within one
  function and are left out.
\<close>

section \<open>Data\<close>

datatype IsoIndication =
  ISO_IND_ASSOCIATION_SUCCESS | ISO_IND_ASSOCIATION_FAILED | ISO_IND_CLOSED | ISO_IND_DATA | ISO_IND_TICK

datatype eIsoClientInternalState =
  INT_STATE_IDLE | INT_STATE_TCP_CONNECTING | INT_STATE_WAIT_FOR_COTP_CONNECT_RESP | INT_STATE_WAIT_FOR_ACSE_RESP |
  INT_STATE_WAIT_FOR_DATA_MSG | INT_STATE_CLOSING_CONNECTION | INT_STATE_CLOSE_ON_ERROR | INT_STATE_ERROR

datatype SocketState = SOCKET_STATE_CONNECTING | SOCKET_STATE_FAILED | SOCKET_STATE_CONNECTED

record ('w, 'tls) IsoClientEnv = "'w IsoEnv" +
  TcpSocket_create :: "'w \<Rightarrow> nat option \<times> 'w"
  Socket_bind :: "nat \<Rightarrow> string \<Rightarrow> int \<Rightarrow> 'w \<Rightarrow> 'w"
  Socket_connectAsync :: "nat \<Rightarrow> string option \<Rightarrow> int \<Rightarrow> 'w \<Rightarrow> bool \<times> 'w"
  Socket_checkAsyncConnectState :: "nat \<Rightarrow> 'w \<Rightarrow> SocketState \<times> 'w"
  Socket_destroy :: "nat \<Rightarrow> 'w \<Rightarrow> 'w"
  TLSSocket_create :: "nat \<Rightarrow> 'tls \<Rightarrow> bool \<Rightarrow> 'w \<Rightarrow> nat option \<times> 'w"
  TLSSocket_close :: "nat \<Rightarrow> 'w \<Rightarrow> 'w"
  Handleset_destroy :: "nat \<Rightarrow> 'w \<Rightarrow> 'w"
  Hal_getTimeInMs :: "'w \<Rightarrow> 64 word \<times> 'w"

record ('tls, 'h) IsoClientConnection =
  cl_parameters :: "'tls IsoConnectionParameters"
  callbackParameter :: 'h
  intState :: eIsoClientInternalState
  cl_state :: int
  readTimeoutInMs :: "32 word"
  nextReadTimeout :: "64 word"
  cl_socket :: "nat option"
  cl_cotp :: CotpConnection
  cl_presentation :: IsoPresentation
  cl_session :: IsoSession
  cl_acse :: "(unit, unit) AcseConnection"
  cl_sendBuffer :: ptr
  receiveBuffer :: ByteBuffer
  transmitPayloadBuffer :: ByteBuffer
  transmitBufferMutex :: nat
  receivePayloadBuffer :: ByteBuffer
  cotpReadBuffer :: ByteBuffer
  cotpWriteBuffer :: ByteBuffer

type_synonym ('w, 'tls, 'h) IsoIndicationCallback =
  "IsoIndication \<Rightarrow> ByteBuffer option \<Rightarrow> ('tls, 'h) IsoClientConnection \<Rightarrow> 'w \<Rightarrow> (bool \<times> ('tls, 'h) IsoClientConnection \<times> 'w) option"

definition STATE_IDLE :: int where "STATE_IDLE = 0"
definition STATE_CONNECTED :: int where "STATE_CONNECTED = 1"
definition STATE_ERROR :: int where "STATE_ERROR = 2"
definition STATE_CONNECTING :: int where "STATE_CONNECTING = 3"

definition ISO_CLIENT_BUFFER_SIZE :: "('w, 'tls) IsoClientEnv \<Rightarrow> int" where
  "ISO_CLIENT_BUFFER_SIZE env = env_maxPdu env + 100"

definition setState :: "('tls, 'h) IsoClientConnection \<Rightarrow> int \<Rightarrow> ('tls, 'h) IsoClientConnection" where
  "setState self newState = self\<lparr>cl_state := newState\<rparr>"

definition setIntState :: "('tls, 'h) IsoClientConnection \<Rightarrow> eIsoClientInternalState \<Rightarrow> ('tls, 'h) IsoClientConnection" where
  "setIntState self newState = self\<lparr>intState := newState\<rparr>"

definition client_part :: "('w, 'tls) IsoClientEnv \<Rightarrow> ('tls, 'h) IsoClientConnection \<Rightarrow> int \<Rightarrow> BufferChain" where
  "client_part env self n = part_at (ISO_CLIENT_BUFFER_SIZE env) (cl_sendBuffer self) n"

section \<open>Construction\<close>

definition IsoClientConnection_create ::
  "('w, 'tls) IsoClientEnv \<Rightarrow> 'tls IsoConnectionParameters \<Rightarrow> 'h \<Rightarrow> ('tls, 'h) IsoClientConnection" where
  "IsoClientConnection_create env parameters parameter =
     (let buffer = (\<lambda>n. ByteBuffer_wrap (env_bb env) (env_malloc env n, 0) 0 n);
          sendBuf = (env_malloc env (ISO_CLIENT_BUFFER_SIZE env), 0);
          tpdu = COTP_MAX_TPDU_SIZE + TPKT_RFC1006_HEADER_SIZE
      in \<lparr>cl_parameters = parameters, callbackParameter = parameter, intState = INT_STATE_IDLE, cl_state = STATE_IDLE,
        readTimeoutInMs = 0, nextReadTimeout = 0, cl_socket = None, cl_cotp = zero_cotp, cl_presentation = zero_presentation,
        cl_session = zero_session, cl_acse = zero_acse (), cl_sendBuffer = sendBuf,
        receiveBuffer = buffer (ISO_CLIENT_BUFFER_SIZE env),
        transmitPayloadBuffer = \<lparr>bb_buffer = sendBuf, bb_size = 0, bb_maxSize = ISO_CLIENT_BUFFER_SIZE env\<rparr>,
        transmitBufferMutex = 1, receivePayloadBuffer = \<lparr>bb_buffer = ([], 0), bb_size = 0, bb_maxSize = 0\<rparr>,
        cotpReadBuffer = buffer tpdu, cotpWriteBuffer = buffer tpdu\<rparr>)"

section \<open>The transmit buffer\<close>

definition IsoClientConnection_allocateTransmitBuffer ::
  "('w, 'tls) IsoClientEnv \<Rightarrow> ('tls, 'h) IsoClientConnection \<Rightarrow> ('tls, 'h) IsoClientConnection option" where
  "IsoClientConnection_allocateTransmitBuffer env self =
     (if transmitBufferMutex self = 0 then None
      else Some (self\<lparr>transmitBufferMutex := transmitBufferMutex self - 1,
        transmitPayloadBuffer := (transmitPayloadBuffer self)\<lparr>bb_size := 0, bb_maxSize := ISO_CLIENT_BUFFER_SIZE env\<rparr>\<rparr>))"

definition IsoClientConnection_releaseTransmitBuffer :: "('tls, 'h) IsoClientConnection \<Rightarrow> ('tls, 'h) IsoClientConnection" where
  "IsoClientConnection_releaseTransmitBuffer self = self\<lparr>transmitBufferMutex := transmitBufferMutex self + 1\<rparr>"

section \<open>Requests\<close>

text \<open>\<open>u2\<close> and \<open>u3\<close> are the octets of a selector that \<open>CotpConnection_init\<close> leaves uninitialised.\<close>

definition sendConnectionRequestMessage ::
  "('w, 'tls) IsoClientEnv \<Rightarrow> byte \<Rightarrow> byte \<Rightarrow> ('tls, 'h) IsoClientConnection \<Rightarrow> nat \<Rightarrow> 'w \<Rightarrow> (bool \<times> ('tls, 'h) IsoClientConnection \<times> 'w) option" where
  "sendConnectionRequestMessage env u2 u3 self sock w = do {
     let extSize = env_maxPdu env + 1000;
     let cotp = cl_cotp self;
     let w = (if cc_handleSet cotp \<noteq> 0 then Handleset_destroy env (cc_handleSet cotp) w else w);
     let cotp = cotp\<lparr>cc_handleSet := 0\<rparr>;
     let ext = (case cc_socketExtensionBuffer cotp of None \<Rightarrow> (env_malloc env extSize, 0) | Some p \<Rightarrow> p);
     (cotp, w) \<leftarrow> CotpConnection_init (env_net env) u2 u3 cotp sock (receiveBuffer self) (cotpReadBuffer self) (Some (cotpWriteBuffer self))
       (Some ext) extSize w;
     let (ok, cotp, w) = (case tlsConfiguration (cl_parameters self) of
         None \<Rightarrow> (True, cotp, w)
       | Some tls \<Rightarrow> (case TLSSocket_create env sock tls False w of
           (None, w) \<Rightarrow> (False, cotp, w)
         | (Some t, w) \<Rightarrow> (True, cotp\<lparr>cc_tlsSocket := Some t\<rparr>, w)));
     if \<not> ok then Some (False, self\<lparr>cl_cotp := cotp\<rparr>, w)
     else do {
       (cotpIndication, cotp, w) \<leftarrow> CotpConnection_sendConnectionRequestMessage (env_bb env) (env_net env) cotp (cl_parameters self) w;
       Some (cotpIndication = COTP_OK, self\<lparr>cl_cotp := cotp\<rparr>, w) } }"

text \<open>The message of \<open>sendAcseInitiateRequest\<close>, with the state of the layers that built it.\<close>

definition initiate_request ::
  "('w, 'tls) IsoClientEnv \<Rightarrow> ('tls, 'h) IsoClientConnection \<Rightarrow> (('tls, 'h) IsoClientConnection \<times> BufferChain) option" where
  "initiate_request env self = do {
     let acsePayload = payload_part (bb_buffer (transmitPayloadBuffer self)) (bb_size (transmitPayloadBuffer self));
     let self = self\<lparr>cl_acse := AcseConnection_init (cl_acse self) None () None\<rparr>;
     acsePart \<leftarrow> AcseConnection_createAssociateRequestMessage (env_le env) (cl_acse self) (cl_parameters self)
       (client_part env self (bb_size (transmitPayloadBuffer self))) acsePayload (acseAuthParameter (cl_parameters self));
     (presentation, presentationPart) \<leftarrow> IsoPresentation_createConnectPdu (IsoPresentation_init (cl_presentation self)) (cl_parameters self)
       (client_part env self (bc_length acsePart)) acsePart;
     let self = self\<lparr>cl_presentation := presentation\<rparr>;
     (session, sessionPart) \<leftarrow> IsoSession_createConnectSpdu IsoSession_init (cl_parameters self)
       (client_part env self (bc_length presentationPart)) presentationPart;
     Some (self\<lparr>cl_session := session\<rparr>, sessionPart) }"

definition send_part ::
  "('w, 'tls) IsoClientEnv \<Rightarrow> ('tls, 'h) IsoClientConnection \<Rightarrow> BufferChain \<Rightarrow> 'w \<Rightarrow> (('tls, 'h) IsoClientConnection \<times> 'w) option" where
  "send_part env self chain w = do {
     (_, cotp, w) \<leftarrow> CotpConnection_sendDataMessage (env_bb env) (env_net env) (cl_cotp self) chain w;
     Some (self\<lparr>cl_cotp := cotp\<rparr>, w) }"

definition sendAcseInitiateRequest ::
  "('w, 'tls) IsoClientEnv \<Rightarrow> ('tls, 'h) IsoClientConnection \<Rightarrow> 'w \<Rightarrow> (('tls, 'h) IsoClientConnection \<times> 'w) option" where
  "sendAcseInitiateRequest env self w = do {
     (self, chain) \<leftarrow> initiate_request env self;
     (self, w) \<leftarrow> send_part env self chain w;
     Some (IsoClientConnection_releaseTransmitBuffer self, w) }"

definition releaseSocket ::
  "('w, 'tls) IsoClientEnv \<Rightarrow> ('tls, 'h) IsoClientConnection \<Rightarrow> 'w \<Rightarrow> ('tls, 'h) IsoClientConnection \<times> 'w" where
  "releaseSocket env self w = (case cl_socket self of
     None \<Rightarrow> (self, w)
   | Some sock \<Rightarrow>
       let (self, w) = (case cc_tlsSocket (cl_cotp self) of
           None \<Rightarrow> (self, w)
         | Some t \<Rightarrow> (self\<lparr>cl_cotp := (cl_cotp self)\<lparr>cc_tlsSocket := None\<rparr>\<rparr>, TLSSocket_close env t w))
       in (self\<lparr>cl_socket := None\<rparr>, Socket_destroy env sock w))"

section \<open>The state machine\<close>

text \<open>
  Each case of the \<open>switch\<close> gives the value of \<open>waits\<close>, the next state, the connection and the world.
  A failed association is reported to the callback, after the transmit buffer has been released where the
  request had not been sent yet.
\<close>

type_synonym ('w, 'tls, 'h) client_step = "bool \<times> eIsoClientInternalState \<times> ('tls, 'h) IsoClientConnection \<times> 'w"

definition association_failed ::
  "('w, 'tls, 'h) IsoIndicationCallback \<Rightarrow> ('tls, 'h) IsoClientConnection \<Rightarrow> 'w \<Rightarrow> ('w, 'tls, 'h) client_step option" where
  "association_failed cb self w = do {
     (_, self, w) \<leftarrow> cb ISO_IND_ASSOCIATION_FAILED None self w;
     Some (False, INT_STATE_CLOSE_ON_ERROR, self, w) }"

definition connect_failed ::
  "('w, 'tls, 'h) IsoIndicationCallback \<Rightarrow> ('tls, 'h) IsoClientConnection \<Rightarrow> 'w \<Rightarrow> ('w, 'tls, 'h) client_step option" where
  "connect_failed cb self w = association_failed cb (IsoClientConnection_releaseTransmitBuffer self) w"

definition restart_timeout ::
  "('w, 'tls) IsoClientEnv \<Rightarrow> ('tls, 'h) IsoClientConnection \<Rightarrow> 'w \<Rightarrow> ('tls, 'h) IsoClientConnection \<times> 'w" where
  "restart_timeout env self w = (let (t, w) = Hal_getTimeInMs env w
     in (self\<lparr>nextReadTimeout := t + ucast (readTimeoutInMs self)\<rparr>, w))"

definition tcp_connecting ::
  "('w, 'tls) IsoClientEnv \<Rightarrow> ('w, 'tls, 'h) IsoIndicationCallback \<Rightarrow> byte \<Rightarrow> byte \<Rightarrow> ('tls, 'h) IsoClientConnection \<Rightarrow> 'w \<Rightarrow>
    ('w, 'tls, 'h) client_step option" where
  "tcp_connecting env cb u2 u3 self w = do {
     sock \<leftarrow> cl_socket self;
     let (socketState, w) = Socket_checkAsyncConnectState env sock w;
     if socketState = SOCKET_STATE_CONNECTED then do {
       (ok, self, w) \<leftarrow> sendConnectionRequestMessage env u2 u3 self sock w;
       if ok then (let (self, w) = restart_timeout env self w in Some (False, INT_STATE_WAIT_FOR_COTP_CONNECT_RESP, self, w))
       else connect_failed cb self w }
     else if socketState = SOCKET_STATE_FAILED then connect_failed cb self w
     else (let (currentTime, w) = Hal_getTimeInMs env w in
       if currentTime > nextReadTimeout self then connect_failed cb self w
       else Some (True, INT_STATE_TCP_CONNECTING, self, w)) }"

definition wait_for_cotp_connect_resp ::
  "('w, 'tls) IsoClientEnv \<Rightarrow> ('w, 'tls, 'h) IsoIndicationCallback \<Rightarrow> ('tls, 'h) IsoClientConnection \<Rightarrow> 'w \<Rightarrow> ('w, 'tls, 'h) client_step option" where
  "wait_for_cotp_connect_resp env cb self w = do {
     let (currentTime, w) = Hal_getTimeInMs env w;
     if currentTime > nextReadTimeout self then connect_failed cb self w
     else do {
       (packetState, cotp, w) \<leftarrow> CotpConnection_readToTpktBuffer (env_net env) (cl_cotp self) w;
       let self = self\<lparr>cl_cotp := cotp\<rparr>;
       if packetState = TPKT_PACKET_COMPLETE then do {
         (cotpIndication, cotp) \<leftarrow> CotpConnection_parseIncomingMessage cotp;
         let self = self\<lparr>cl_cotp := cotp\<rparr>;
         if cotpIndication \<noteq> COTP_CONNECT_INDICATION then connect_failed cb self w
         else do {
           (self, w) \<leftarrow> sendAcseInitiateRequest env self w;
           let (self, w) = restart_timeout env self w;
           Some (False, INT_STATE_WAIT_FOR_ACSE_RESP, self, w) } }
       else if packetState = TPKT_ERROR then connect_failed cb self w
       else Some (True, INT_STATE_WAIT_FOR_COTP_CONNECT_RESP, self, w) } }"

text \<open>The response is complete: session, presentation and ACSE.\<close>

definition reset_payload :: "('tls, 'h) IsoClientConnection \<Rightarrow> ('tls, 'h) IsoClientConnection" where
  "reset_payload self = self\<lparr>cl_cotp := CotpConnection_resetPayload (cl_cotp self)\<rparr>"

definition associated ::
  "('w, 'tls) IsoClientEnv \<Rightarrow> ('w, 'tls, 'h) IsoIndicationCallback \<Rightarrow> ('tls, 'h) IsoClientConnection \<Rightarrow> 'w \<Rightarrow> ('w, 'tls, 'h) client_step option" where
  "associated env cb self w = do {
     userData \<leftarrow> userDataBuffer (cl_acse self);
     let self = self\<lparr>receivePayloadBuffer := ByteBuffer_wrap (env_bb env) userData (userDataBufferSize (cl_acse self)) (userDataBufferSize (cl_acse self))\<rparr>;
     let self = setState self STATE_CONNECTED;
     (ok, self, w) \<leftarrow> cb ISO_IND_ASSOCIATION_SUCCESS (Some (receivePayloadBuffer self)) self w;
     Some (False, if ok then INT_STATE_WAIT_FOR_DATA_MSG else INT_STATE_CLOSE_ON_ERROR, self, w) }"

definition associate_response ::
  "('w, 'tls) IsoClientEnv \<Rightarrow> ('w, 'tls, 'h) IsoIndicationCallback \<Rightarrow> ('tls, 'h) IsoClientConnection \<Rightarrow> 'w \<Rightarrow> ('w, 'tls, 'h) client_step option" where
  "associate_response env cb self w = do {
     (sessionIndication, session) \<leftarrow> IsoSession_parseMessage (env_bb env) (cl_session self) (cc_payload (cl_cotp self));
     let self = self\<lparr>cl_session := session\<rparr>;
     if sessionIndication \<noteq> SESSION_CONNECT then association_failed cb self w
     else do {
       (ok, presentation) \<leftarrow> IsoPresentation_parseAcceptMessage (cl_presentation self) (IsoSession_getUserData session);
       let self = self\<lparr>cl_presentation := presentation\<rparr>;
       (waits, nextState, self, w) \<leftarrow> (if ok = 0 then association_failed cb self w
         else do {
           (acseIndication, acse) \<leftarrow> AcseConnection_parseMessage (env_cert env) (cl_acse self) (Some (nextPayload presentation));
           let self = self\<lparr>cl_acse := acse\<rparr>;
           if acseIndication \<noteq> ACSE_ASSOCIATE then association_failed cb self w
           else associated env cb self w });
       Some (waits, nextState, reset_payload self, w) } }"

definition wait_for_acse_resp ::
  "('w, 'tls) IsoClientEnv \<Rightarrow> ('w, 'tls, 'h) IsoIndicationCallback \<Rightarrow> ('tls, 'h) IsoClientConnection \<Rightarrow> 'w \<Rightarrow> ('w, 'tls, 'h) client_step option" where
  "wait_for_acse_resp env cb self w = do {
     let (currentTime, w) = Hal_getTimeInMs env w;
     if currentTime > nextReadTimeout self then association_failed cb self w
     else do {
       (packetState, cotp, w) \<leftarrow> CotpConnection_readToTpktBuffer (env_net env) (cl_cotp self) w;
       let self = self\<lparr>cl_cotp := cotp\<rparr>;
       if packetState = TPKT_PACKET_COMPLETE then do {
         (cotpIndication, cotp) \<leftarrow> CotpConnection_parseIncomingMessage cotp;
         let self = self\<lparr>cl_cotp := cotp\<rparr>;
         if cotpIndication \<noteq> COTP_DATA_INDICATION then association_failed cb self w
         else associate_response env cb self w }
       else if packetState = TPKT_ERROR then association_failed cb self w
       else Some (True, INT_STATE_WAIT_FOR_ACSE_RESP, self, w) } }"

definition data_message ::
  "('w, 'tls) IsoClientEnv \<Rightarrow> ('w, 'tls, 'h) IsoIndicationCallback \<Rightarrow> ('tls, 'h) IsoClientConnection \<Rightarrow> 'w \<Rightarrow> ('w, 'tls, 'h) client_step option" where
  "data_message env cb self w = do {
     (sessionIndication, session) \<leftarrow> IsoSession_parseMessage (env_bb env) (cl_session self) (cc_payload (cl_cotp self));
     let self = self\<lparr>cl_session := session\<rparr>;
     if sessionIndication \<noteq> SESSION_DATA then Some (False, INT_STATE_CLOSE_ON_ERROR, self, w)
     else do {
       (ok, presentation) \<leftarrow> IsoPresentation_parseUserData (env_bb env) (cl_presentation self) (IsoSession_getUserData session);
       let self = self\<lparr>cl_presentation := presentation\<rparr>;
       if ok = 0 then Some (False, INT_STATE_CLOSE_ON_ERROR, self, w)
       else do {
         (_, self, w) \<leftarrow> cb ISO_IND_DATA (Some (nextPayload presentation)) self w;
         Some (False, INT_STATE_WAIT_FOR_DATA_MSG, reset_payload self, w) } } }"

definition wait_for_data_msg ::
  "('w, 'tls) IsoClientEnv \<Rightarrow> ('w, 'tls, 'h) IsoIndicationCallback \<Rightarrow> ('tls, 'h) IsoClientConnection \<Rightarrow> 'w \<Rightarrow> ('w, 'tls, 'h) client_step option" where
  "wait_for_data_msg env cb self w = do {
     (packetState, cotp, w) \<leftarrow> CotpConnection_readToTpktBuffer (env_net env) (cl_cotp self) w;
     let self = self\<lparr>cl_cotp := cotp\<rparr>;
     if packetState = TPKT_ERROR then Some (False, INT_STATE_CLOSE_ON_ERROR, self, w)
     else if packetState = TPKT_PACKET_COMPLETE then do {
       (cotpIndication, cotp) \<leftarrow> CotpConnection_parseIncomingMessage cotp;
       let self = self\<lparr>cl_cotp := cotp\<rparr>;
       case cotpIndication of
         COTP_MORE_FRAGMENTS_FOLLOW \<Rightarrow> Some (False, INT_STATE_WAIT_FOR_DATA_MSG, self, w)
       | COTP_DISCONNECT_INDICATION \<Rightarrow> Some (False, INT_STATE_CLOSING_CONNECTION, self, w)
       | COTP_DATA_INDICATION \<Rightarrow> data_message env cb self w
       | _ \<Rightarrow> Some (False, INT_STATE_CLOSE_ON_ERROR, self, w) }
     else Some (True, INT_STATE_WAIT_FOR_DATA_MSG, self, w) }"

definition close_connection ::
  "('w, 'tls) IsoClientEnv \<Rightarrow> ('w, 'tls, 'h) IsoIndicationCallback \<Rightarrow> int \<Rightarrow> eIsoClientInternalState \<Rightarrow> ('tls, 'h) IsoClientConnection \<Rightarrow> 'w \<Rightarrow>
    ('w, 'tls, 'h) client_step option" where
  "close_connection env cb newState nextState self w = do {
     (_, self, w) \<leftarrow> cb ISO_IND_CLOSED None (setState self newState) w;
     let (self, w) = releaseSocket env self w;
     Some (False, nextState, self, w) }"

definition IsoClientConnection_handleConnection ::
  "('w, 'tls) IsoClientEnv \<Rightarrow> ('w, 'tls, 'h) IsoIndicationCallback \<Rightarrow> byte \<Rightarrow> byte \<Rightarrow> ('tls, 'h) IsoClientConnection \<Rightarrow> 'w \<Rightarrow>
    (bool \<times> ('tls, 'h) IsoClientConnection \<times> 'w) option" where
  "IsoClientConnection_handleConnection env cb u2 u3 self w = do {
     (waits, nextState, self, w) \<leftarrow> (case intState self of
         INT_STATE_IDLE \<Rightarrow> Some (True, INT_STATE_IDLE, self, w)
       | INT_STATE_ERROR \<Rightarrow> Some (True, INT_STATE_ERROR, self, w)
       | INT_STATE_TCP_CONNECTING \<Rightarrow> tcp_connecting env cb u2 u3 self w
       | INT_STATE_WAIT_FOR_COTP_CONNECT_RESP \<Rightarrow> wait_for_cotp_connect_resp env cb self w
       | INT_STATE_WAIT_FOR_ACSE_RESP \<Rightarrow> wait_for_acse_resp env cb self w
       | INT_STATE_WAIT_FOR_DATA_MSG \<Rightarrow> wait_for_data_msg env cb self w
       | INT_STATE_CLOSE_ON_ERROR \<Rightarrow> close_connection env cb STATE_ERROR INT_STATE_ERROR self w
       | INT_STATE_CLOSING_CONNECTION \<Rightarrow> close_connection env cb STATE_IDLE INT_STATE_IDLE self w);
     (_, self, w) \<leftarrow> cb ISO_IND_TICK None self w;
     Some (waits, setIntState self nextState, w) }"

section \<open>Operations of the MMS client\<close>

definition IsoClientConnection_associateAsync ::
  "('w, 'tls) IsoClientEnv \<Rightarrow> ('tls, 'h) IsoClientConnection \<Rightarrow> 32 word \<Rightarrow> 32 word \<Rightarrow> 'w \<Rightarrow> bool \<times> ('tls, 'h) IsoClientConnection \<times> 'w" where
  "IsoClientConnection_associateAsync env self connectTimeoutInMs readTimeout w =
     (case TcpSocket_create env w of
        (None, w) \<Rightarrow> (False, self\<lparr>cl_socket := None\<rparr>, w)
      | (Some sock, w) \<Rightarrow>
          let self = setIntState (setState (self\<lparr>cl_socket := Some sock\<rparr>) STATE_CONNECTING) INT_STATE_TCP_CONNECTING;
              self = self\<lparr>readTimeoutInMs := readTimeout\<rparr>;
              (t, w) = Hal_getTimeInMs env w;
              self = self\<lparr>nextReadTimeout := t + ucast connectTimeoutInMs\<rparr>;
              w = (case localIpAddress (cl_parameters self) of
                None \<Rightarrow> w | Some ip \<Rightarrow> Socket_bind env sock ip (localTcpPort (cl_parameters self)) w);
              (ok, w) = Socket_connectAsync env sock (hostname (cl_parameters self)) (tcpPort (cl_parameters self)) w
          in if ok then (True, self, w)
             else (False, IsoClientConnection_releaseTransmitBuffer
               (setState (setIntState (self\<lparr>cl_socket := None\<rparr>) INT_STATE_ERROR) STATE_ERROR), Socket_destroy env sock w))"

definition IsoClientConnection_sendMessage ::
  "('w, 'tls) IsoClientEnv \<Rightarrow> ('tls, 'h) IsoClientConnection \<Rightarrow> ByteBuffer \<Rightarrow> 'w \<Rightarrow> (('tls, 'h) IsoClientConnection \<times> 'w) option" where
  "IsoClientConnection_sendMessage env self payloadBuffer w = do {
     (self, w) \<leftarrow> (if cl_state self = STATE_CONNECTED then do {
         let payload = payload_part (bb_buffer payloadBuffer) (bb_size payloadBuffer);
         presentationPart \<leftarrow> IsoPresentation_createUserData (cl_presentation self) (client_part env self (bc_length payload)) payload;
         let sessionPart = IsoSession_createDataSpdu (client_part env self 0) presentationPart;
         send_part env self sessionPart w }
       else Some (self, w));
     Some (IsoClientConnection_releaseTransmitBuffer self, w) }"

definition IsoClientConnection_close ::
  "('w, 'tls) IsoClientEnv \<Rightarrow> ('w, 'tls, 'h) IsoIndicationCallback \<Rightarrow> byte \<Rightarrow> byte \<Rightarrow> ('tls, 'h) IsoClientConnection \<Rightarrow> 'w \<Rightarrow>
    (('tls, 'h) IsoClientConnection \<times> 'w) option" where
  "IsoClientConnection_close env cb u2 u3 self w =
     (if intState self \<noteq> INT_STATE_IDLE \<and> intState self \<noteq> INT_STATE_ERROR \<and> intState self \<noteq> INT_STATE_CLOSE_ON_ERROR then do {
        (_, self, w) \<leftarrow> IsoClientConnection_handleConnection env cb u2 u3 (setIntState self INT_STATE_CLOSING_CONNECTION) w;
        Some (setState self STATE_IDLE, w) }
      else Some (self, w))"

text \<open>The memory that \<open>IsoClientConnection_destroy\<close> frees is not modelled; what it does to the outside is.\<close>

definition IsoClientConnection_destroy ::
  "('w, 'tls) IsoClientEnv \<Rightarrow> ('w, 'tls, 'h) IsoIndicationCallback \<Rightarrow> byte \<Rightarrow> byte \<Rightarrow> ('tls, 'h) IsoClientConnection \<Rightarrow> 'w \<Rightarrow> 'w option" where
  "IsoClientConnection_destroy env cb u2 u3 self w = do {
     (self, w) \<leftarrow> (if cl_state self = STATE_CONNECTED then IsoClientConnection_close env cb u2 u3 self w else Some (self, w));
     let (self, w) = releaseSocket env self w;
     Some (if cc_handleSet (cl_cotp self) \<noteq> 0 then Handleset_destroy env (cc_handleSet (cl_cotp self)) w else w) }"

definition sendAbortMessage ::
  "('w, 'tls) IsoClientEnv \<Rightarrow> ('tls, 'h) IsoClientConnection \<Rightarrow> 'w \<Rightarrow> (('tls, 'h) IsoClientConnection \<times> 'w) option" where
  "sendAbortMessage env self w = do {
     self \<leftarrow> IsoClientConnection_allocateTransmitBuffer env self;
     acsePart \<leftarrow> AcseConnection_createAbortMessage (cl_acse self) (client_part env self 0) False;
     presentationPart \<leftarrow> IsoPresentation_createAbortUserMessage (cl_presentation self) (client_part env self (bc_length acsePart)) acsePart;
     sessionPart \<leftarrow> IsoSession_createAbortSpdu (client_part env self (bc_length presentationPart)) presentationPart;
     (self, w) \<leftarrow> send_part env self sessionPart w;
     Some (IsoClientConnection_releaseTransmitBuffer self, w) }"

definition IsoClientConnection_abortAsync ::
  "('w, 'tls) IsoClientEnv \<Rightarrow> ('tls, 'h) IsoClientConnection \<Rightarrow> 'w \<Rightarrow> (('tls, 'h) IsoClientConnection \<times> 'w) option" where
  "IsoClientConnection_abortAsync env self w = sendAbortMessage env self w"

definition IsoClientConnection_release ::
  "('w, 'tls) IsoClientEnv \<Rightarrow> ('tls, 'h) IsoClientConnection \<Rightarrow> 'w \<Rightarrow> (('tls, 'h) IsoClientConnection \<times> 'w) option" where
  "IsoClientConnection_release env self w = do {
     self \<leftarrow> IsoClientConnection_allocateTransmitBuffer env self;
     acsePart \<leftarrow> AcseConnection_createReleaseRequestMessage (cl_acse self) (client_part env self 0);
     presentationPart \<leftarrow> IsoPresentation_createUserDataACSE (cl_presentation self) (client_part env self (bc_length acsePart)) acsePart;
     sessionPart \<leftarrow> IsoSession_createFinishSpdu (client_part env self (bc_length presentationPart)) presentationPart;
     (self, w) \<leftarrow> send_part env self sessionPart w;
     Some (IsoClientConnection_releaseTransmitBuffer self, w) }"

end
