(* ===== verification/Iso_Connection.thy ===== *)
theory Iso_Connection
  imports Iso_Environment
begin

text \<open>
  One connection of the server (\<^verbatim>\<open>iso_server/iso_connection.c\<close>): it owns the four protocol layers
  and the buffer for outgoing messages, and \<open>IsoConnection_handleTcpConnection\<close> drives a received
  packet through them and the answer back.

  The MMS layer is reached through the callback \<open>msgRcvdHandler\<close>, a function from the state of the
  application, the request and the response buffer to the new state and the response buffer. The
  platform is the parameter \<open>IsoEnv\<close>.

  The layers put their headers behind each other into the send buffer: every part starts where the
  chain before it ends, so the parts do not overlap, and the model gives each of them its own copy
  of the buffer. \<open>finalizeIsoConnection\<close> frees the layers and the buffers; a freed layer is
  \<open>None\<close>, and using it is undefined. Locking has no effect on one connection that is handled in
  one thread and is left out, like debug output; \<open>Thread_create\<close> is not modelled.
\<close>

declare split_paired_All [simp del] split_paired_Ex [simp del]

section \<open>Data\<close>

record ('par, 'tok) IsoLayers =
  il_sendBuffer :: ptr
  il_session :: IsoSession
  il_presentation :: IsoPresentation
  il_cotp :: CotpConnection
  il_acse :: "('par, 'tok) AcseConnection"

type_synonym 'h MessageReceivedHandler = "'h \<Rightarrow> ByteBuffer \<Rightarrow> ByteBuffer \<Rightarrow> ('h \<times> ByteBuffer) option"

record ('par, 'tok, 'h) IsoConnection =
  ic_state :: int
  ic_layers :: "('par, 'tok) IsoLayers option"
  msgRcvdHandler :: "'h MessageReceivedHandler option"
  tickHandler :: "('h \<Rightarrow> 'h) option"
  handlerParameter :: 'h
  ic_socket :: nat
  ic_tlsSocket :: "nat option"
  ic_handleSet :: nat

definition ISO_CON_STATE_TERMINATED :: int where "ISO_CON_STATE_TERMINATED = 2"
definition ISO_CON_STATE_RUNNING :: int where "ISO_CON_STATE_RUNNING = 1"
definition ISO_CON_STATE_STOPPED :: int where "ISO_CON_STATE_STOPPED = 0"

definition SEND_BUF_SIZE :: "'w IsoEnv \<Rightarrow> int" where "SEND_BUF_SIZE env = env_maxPdu env + 100"
definition RECEIVE_BUF_SIZE :: "'w IsoEnv \<Rightarrow> int" where "RECEIVE_BUF_SIZE env = env_maxPdu env + 100"

section \<open>Helpers\<close>

text \<open>\<open>if (self->msgRcvdHandler != NULL) self->msgRcvdHandler(self->handlerParameter, request, response)\<close>\<close>

definition call_handler ::
  "('par, 'tok, 'h) IsoConnection \<Rightarrow> ByteBuffer \<Rightarrow> ByteBuffer \<Rightarrow> (('par, 'tok, 'h) IsoConnection \<times> ByteBuffer) option" where
  "call_handler self request response = (case msgRcvdHandler self of
     None \<Rightarrow> Some (self, response)
   | Some f \<Rightarrow> do {
       (h, response) \<leftarrow> f (handlerParameter self) request response;
       Some (self\<lparr>handlerParameter := h\<rparr>, response) })"

definition send_chain ::
  "'w IsoEnv \<Rightarrow> ('par, 'tok) IsoLayers \<Rightarrow> BufferChain \<Rightarrow> 'w \<Rightarrow> (('par, 'tok) IsoLayers \<times> 'w) option" where
  "send_chain env l chain w = do {
     (_, cotp, w) \<leftarrow> CotpConnection_sendDataMessage (env_bb env) (env_net env) (il_cotp l) chain w;
     Some (l\<lparr>il_cotp := cotp\<rparr>, w) }"

definition stop :: "('par, 'tok, 'h) IsoConnection \<Rightarrow> ('par, 'tok, 'h) IsoConnection" where
  "stop self = self\<lparr>ic_state := ISO_CON_STATE_STOPPED\<rparr>"

section \<open>The session indications\<close>

text \<open>
  The cases of the inner \<open>switch\<close>, each from the layers after the session parser to the new
  connection with its layers.
\<close>

definition handle_associate ::
  "'w IsoEnv \<Rightarrow> ('par, 'tok, 'h) IsoConnection \<Rightarrow> ('par, 'tok) IsoLayers \<Rightarrow> 'w \<Rightarrow>
    (('par, 'tok, 'h) IsoConnection \<times> ('par, 'tok) IsoLayers \<times> 'w) option" where
  "handle_associate env self l w = do {
     userData \<leftarrow> userDataBuffer (il_acse l);
     let mmsRequest = ByteBuffer_wrap (env_bb env) userData (userDataBufferSize (il_acse l)) (userDataBufferSize (il_acse l));
     let mmsResponseBuffer = ByteBuffer_wrap (env_bb env) (il_sendBuffer l) 0 (SEND_BUF_SIZE env);
     (self, mmsResponseBuffer) \<leftarrow> call_handler self mmsRequest mmsResponseBuffer;
     let l = l\<lparr>il_sendBuffer := bb_buffer mmsResponseBuffer\<rparr>;
     let size = bb_size mmsResponseBuffer;
     let mmsBufferPart = payload_part (il_sendBuffer l) size;
     if size > 0 then do {
       acsePart \<leftarrow> AcseConnection_createAssociateResponseMessage (env_le env) (il_acse l) ACSE_RESULT_ACCEPT
         (part_at (SEND_BUF_SIZE env) (il_sendBuffer l) (bc_length mmsBufferPart)) (Some mmsBufferPart);
       presentationPart \<leftarrow> IsoPresentation_createCpaMessage (il_presentation l)
         (part_at (SEND_BUF_SIZE env) (il_sendBuffer l) (bc_length acsePart)) acsePart;
       sessionPart \<leftarrow> IsoSession_createAcceptSpdu (il_session l)
         (part_at (SEND_BUF_SIZE env) (il_sendBuffer l) (bc_length presentationPart)) presentationPart;
       (l, w) \<leftarrow> send_chain env l sessionPart w;
       Some (self, l, w) }
     else Some (self, l, w) }"

definition handle_connect ::
  "'w IsoEnv \<Rightarrow> ('par, 'tok, 'h) IsoConnection \<Rightarrow> ('par, 'tok) IsoLayers \<Rightarrow> 'w \<Rightarrow>
    (('par, 'tok, 'h) IsoConnection \<times> ('par, 'tok) IsoLayers \<times> 'w) option" where
  "handle_connect env self l w = do {
     (ok, presentation) \<leftarrow> IsoPresentation_parseConnect (il_presentation l) (IsoSession_getUserData (il_session l));
     let l = l\<lparr>il_presentation := presentation\<rparr>;
     if ok \<noteq> 0 then do {
       (aIndication, acse) \<leftarrow> AcseConnection_parseMessage (env_cert env) (il_acse l) (Some (nextPayload presentation));
       let l = l\<lparr>il_acse := acse\<rparr>;
       if aIndication = ACSE_ASSOCIATE then handle_associate env self l w
       else Some (stop self, l, w) }
     else Some (stop self, l, w) }"

definition handle_data ::
  "'w IsoEnv \<Rightarrow> ('par, 'tok, 'h) IsoConnection \<Rightarrow> ('par, 'tok) IsoLayers \<Rightarrow> 'w \<Rightarrow>
    (('par, 'tok, 'h) IsoConnection \<times> ('par, 'tok) IsoLayers \<times> 'w) option" where
  "handle_data env self l w = do {
     (ok, presentation) \<leftarrow> IsoPresentation_parseUserData (env_bb env) (il_presentation l) (IsoSession_getUserData (il_session l));
     let l = l\<lparr>il_presentation := presentation\<rparr>;
     if ok = 0 then Some (stop self, l, w)
     else if nextContextId presentation = mmsContextId presentation then do {
       let mmsResponseBuffer = ByteBuffer_wrap (env_bb env) (il_sendBuffer l) 0 (SEND_BUF_SIZE env);
       (self, mmsResponseBuffer) \<leftarrow> call_handler self (nextPayload presentation) mmsResponseBuffer;
       let l = l\<lparr>il_sendBuffer := bb_buffer mmsResponseBuffer\<rparr>;
       let size = bb_size mmsResponseBuffer;
       if size > 0 then do {
         let mmsBufferPart = payload_part (il_sendBuffer l) size;
         presentationPart \<leftarrow> IsoPresentation_createUserData (il_presentation l)
           (part_at (SEND_BUF_SIZE env) (il_sendBuffer l) (bc_length mmsBufferPart)) mmsBufferPart;
         let sessionPart = IsoSession_createDataSpdu (part_at (SEND_BUF_SIZE env) (il_sendBuffer l) (bc_length presentationPart)) presentationPart;
         (l, w) \<leftarrow> send_chain env l sessionPart w;
         Some (self, l, w) }
       else Some (self, l, w) }
     else Some (self, l, w) }"

definition handle_finish ::
  "'w IsoEnv \<Rightarrow> ('par, 'tok, 'h) IsoConnection \<Rightarrow> ('par, 'tok) IsoLayers \<Rightarrow> 'w \<Rightarrow>
    (('par, 'tok, 'h) IsoConnection \<times> ('par, 'tok) IsoLayers \<times> 'w) option" where
  "handle_finish env self l w = do {
     (ok, presentation) \<leftarrow> IsoPresentation_parseUserData (env_bb env) (il_presentation l) (IsoSession_getUserData (il_session l));
     let l = l\<lparr>il_presentation := presentation\<rparr>;
     if ok \<noteq> 0 then do {
       acsePart \<leftarrow> AcseConnection_createReleaseResponseMessage (il_acse l) (part_at (SEND_BUF_SIZE env) (il_sendBuffer l) 0);
       presentationPart \<leftarrow> IsoPresentation_createUserDataACSE (il_presentation l)
         (part_at (SEND_BUF_SIZE env) (il_sendBuffer l) (bc_length acsePart)) acsePart;
       sessionPart \<leftarrow> IsoSession_createDisconnectSpdu (part_at (SEND_BUF_SIZE env) (il_sendBuffer l) (bc_length presentationPart)) presentationPart;
       (l, w) \<leftarrow> send_chain env l sessionPart w;
       Some (stop self, l, w) }
     else Some (stop self, l, w) }"

definition handle_indication ::
  "'w IsoEnv \<Rightarrow> IsoSessionIndication \<Rightarrow> ('par, 'tok, 'h) IsoConnection \<Rightarrow> ('par, 'tok) IsoLayers \<Rightarrow> 'w \<Rightarrow>
    (('par, 'tok, 'h) IsoConnection \<times> ('par, 'tok) IsoLayers \<times> 'w) option" where
  "handle_indication env sIndication self l w = (case sIndication of
     SESSION_CONNECT \<Rightarrow> handle_connect env self l w
   | SESSION_DATA \<Rightarrow> handle_data env self l w
   | SESSION_FINISH \<Rightarrow> handle_finish env self l w
   | SESSION_ABORT \<Rightarrow> Some (stop self, l, w)
   | SESSION_ERROR \<Rightarrow> Some (stop self, l, w)
   | _ \<Rightarrow> Some (stop self, l, w))"

text \<open>The case \<open>COTP_DATA_INDICATION\<close>.\<close>

definition handle_message ::
  "'w IsoEnv \<Rightarrow> ('par, 'tok, 'h) IsoConnection \<Rightarrow> ('par, 'tok) IsoLayers \<Rightarrow> 'w \<Rightarrow>
    (('par, 'tok, 'h) IsoConnection \<times> 'w) option" where
  "handle_message env self l w = do {
     (sIndication, session) \<leftarrow> IsoSession_parseMessage (env_bb env) (il_session l) (cc_payload (il_cotp l));
     (self, l, w) \<leftarrow> handle_indication env sIndication self (l\<lparr>il_session := session\<rparr>) w;
     Some (self\<lparr>ic_layers := Some (l\<lparr>il_cotp := CotpConnection_resetPayload (il_cotp l)\<rparr>)\<rparr>, w) }"

section \<open>The connection\<close>

definition IsoConnection_callTickHandler ::
  "'w IsoEnv \<Rightarrow> ('par, 'tok, 'h) IsoConnection \<Rightarrow> 'w \<Rightarrow> (('par, 'tok, 'h) IsoConnection \<times> 'w) option" where
  "IsoConnection_callTickHandler env self w = do {
     l \<leftarrow> ic_layers self;
     (cotp, w) \<leftarrow> CotpConnection_flushBuffer (env_net env) (il_cotp l) w;
     let self = self\<lparr>ic_layers := Some (l\<lparr>il_cotp := cotp\<rparr>)\<rparr>;
     Some (case tickHandler self of None \<Rightarrow> self | Some f \<Rightarrow> self\<lparr>handlerParameter := f (handlerParameter self)\<rparr>, w) }"

text \<open>What follows the read of a packet.\<close>

definition handle_packet ::
  "'w IsoEnv \<Rightarrow> ('par, 'tok, 'h) IsoConnection \<Rightarrow> ('par, 'tok) IsoLayers \<Rightarrow> 'w \<Rightarrow> (('par, 'tok, 'h) IsoConnection \<times> 'w) option" where
  "handle_packet env self l w = do {
     (cotpIndication, cotp) \<leftarrow> CotpConnection_parseIncomingMessage (il_cotp l);
     let l = l\<lparr>il_cotp := cotp\<rparr>;
     let self = self\<lparr>ic_layers := Some l\<rparr>;
     case cotpIndication of
       COTP_MORE_FRAGMENTS_FOLLOW \<Rightarrow> Some (self, w)
     | COTP_CONNECT_INDICATION \<Rightarrow> do {
         (_, cotp, w) \<leftarrow> CotpConnection_sendConnectionResponseMessage (env_bb env) (env_net env) cotp w;
         Some (self\<lparr>ic_layers := Some (l\<lparr>il_cotp := cotp\<rparr>)\<rparr>, w) }
     | COTP_DATA_INDICATION \<Rightarrow> handle_message env self l w
     | COTP_ERROR \<Rightarrow> Some (stop self, w)
     | _ \<Rightarrow> Some (stop self, w) }"

definition IsoConnection_handleTcpConnection ::
  "'w IsoEnv \<Rightarrow> ('par, 'tok, 'h) IsoConnection \<Rightarrow> bool \<Rightarrow> 'w \<Rightarrow> (('par, 'tok, 'h) IsoConnection \<times> 'w) option" where
  "IsoConnection_handleTcpConnection env self isSingleThread w = do {
     (ready, self, w) \<leftarrow> (if \<not> isSingleThread then do {
         (self, w) \<leftarrow> IsoConnection_callTickHandler env self w;
         let (n, w) = Handleset_waitReady (env_net env) (ic_handleSet self) 10 w;
         Some (\<not> n < 1, self, w) }
       else Some (True, self, w));
     if \<not> ready then Some (self, w)
     else do {
       l \<leftarrow> ic_layers self;
       (tpktState, cotp, w) \<leftarrow> CotpConnection_readToTpktBuffer (env_net env) (il_cotp l) w;
       let l = l\<lparr>il_cotp := cotp\<rparr>;
       let self = self\<lparr>ic_layers := Some l\<rparr>;
       let self = (if tpktState = TPKT_ERROR then stop self else self);
       if tpktState \<noteq> TPKT_PACKET_COMPLETE then Some (self, w) else handle_packet env self l w } }"

definition finalizeIsoConnection :: "('par, 'tok, 'h) IsoConnection \<Rightarrow> ('par, 'tok, 'h) IsoConnection" where
  "finalizeIsoConnection self = self\<lparr>ic_layers := None\<rparr>"

text \<open>
  The thread of a connection, \<open>fuel\<close> rounds of it at most: \<open>None\<close> is undefined behaviour, and the
  flag tells whether the loop was left and the connection finalized.
\<close>

fun handleTcpConnection ::
  "'w IsoEnv \<Rightarrow> nat \<Rightarrow> ('par, 'tok, 'h) IsoConnection \<Rightarrow> 'w \<Rightarrow> (bool \<times> ('par, 'tok, 'h) IsoConnection \<times> 'w) option" where
  "handleTcpConnection env fuel self w =
     (if ic_state self = ISO_CON_STATE_RUNNING then (case fuel of
        0 \<Rightarrow> Some (False, self, w)
      | Suc fuel \<Rightarrow> do {
          (self, w) \<leftarrow> IsoConnection_handleTcpConnection env self False w;
          handleTcpConnection env fuel self w })
      else Some (True, (finalizeIsoConnection self)\<lparr>ic_state := ISO_CON_STATE_TERMINATED\<rparr>, w))"

declare handleTcpConnection.simps [simp del]

text \<open>
  \<open>tlsSocket\<close> is the result of \<open>TLSSocket_create\<close> when the server has a TLS configuration;
  \<open>auth\<close> and \<open>par\<close> are the authenticator of the server and its parameter; \<open>h\<close> stands for the
  handler parameter, which is \<open>NULL\<close> until a listener is installed.
\<close>

definition IsoConnection_create ::
  "'w IsoEnv \<Rightarrow> byte \<Rightarrow> byte \<Rightarrow> nat \<Rightarrow> nat option \<Rightarrow> ('par, 'tok) AcseAuthenticator option \<Rightarrow> 'par \<Rightarrow> 'h \<Rightarrow> bool \<Rightarrow> 'w \<Rightarrow>
    (('par, 'tok, 'h) IsoConnection \<times> 'w) option" where
  "IsoConnection_create env u2 u3 sock tlsSocket auth par h isSingleThread w = do {
     let buffer = (\<lambda>n. ByteBuffer_wrap (env_bb env) (env_malloc env n, 0) 0 n);
     let tpdu = COTP_MAX_TPDU_SIZE + TPKT_RFC1006_HEADER_SIZE;
     let ext = env_maxPdu env + 1000;
     (cotp, w) \<leftarrow> CotpConnection_init (env_net env) u2 u3 zero_cotp sock (buffer (RECEIVE_BUF_SIZE env)) (buffer tpdu) (Some (buffer tpdu))
       (Some (env_malloc env ext, 0)) ext w;
     let cotp = (if tlsSocket \<noteq> None then cotp\<lparr>cc_tlsSocket := tlsSocket\<rparr> else cotp);
     let layers = \<lparr>il_sendBuffer = (env_malloc env (SEND_BUF_SIZE env), 0), il_session = IsoSession_init,
       il_presentation = IsoPresentation_init zero_presentation, il_cotp = cotp,
       il_acse = AcseConnection_init (zero_acse par) auth par tlsSocket\<rparr>;
     let (hs, w) = (if isSingleThread then (0, w)
       else let (hs, w) = Handleset_new (env_net env) w in (hs, Handleset_addSocket (env_net env) hs sock w));
     Some (\<lparr>ic_state = ISO_CON_STATE_RUNNING, ic_layers = Some layers, msgRcvdHandler = None, tickHandler = None, handlerParameter = h,
       ic_socket = sock, ic_tlsSocket = tlsSocket, ic_handleSet = hs\<rparr>, w) }"

definition IsoConnection_installListener ::
  "('par, 'tok, 'h) IsoConnection \<Rightarrow> 'h MessageReceivedHandler option \<Rightarrow> ('h \<Rightarrow> 'h) option \<Rightarrow> 'h \<Rightarrow> ('par, 'tok, 'h) IsoConnection" where
  "IsoConnection_installListener self rcvdHandler tick parameter =
     self\<lparr>msgRcvdHandler := rcvdHandler, tickHandler := tick, handlerParameter := parameter\<rparr>"

definition IsoConnection_sendMessage ::
  "'w IsoEnv \<Rightarrow> ('par, 'tok, 'h) IsoConnection \<Rightarrow> ByteBuffer \<Rightarrow> 'w \<Rightarrow> (bool \<times> ('par, 'tok, 'h) IsoConnection \<times> 'w) option" where
  "IsoConnection_sendMessage env self message w =
     (if ic_state self = ISO_CON_STATE_STOPPED then Some (False, self, w)
      else do {
        l \<leftarrow> ic_layers self;
        let payloadBuffer = payload_part (bb_buffer message) (bb_size message);
        presentationBuffer \<leftarrow> IsoPresentation_createUserData (il_presentation l) (part_at (SEND_BUF_SIZE env) (il_sendBuffer l) 0) payloadBuffer;
        let sessionBuffer = IsoSession_createDataSpdu (part_at (SEND_BUF_SIZE env) (il_sendBuffer l) (bc_partLength presentationBuffer)) presentationBuffer;
        (indication, cotp, w) \<leftarrow> CotpConnection_sendDataMessage (env_bb env) (env_net env) (il_cotp l) sessionBuffer w;
        Some (indication = COTP_OK, self\<lparr>ic_layers := Some (l\<lparr>il_cotp := cotp\<rparr>)\<rparr>, w) })"

text \<open>\<open>IsoConnection_close\<close> for a connection that has no thread of its own.\<close>

definition IsoConnection_close :: "('par, 'tok, 'h) IsoConnection \<Rightarrow> ('par, 'tok, 'h) IsoConnection" where
  "IsoConnection_close self =
     (if ic_state self \<noteq> ISO_CON_STATE_TERMINATED
      then (finalizeIsoConnection (stop self))\<lparr>ic_state := ISO_CON_STATE_TERMINATED\<rparr> else self)"

definition IsoConnection_isRunning :: "('par, 'tok, 'h) IsoConnection \<Rightarrow> bool" where
  "IsoConnection_isRunning self = (if ic_state self = ISO_CON_STATE_RUNNING then True else False)"

definition IsoConnection_getSecurityToken :: "('par, 'tok, 'h) IsoConnection \<Rightarrow> 'tok option option" where
  "IsoConnection_getSecurityToken self = do { l \<leftarrow> ic_layers self; Some (securityToken (il_acse l)) }"

end
