(* ===== verification/Iso_Presentation_Props.thy ===== *)
theory Iso_Presentation_Props
  imports Iso_Presentation Iso_Session
begin

text \<open>
  What the presentation layer guarantees: its parsers are memory safe on every message and
  leave the payload inside the message, and they read back what the encoders of the peer
  write.
\<close>

section \<open>Every message is parsed safely\<close>

definition pres_ok :: "IsoPresentation \<Rightarrow> bool" where
  "pres_ok self \<longleftrightarrow> selector_ok 16 (callingPresentationSelector self) \<and> selector_ok 16 (calledPresentationSelector self)"

text \<open>A payload that lies inside the first \<open>n\<close> octets of a message.\<close>

definition inside :: "ptr \<Rightarrow> int \<Rightarrow> ByteBuffer \<Rightarrow> bool" where
  "inside buffer n b \<longleftrightarrow> (\<exists>off. 0 \<le> off \<and> 0 \<le> bb_size b \<and> off + bb_size b \<le> n \<and> bb_buffer b = padd buffer off)"

lemma inside_mono: "inside buffer n b \<Longrightarrow> n \<le> n' \<Longrightarrow> inside buffer n' b"
  unfolding inside_def by force

text \<open>The result of a parser of an element that ends at \<open>endPos\<close>.\<close>

definition element_result :: "ptr \<Rightarrow> int \<Rightarrow> int \<Rightarrow> (int \<times> IsoPresentation) option \<Rightarrow> bool" where
  "element_result buffer bufPos endPos r \<longleftrightarrow>
     (\<exists>p self'. r = Some (p, self') \<and> pres_ok self' \<and> (p = -1 \<or> bufPos \<le> p \<and> p \<le> endPos \<and> inside buffer endPos (nextPayload self')))"

lemma parseFullyEncodedData_loop_total:
  assumes v: "valid_range buffer 0 endPos" "endPos < 2 ^ 22" and "0 \<le> bufPos" and "bufPos \<le> endPos" and "pres_ok self"
    and "userDataPresent \<longrightarrow> inside buffer endPos (nextPayload self)"
  shows "element_result buffer bufPos endPos (parseFullyEncodedData_loop self buffer endPos userDataPresent bufPos)"
  using assms(3-)
proof (induction "nat (endPos - bufPos)" arbitrary: self userDataPresent bufPos rule: less_induct)
  case less
  have stop: ?case if "parseFullyEncodedData_loop self buffer endPos userDataPresent bufPos = Some (-1, self)"
    using that less.prems by (simp add: element_result_def)
  show ?case
  proof (cases "bufPos < endPos")
    case False
    then show ?thesis using less.prems
      by (subst parseFullyEncodedData_loop.simps) (cases userDataPresent; simp add: element_result_def)
  next
    case True
    consider "decodeTL buffer bufPos endPos = Some None"
      | tag p n where "decodeTL buffer bufPos endPos = Some (Some (tag, p, n))" "bufPos + 1 < p" "0 \<le> n" "p + n \<le> endPos"
      using decodeTL_safe [OF v(1,2) order_refl less.prems(1) True order_refl] by blast
    then show ?thesis
    proof cases
      case 1
      then show ?thesis using True by (intro stop) (subst parseFullyEncodedData_loop.simps, simp)
    next
      case 2
      have IH: "element_result buffer bufPos endPos (parseFullyEncodedData_loop self' buffer endPos u q)"
        if "bufPos < q" "q \<le> endPos" "pres_ok self'" "u \<longrightarrow> inside buffer endPos (nextPayload self')" for self' u q
        using less.hyps [of q self' u] that True less.prems(1) by (force simp: element_result_def)
      obtain x where x: "BerDecoder_decodeUint32 buffer n p = Some x"
        using decodeUint32_total [OF v(1), of p n] 2 less.prems(1) by auto
      let ?pay = "(nextPayload self)\<lparr>bb_buffer := padd buffer p, bb_size := n\<rparr>"
      have "inside buffer endPos ?pay" using 2 less.prems(1) by (auto simp: inside_def intro!: exI [of _ p])
      then show ?thesis
        using True 2 x less.prems IH [of p self userDataPresent] IH [of "p + n" self userDataPresent]
          IH [of "p + n" "self\<lparr>nextContextId := ucast x\<rparr>" userDataPresent] IH [of "p + n" "self\<lparr>nextPayload := ?pay\<rparr>" True]
        by (subst parseFullyEncodedData_loop.simps) (simp add: pres_ok_def)
    qed
  qed
qed

lemma parseFullyEncodedData_total:
  assumes v: "valid_range buffer 0 hi" "hi < 2 ^ 22" and p: "0 \<le> bufPos" "0 \<le> len" "bufPos + len \<le> hi" "bufPos < hi" and ok: "pres_ok self"
  shows "element_result buffer bufPos (bufPos + len) (parseFullyEncodedData self buffer len bufPos)"
proof -
  have v': "valid_range buffer 0 (bufPos + len)" using v p by (auto simp: valid_range_def)
  obtain b where b: "rd buffer bufPos = Some b" using rd_valid [OF v(1) p(1,4)] by blast
  consider "decodeLength_or_fail buffer (bufPos + 1) (bufPos + len) = Some None"
    | q n where "decodeLength_or_fail buffer (bufPos + 1) (bufPos + len) = Some (Some (q, n))" "bufPos + 1 < q" "0 \<le> n" "q + n \<le> bufPos + len"
    using decodeLength_or_fail_safe [OF v', of "bufPos + 1"] v p by auto
  then show ?thesis
  proof cases
    case 1
    then show ?thesis using b ok by (simp add: parseFullyEncodedData_def element_result_def)
  next
    case 2
    have "valid_range buffer 0 (q + n)" "q + n < 2 ^ 22" using v' v(2) 2(4) p by (auto simp: valid_range_def)
    from parseFullyEncodedData_loop_total [OF this, of q self False] have
      "element_result buffer bufPos (bufPos + len) (parseFullyEncodedData_loop self buffer (q + n) False q)"
      using 2 p ok inside_mono [of buffer "q + n" _ "bufPos + len"] by (fastforce simp: element_result_def)
    then show ?thesis using b ok 2 by (auto simp: parseFullyEncodedData_def element_result_def)
  qed
qed

definition entry_result :: "int \<Rightarrow> int \<Rightarrow> (int \<times> int \<times> bool \<times> bool) option option \<Rightarrow> bool" where
  "entry_result bufPos endPos r \<longleftrightarrow> r = Some None \<or> (\<exists>p x. r = Some (Some (p, x)) \<and> bufPos \<le> p \<and> p \<le> endPos)"

lemma parsePCDLEntry_loop_total:
  assumes v: "valid_range buffer 0 endPos" "endPos < 2 ^ 22" and "0 \<le> bufPos" and "bufPos \<le> endPos"
  shows "entry_result bufPos endPos (parsePCDLEntry_loop buffer endPos contextId isAcse isMms bufPos)"
  using assms(3-)
proof (induction "nat (endPos - bufPos)" arbitrary: contextId isAcse isMms bufPos rule: less_induct)
  case less
  show ?case
  proof (cases "bufPos < endPos")
    case False
    then show ?thesis using less.prems by (subst parsePCDLEntry_loop.simps) (simp add: entry_result_def)
  next
    case True
    consider "decodeTL buffer bufPos endPos = Some None"
      | tag p n where "decodeTL buffer bufPos endPos = Some (Some (tag, p, n))" "bufPos + 1 < p" "0 \<le> n" "p + n \<le> endPos"
      using decodeTL_safe [OF v(1,2) order_refl less.prems(1) True order_refl] by blast
    then show ?thesis
    proof cases
      case 1
      then show ?thesis using True by (subst parsePCDLEntry_loop.simps) (simp add: entry_result_def)
    next
      case 2
      have IH: "entry_result bufPos endPos (parsePCDLEntry_loop buffer endPos c a m q)" if "bufPos < q" "q \<le> endPos" for c a m q
        using less.hyps [of q c a m] that True less.prems(1) by (force simp: entry_result_def)
      obtain x where x: "BerDecoder_decodeUint32 buffer n p = Some x"
        using decodeUint32_total [OF v(1), of p n] 2 less.prems(1) by auto
      obtain xs where "rdn buffer p (nat n) = Some xs"
        using rdn_total [OF v(1), of p "nat n"] 2 less.prems(1) by auto
      then have xs: "n = 5 \<longrightarrow> rdn buffer p 5 = Some xs" "n = 4 \<longrightarrow> rdn buffer p 4 = Some xs" by auto
      have step: "bufPos < p" "p \<le> endPos" "bufPos < p + n" "p + n \<le> endPos" using 2 by auto
      have fixed: "n = k \<Longrightarrow> entry_result bufPos endPos (parsePCDLEntry_loop buffer endPos c a m (p + k))" for k c a m
        using IH [OF step(3,4)] by blast
      show ?thesis using True 2(1) x xs IH [OF step(1,2)] IH [OF step(3,4)] fixed [of 4] fixed [of 5]
        by (subst parsePCDLEntry_loop.simps) simp
    qed
  qed
qed

lemma parsePCDLEntry_total:
  assumes v: "valid_range buffer 0 hi" "hi < 2 ^ 22" and p: "0 \<le> bufPos" "0 \<le> len" "bufPos + len \<le> hi" and ok: "pres_ok self"
  shows "\<exists>p self'. parsePCDLEntry self buffer len bufPos = Some (p, self') \<and> pres_ok self' \<and> nextPayload self' = nextPayload self \<and>
    (p = -1 \<or> bufPos \<le> p \<and> p \<le> bufPos + len)"
proof -
  have "valid_range buffer 0 (bufPos + len)" "bufPos + len < 2 ^ 22" using v p by (auto simp: valid_range_def)
  from parsePCDLEntry_loop_total [OF this p(1), of "-1" False False] p(2)
  have "entry_result bufPos (bufPos + len) (parsePCDLEntry_loop buffer (bufPos + len) (-1) False False bufPos)" by simp
  then show ?thesis using ok by (auto simp: entry_result_def parsePCDLEntry_def pres_ok_def)
qed

lemma parsePCDL_loop_total:
  assumes v: "valid_range buffer 0 endPos" "endPos < 2 ^ 22" and "0 \<le> bufPos" and "bufPos \<le> endPos" and "pres_ok self"
  shows "\<exists>p self'. parsePCDL_loop self buffer endPos bufPos = Some (p, self') \<and> pres_ok self' \<and> nextPayload self' = nextPayload self \<and>
    (p = -1 \<or> bufPos \<le> p \<and> p \<le> endPos)"
  using assms(3-)
proof (induction "nat (endPos - bufPos)" arbitrary: self bufPos rule: less_induct)
  case less
  show ?case
  proof (cases "bufPos < endPos")
    case False
    then show ?thesis using less.prems by (subst parsePCDL_loop.simps) simp
  next
    case True
    consider "decodeTL buffer bufPos endPos = Some None"
      | tag p n where "decodeTL buffer bufPos endPos = Some (Some (tag, p, n))" "bufPos + 1 < p" "0 \<le> n" "p + n \<le> endPos"
      using decodeTL_safe [OF v(1,2) order_refl less.prems(1) True order_refl] by blast
    then show ?thesis
    proof cases
      case 1
      then show ?thesis using True less.prems(3) by (subst parsePCDL_loop.simps) simp
    next
      case 2
      have IH: "\<exists>p s2. parsePCDL_loop s1 buffer endPos q = Some (p, s2) \<and> pres_ok s2 \<and> nextPayload s2 = nextPayload self \<and>
          (p = -1 \<or> bufPos \<le> p \<and> p \<le> endPos)"
        if "bufPos < q" "q \<le> endPos" "pres_ok s1" "nextPayload s1 = nextPayload self" for s1 q
        using less.hyps [of q s1] that True less.prems(1) by fastforce
      obtain q s1 where q: "parsePCDLEntry self buffer n p = Some (q, s1)" "pres_ok s1" "nextPayload s1 = nextPayload self"
          "q = -1 \<or> p \<le> q \<and> q \<le> p + n"
        using parsePCDLEntry_total [OF v, of p n self] 2 less.prems by auto
      show ?thesis
      proof (cases "tag = 0x30")
        case tag: True
        show ?thesis
        proof (cases "q = -1")
          case False
          then show ?thesis using True 2 tag q IH [of q s1] less.prems(1) by (subst parsePCDL_loop.simps) auto
        qed (use True 2 tag q in \<open>subst parsePCDL_loop.simps, simp\<close>)
      next
        case False
        then show ?thesis using True 2 IH [of p self] IH [of "p + n" self] less.prems(3)
          by (subst parsePCDL_loop.simps) simp
      qed
    qed
  qed
qed

lemma parse_selector_total:
  assumes "valid_range buffer 0 hi" and "0 \<le> p" and "0 \<le> n" and "p + n \<le> hi" and "selector_ok 16 sel"
  shows "\<exists>sel'. parse_selector sel buffer n p = Some sel' \<and> selector_ok 16 sel'"
proof (cases "n > 16")
  case False
  have "valid_range buffer p (p + n)" using assms by (auto simp: valid_range_def)
  then obtain v where "read_octets buffer n p (sel_value sel) = Some (v, p + n)" "length v = 16"
    using read_octets_valid [of buffer p n "sel_value sel"] assms(3,5) False by (auto simp: selector_ok_def)
  moreover have "unat (word_of_int n :: byte) \<le> 16" using False assms(3) by (simp add: unat_eq_nat_uint uint_word_of_int)
  ultimately show ?thesis using False by (simp add: parse_selector_def selector_ok_def)
qed (use assms in \<open>simp add: parse_selector_def\<close>)

lemma parsePCDL_total:
  assumes v: "valid_range buffer 0 hi" "hi < 2 ^ 22" and p: "0 \<le> bufPos" "0 \<le> len" "bufPos + len \<le> hi" and ok: "pres_ok self"
  shows "\<exists>p self'. parsePresentationContextDefinitionList self buffer len bufPos = Some (p, self') \<and> pres_ok self' \<and>
    nextPayload self' = nextPayload self \<and> (p = -1 \<or> bufPos \<le> p \<and> p \<le> bufPos + len)"
proof -
  have "valid_range buffer 0 (bufPos + len)" "bufPos + len < 2 ^ 22" using v p by (auto simp: valid_range_def)
  then show ?thesis using parsePCDL_loop_total [of buffer "bufPos + len" bufPos self] p ok
    by (simp add: parsePresentationContextDefinitionList_def)
qed

lemma element_result_mono:
  "element_result buffer p endPos r \<Longrightarrow> p' \<le> p \<Longrightarrow> endPos \<le> endPos' \<Longrightarrow> element_result buffer p' endPos' r"
  unfolding element_result_def using inside_mono by fastforce

lemma element_result_fail: "pres_ok self \<Longrightarrow> element_result buffer p endPos (Some (-1, self))"
  by (simp add: element_result_def)

text \<open>A parser that hands the position after an inner element to the rest of its loop.\<close>

lemma element_result_bind:
  assumes "element_result buffer p endPos r" and "0 \<le> p"
    and "\<And>q self'. p \<le> q \<Longrightarrow> q \<le> endPos \<Longrightarrow> pres_ok self' \<Longrightarrow> inside buffer endPos (nextPayload self') \<Longrightarrow>
      element_result buffer p' endPos' (f q self')"
  shows "element_result buffer p' endPos' (do { (q, self') \<leftarrow> r; if q < 0 then Some (-1, self') else f q self' })"
  using assms by (auto simp: element_result_def)

lemma parseNormalModeParameters_loop_total:
  assumes v: "valid_range buffer 0 hi" "hi < 2 ^ 22" "endPos < hi" and "0 \<le> bufPos" and "bufPos \<le> endPos" and "pres_ok self"
    and "hasUserData \<longrightarrow> inside buffer endPos (nextPayload self)"
  shows "element_result buffer bufPos endPos (parseNormalModeParameters_loop self buffer endPos hasUserData bufPos)"
  using assms(4-)
proof (induction "nat (endPos - bufPos)" arbitrary: self hasUserData bufPos rule: less_induct)
  case less
  have v': "valid_range buffer 0 endPos" "endPos < 2 ^ 22" using v by (auto simp: valid_range_def)
  show ?case
  proof (cases "bufPos < endPos")
    case False
    then show ?thesis using less.prems
      by (subst parseNormalModeParameters_loop.simps) (cases hasUserData; simp add: element_result_def)
  next
    case True
    obtain tag where tag: "rd buffer bufPos = Some tag" using rd_valid [OF v'(1) less.prems(1) True] by blast
    consider "decodeLength_or_fail buffer (bufPos + 1) endPos = Some None"
      | p n where "decodeLength_or_fail buffer (bufPos + 1) endPos = Some (Some (p, n))" "bufPos + 1 < p" "0 \<le> n" "p + n \<le> endPos"
      using decodeLength_or_fail_safe [OF v' order_refl, of "bufPos + 1"] less.prems(1) by auto
    then show ?thesis
    proof cases
      case 1
      then show ?thesis using True tag less.prems(3)
        by (subst parseNormalModeParameters_loop.simps) (simp add: element_result_fail)
    next
      case 2
      have IH: "element_result buffer bufPos endPos (parseNormalModeParameters_loop s1 buffer endPos u q)"
        if "bufPos < q" "q \<le> endPos" "pres_ok s1" "u \<longrightarrow> inside buffer endPos (nextPayload s1)" for s1 u q
        using that True less.prems(1) by (intro element_result_mono [OF less.hyps [of q s1 u]]) auto
      have step: "bufPos < p" "p \<le> endPos" "bufPos < p + n" "p + n \<le> endPos" "0 \<le> p" "p < hi" "p + n \<le> hi"
        using 2 less.prems(1) v(3) by auto
      have skip: "element_result buffer bufPos endPos (parseNormalModeParameters_loop self buffer endPos hasUserData q)"
        if "q = p \<or> q = p + n" for q
        using that IH [of q self hasUserData] step less.prems(3,4) by blast
      obtain sel1 sel2 where sel: "parse_selector (callingPresentationSelector self) buffer n p = Some sel1" "selector_ok 16 sel1"
          "parse_selector (calledPresentationSelector self) buffer n p = Some sel2" "selector_ok 16 sel2"
        using parse_selector_total [OF v(1) step(5) 2(3) step(7), of "callingPresentationSelector self"]
          parse_selector_total [OF v(1) step(5) 2(3) step(7), of "calledPresentationSelector self"] less.prems(3)
        by (auto simp: pres_ok_def)
      have sels: "element_result buffer bufPos endPos (parseNormalModeParameters_loop (self\<lparr>callingPresentationSelector := sel1\<rparr>) buffer endPos hasUserData (p + n))"
        "element_result buffer bufPos endPos (parseNormalModeParameters_loop (self\<lparr>calledPresentationSelector := sel2\<rparr>) buffer endPos hasUserData (p + n))"
        using IH [OF step(3,4)] less.prems(3,4) sel by (simp_all add: pres_ok_def)
      obtain q s1 where pcdl: "parsePresentationContextDefinitionList self buffer n p = Some (q, s1)" "pres_ok s1"
          "nextPayload s1 = nextPayload self" "q = -1 \<or> p \<le> q \<and> q \<le> p + n"
        using parsePCDL_total [OF v(1,2), of p n self] step 2(3) less.prems(3) by auto
      have pcdl': "\<not> q < 0 \<Longrightarrow> element_result buffer bufPos endPos (parseNormalModeParameters_loop s1 buffer endPos hasUserData q)"
        "q < 0 \<Longrightarrow> element_result buffer bufPos endPos (Some (-1, s1))"
        using IH [of q s1 hasUserData] pcdl step less.prems(4) by (auto simp: element_result_fail)
      have fed: "element_result buffer bufPos endPos (do { (q, s1) \<leftarrow> parseFullyEncodedData self buffer n p;
          if q < 0 then Some (-1, s1) else parseNormalModeParameters_loop s1 buffer endPos
            (if bb_size (nextPayload s1) > 0 then True else hasUserData) q })"
      proof (rule element_result_bind)
        show "element_result buffer p (p + n) (parseFullyEncodedData self buffer n p)"
          using parseFullyEncodedData_total [OF v(1,2) step(5) 2(3) step(7,6) less.prems(3)] .
      qed (use step in \<open>auto intro!: IH elim!: inside_mono\<close>)
      show ?thesis using True tag 2(1,2) sel sels skip [of p] skip [of "p + n"] pcdl(1) pcdl' fed less.prems(3)
        by (subst parseNormalModeParameters_loop.simps) (simp add: element_result_fail)
    qed
  qed
qed

lemma parseNormalModeParameters_total:
  assumes v: "valid_range buffer 0 hi" "hi < 2 ^ 22" and p: "0 \<le> bufPos" "0 \<le> len" "bufPos + len < hi" and ok: "pres_ok self"
  shows "element_result buffer bufPos (bufPos + len) (parseNormalModeParameters self buffer len bufPos)"
  using parseNormalModeParameters_loop_total [OF v p(3,1), of _ False] p ok
  by (simp add: parseNormalModeParameters_def Let_def pres_ok_def selector_ok_def)

text \<open>The result of a parser of a whole message.\<close>

definition message_result :: "(ByteBuffer \<Rightarrow> bool) \<Rightarrow> (int \<times> IsoPresentation) option \<Rightarrow> bool" where
  "message_result good r \<longleftrightarrow> (\<exists>ret self'. r = Some (ret, self') \<and> pres_ok self' \<and> (ret = 0 \<or> ret = 1 \<and> good (nextPayload self')))"

lemma message_result_fail: "pres_ok self \<Longrightarrow> message_result good (Some (0, self))"
  by (simp add: message_result_def)

lemma message_result_bind:
  assumes "element_result buffer p endPos r" and "0 \<le> p"
    and "\<And>q self'. p \<le> q \<Longrightarrow> q \<le> endPos \<Longrightarrow> pres_ok self' \<Longrightarrow> inside buffer endPos (nextPayload self') \<Longrightarrow> message_result good (f q self')"
  shows "message_result good (do { (q, self') \<leftarrow> r; if q < 0 then Some (0, self') else f q self' })"
  using assms by (auto simp: element_result_def message_result_fail)

lemma parseConnect_loop_total:
  assumes v: "valid_range buffer 0 (maxBufPos + 1)" "maxBufPos + 1 < 2 ^ 22" and "0 \<le> bufPos" and "bufPos \<le> maxBufPos" and "pres_ok self"
    and "hasNormalModeParameters \<longrightarrow> inside buffer maxBufPos (nextPayload self)"
  shows "message_result (inside buffer maxBufPos) (parseConnect_loop self buffer maxBufPos hasNormalModeParameters bufPos)"
  using assms(3-)
proof (induction "nat (maxBufPos - bufPos)" arbitrary: self hasNormalModeParameters bufPos rule: less_induct)
  case less
  let ?r = "message_result (inside buffer maxBufPos)"
  show ?case
  proof (cases "bufPos < maxBufPos")
    case False
    then show ?thesis using less.prems
      by (subst parseConnect_loop.simps) (cases hasNormalModeParameters; simp add: message_result_def)
  next
    case True
    have v': "valid_range buffer 0 maxBufPos" "maxBufPos < 2 ^ 22" using v by (auto simp: valid_range_def)
    consider "decodeTL buffer bufPos maxBufPos = Some None"
      | tag p n where "decodeTL buffer bufPos maxBufPos = Some (Some (tag, p, n))" "bufPos + 1 < p" "0 \<le> n" "p + n \<le> maxBufPos"
      using decodeTL_safe [OF v' order_refl less.prems(1) True order_refl] by blast
    then show ?thesis
    proof cases
      case 1
      then show ?thesis using True less.prems(3) by (subst parseConnect_loop.simps) (simp add: message_result_fail)
    next
      case 2
      have IH: "?r (parseConnect_loop s1 buffer maxBufPos u q)"
        if "bufPos < q" "q \<le> maxBufPos" "pres_ok s1" "u \<longrightarrow> inside buffer maxBufPos (nextPayload s1)" for s1 u q
        using that True less.prems(1) by (intro less.hyps) auto
      have skip: "?r (parseConnect_loop self buffer maxBufPos hasNormalModeParameters q)" if "bufPos < q" "q \<le> maxBufPos" for q
        using that IH [of q self hasNormalModeParameters] less.prems(3,4) by blast
      have step: "0 \<le> p" "p < maxBufPos + 1" "p + n < maxBufPos + 1" using 2 less.prems(1) by auto
      obtain b where b: "rd buffer p = Some b" using rd_valid [OF v(1) step(1,2)] by blast
      have mode: "?r (do { r \<leftarrow> decodeLength_or_fail buffer (p + 1) maxBufPos;
              case r of None \<Rightarrow> Some (0, self)
              | Some (q, n) \<Rightarrow> do { m \<leftarrow> BerDecoder_decodeUint32 buffer n q;
                  parseConnect_loop self buffer maxBufPos hasNormalModeParameters (q + n) } })"
      proof -
        consider "decodeLength_or_fail buffer (p + 1) maxBufPos = Some None"
          | q k where "decodeLength_or_fail buffer (p + 1) maxBufPos = Some (Some (q, k))" "p + 1 < q" "0 \<le> k" "q + k \<le> maxBufPos"
          using decodeLength_or_fail_safe [OF v' order_refl, of "p + 1"] step by auto
        then show ?thesis
        proof cases
          case c: 2
          obtain x where "BerDecoder_decodeUint32 buffer k q = Some x"
            using decodeUint32_total [OF v'(1), of q k] c step by auto
          then show ?thesis using c skip [of "q + k"] 2 by simp
        qed (use less.prems(3) in \<open>simp add: message_result_fail\<close>)
      qed
      have normal: "?r (do { (q, s1) \<leftarrow> parseNormalModeParameters self buffer n p;
          if q < 0 then Some (0, s1) else parseConnect_loop s1 buffer maxBufPos True q })"
      proof (rule message_result_bind)
        show "element_result buffer p (p + n) (parseNormalModeParameters self buffer n p)"
          using parseNormalModeParameters_total [OF v step(1) 2(3) step(3) less.prems(3)] .
      qed (use 2 step in \<open>auto intro!: IH elim!: inside_mono\<close>)
      show ?thesis using True 2 b mode normal skip [of p] skip [of "p + n"] less.prems(3)
        by (subst parseConnect_loop.simps) (simp add: message_result_fail)
    qed
  qed
qed

lemma parseAcceptMessage_loop_total:
  assumes v: "valid_range buffer 0 (maxBufPos + 1)" "maxBufPos + 1 < 2 ^ 22" and "0 \<le> bufPos" and "bufPos \<le> maxBufPos" and "pres_ok self"
    and "nextPayload self = old \<or> inside buffer maxBufPos (nextPayload self)"
  shows "message_result (\<lambda>b. b = old \<or> inside buffer maxBufPos b) (parseAcceptMessage_loop self buffer maxBufPos bufPos)"
  using assms(3-)
proof (induction "nat (maxBufPos - bufPos)" arbitrary: self bufPos rule: less_induct)
  case less
  let ?r = "message_result (\<lambda>b. b = old \<or> inside buffer maxBufPos b)"
  show ?case
  proof (cases "bufPos < maxBufPos")
    case False
    then show ?thesis using less.prems by (subst parseAcceptMessage_loop.simps) (simp add: message_result_def)
  next
    case True
    have v': "valid_range buffer 0 maxBufPos" "maxBufPos < 2 ^ 22" using v by (auto simp: valid_range_def)
    consider "decodeTL buffer bufPos maxBufPos = Some None"
      | tag p n where "decodeTL buffer bufPos maxBufPos = Some (Some (tag, p, n))" "bufPos + 1 < p" "0 \<le> n" "p + n \<le> maxBufPos"
      using decodeTL_safe [OF v' order_refl less.prems(1) True order_refl] by blast
    then show ?thesis
    proof cases
      case 1
      then show ?thesis using True less.prems(3) by (subst parseAcceptMessage_loop.simps) (simp add: message_result_fail)
    next
      case 2
      have IH: "?r (parseAcceptMessage_loop s1 buffer maxBufPos q)"
        if "bufPos < q" "q \<le> maxBufPos" "pres_ok s1" "nextPayload s1 = old \<or> inside buffer maxBufPos (nextPayload s1)" for s1 q
        using that True less.prems(1) by (intro less.hyps) auto
      have step: "0 \<le> p" "p + n < maxBufPos + 1" using 2 less.prems(1) by auto
      have normal: "?r (do { (q, s1) \<leftarrow> parseNormalModeParameters self buffer n p;
          if q < 0 then Some (0, s1) else parseAcceptMessage_loop s1 buffer maxBufPos q })"
      proof (rule message_result_bind)
        show "element_result buffer p (p + n) (parseNormalModeParameters self buffer n p)"
          using parseNormalModeParameters_total [OF v step(1) 2(3) step(2) less.prems(3)] .
      qed (use 2 step in \<open>auto intro!: IH disjI2 elim!: inside_mono\<close>)
      show ?thesis using True 2 normal IH [of p self] IH [of "p + n" self] less.prems(3,4)
        by (subst parseAcceptMessage_loop.simps) simp
    qed
  qed
qed

text \<open>
  The loop of \<open>IsoPresentation_parseUserData\<close> looks at the octet after a tag before its
  position is checked, and at the two octets of a transfer syntax name whatever its length is.
\<close>

lemma parseUserData_loop_total:
  assumes api: "bytebuffer_ok api" and v: "valid_range buffer 0 (maxBufPos + 2)" "maxBufPos < 2 ^ 22"
    and "0 \<le> bufPos" and "bufPos \<le> maxBufPos" and "pres_ok self"
  shows "message_result (inside buffer maxBufPos) (parseUserData_loop api self buffer maxBufPos hasName bufPos)"
  using assms(4-)
proof (induction "nat (maxBufPos - bufPos)" arbitrary: self hasName bufPos rule: less_induct)
  case less
  let ?r = "message_result (inside buffer maxBufPos)"
  show ?case
  proof (cases "bufPos < maxBufPos")
    case False
    then show ?thesis using less.prems by (subst parseUserData_loop.simps) (simp add: message_result_fail)
  next
    case True
    have v': "valid_range buffer 0 maxBufPos" using v by (auto simp: valid_range_def)
    obtain tag l where tl: "rd buffer bufPos = Some tag" "rd buffer (bufPos + 1) = Some l"
      using rd_valid [OF v(1), of bufPos] rd_valid [OF v(1), of "bufPos + 1"] less.prems(1) True by auto
    consider "decodeLength_or_fail buffer (bufPos + 1) maxBufPos = Some None"
      | p n where "decodeLength_or_fail buffer (bufPos + 1) maxBufPos = Some (Some (p, n))" "bufPos + 1 < p" "0 \<le> n" "p + n \<le> maxBufPos"
      using decodeLength_or_fail_safe [OF v' v(2) order_refl, of "bufPos + 1"] less.prems(1) by auto
    then show ?thesis
    proof cases
      case 1
      then show ?thesis using True tl less.prems(3) by (subst parseUserData_loop.simps) (simp add: message_result_fail)
    next
      case 2
      have IH: "?r (parseUserData_loop api s1 buffer maxBufPos u q)" if "bufPos < q" "q \<le> maxBufPos" "pres_ok s1" for s1 u q
        using that True less.prems(1) by (intro less.hyps) auto
      obtain b b' where b: "rd buffer p = Some b" "rd buffer (p + 1) = Some b'"
        using rd_valid [OF v(1), of p] rd_valid [OF v(1), of "p + 1"] 2 less.prems(1) by auto
      have len: "l = 0x80 \<longrightarrow> 2 \<le> n"
        using decodeLength_or_fail_indefinite [OF v' v(2) order_refl, of "bufPos + 1"] 2(1) tl(2) less.prems(1) by auto
      have "inside buffer maxBufPos \<lparr>bb_buffer = padd buffer p, bb_size = k, bb_maxSize = k\<rparr>" if "0 \<le> k" "k \<le> n" for k
        using 2 that less.prems(1) by (auto simp: inside_def intro!: exI [of _ p])
      then have data: "message_result (inside buffer maxBufPos) (Some (1, self\<lparr>nextPayload := ByteBuffer_wrap api (padd buffer p) k k\<rparr>))"
        if "0 \<le> k" "k \<le> n" for k
        using that less.prems(3) by (simp add: message_result_def bytebuffer_simps [OF api] pres_ok_def)
      show ?thesis
        using True tl 2 b len data [of n] data [of "n - 2"] IH [of p self True] IH [of p self False]
          IH [of "p + n" self True] IH [of "p + n" self False] IH [of "p + n" "self\<lparr>nextContextId := b\<rparr>" True] less.prems(3)
        by (subst parseUserData_loop.simps) (simp add: message_result_fail Let_def pres_ok_def)
    qed
  qed
qed

lemma message_length_safe:
  assumes v: "valid_range buffer 0 maxBufPos" "maxBufPos < 2 ^ 22" and "0 \<le> bufPos" and "pres_ok self"
    and "\<And>p n. bufPos < p \<Longrightarrow> 0 \<le> n \<Longrightarrow> p + n \<le> maxBufPos \<Longrightarrow> message_result good (f p)"
  shows "message_result good (do { r \<leftarrow> decodeLength_or_fail buffer bufPos maxBufPos;
    case r of None \<Rightarrow> Some (0, self) | Some (p, n) \<Rightarrow> f p })"
  using decodeLength_or_fail_safe [OF v order_refl assms(3)] assms(4,5) by (auto simp: message_result_fail)

section \<open>Properties: safety\<close>


section \<open>PDUs as octet strings\<close>

definition pdv :: "byte \<Rightarrow> byte list \<Rightarrow> byte list" where
  "pdv ctx xs = tlv 0x02 [ctx] @ tlv 0xa0 xs"

definition user_data :: "byte \<Rightarrow> byte list \<Rightarrow> byte list" where
  "user_data ctx xs = tlv 0x61 (tlv 0x30 (pdv ctx xs))"

text \<open>The octets in front of the payload.\<close>

definition user_data_header :: "byte \<Rightarrow> byte list \<Rightarrow> byte list" where
  "user_data_header ctx xs = tl_octets 0x61 (int (length (tlv 0x30 (pdv ctx xs)))) @ tl_octets 0x30 (int (length (pdv ctx xs))) @
     tlv 0x02 [ctx] @ tl_octets 0xa0 (int (length xs))"

definition context_entry :: "byte \<Rightarrow> byte list \<Rightarrow> byte list" where
  "context_entry c oid = tlv 0x02 [c] @ tlv 0x06 oid @ tlv 0x30 (tlv 0x06 ber_id)"

definition context_entries :: "byte list" where
  "context_entries = tlv 0x30 (context_entry 1 asn_id_as_acse) @ tlv 0x30 (context_entry 3 asn_id_mms)"

definition context_list :: "byte list" where
  "context_list = tlv 0xa4 context_entries"

definition mode_selector :: "byte list" where
  "mode_selector = tlv 0xa0 (tlv 0x80 [1])"

definition accept_ber :: "byte list" where
  "accept_ber = tlv 0x30 (tlv 0x80 [0] @ tlv 0x81 ber_id)"

definition normal_cp :: "byte list \<Rightarrow> byte list \<Rightarrow> byte list \<Rightarrow> byte list" where
  "normal_cp calling called ud = tlv 0x81 calling @ tlv 0x82 called @ context_list @ ud"

definition normal_cpa :: "byte list \<Rightarrow> byte list" where
  "normal_cpa ud = tlv 0x83 static_calledPresentationSelector @ tlv 0xa5 (accept_ber @ accept_ber) @ ud"

definition cp_type :: "byte list \<Rightarrow> byte list" where
  "cp_type normal = tlv 0x31 (mode_selector @ tlv 0xa2 normal)"

lemma user_data_split: "user_data ctx xs = user_data_header ctx xs @ xs"
  by (simp add: user_data_def user_data_header_def pdv_def tlv_def)

lemma length_pdv [outlen]: "length (pdv ctx xs) = 3 + length (tlv 0xa0 xs)"
  by (simp add: pdv_def tlv_short)

lemma length_user_data_le: "length (user_data ctx xs) \<le> length xs + 18" "length xs + 9 \<le> length (user_data ctx xs)"
  using length_tlv_le [of xs "0xa0"] length_tlv_le [of "pdv ctx xs" "0x30"] length_tlv_le [of "tlv 0x30 (pdv ctx xs)" "0x61"]
  by (simp_all add: user_data_def outlen)

lemma fixed_parts: "length context_entries = 35" "length context_list = 37" "length mode_selector = 5" "length accept_ber = 9"
  by (simp_all add: context_list_def context_entries_def context_entry_def mode_selector_def accept_ber_def asn_id_as_acse_def asn_id_mms_def ber_id_def tlv_short)

section \<open>What the encoders write\<close>

text \<open>The sizes that the encoder announces are right for payloads up to 65000 octets.\<close>

lemma encodeUserData_lengths:
  assumes c: "chain_wf payload" "bc_length payload \<le> 65000"
  shows "encodedDataSetLength payload = int (length (pdv ctx (chain_bytes payload)))"
    and "fullyEncodedDataLength payload = int (length (tlv 0x30 (pdv ctx (chain_bytes payload))))"
    and "encodeUserData_length payload = int (length (user_data ctx (chain_bytes payload)))"
proof -
  let ?xs = "chain_bytes payload"
  have n: "bc_length payload = int (length ?xs)" "length ?xs \<le> 65000" using chain_length [OF c(1)] c(2) by auto
  have l1: "length (pdv ctx ?xs) \<le> 65008" "length (tlv 0x30 (pdv ctx ?xs)) \<le> 65013"
    using n(2) length_tlv_le [of ?xs "0xa0"] length_tlv_le [of "pdv ctx ?xs" "0x30"] by (simp_all add: outlen)
  show 1: "encodedDataSetLength payload = int (length (pdv ctx ?xs))"
    using determineLengthSize_octets [of "int (length ?xs)" "0xa0"] n
    by (simp add: encodedDataSetLength_def length_pdv) (simp add: tlv_def)
  show 2: "fullyEncodedDataLength payload = int (length (tlv 0x30 (pdv ctx ?xs)))"
    using determineLengthSize_octets [of "int (length (pdv ctx ?xs))" "0x30"] l1
    by (simp add: fullyEncodedDataLength_def 1) (simp add: tlv_def)
  show "encodeUserData_length payload = int (length (user_data ctx ?xs))"
    using determineLengthSize_octets [of "int (length (tlv 0x30 (pdv ctx ?xs)))" "0x61"] l1
    by (simp add: encodeUserData_length_def 2 user_data_def) (simp add: tlv_def)
qed

lemma encodeUserData_emits:
  assumes c: "chain_wf payload" "bc_length payload \<le> 65000"
  shows "encodeUserData payload ctx = emit (user_data_header ctx (chain_bytes payload))"
proof -
  let ?xs = "chain_bytes payload"
  have n: "bc_length payload = int (length ?xs)" "length ?xs \<le> 65000" using chain_length [OF c(1)] c(2) by auto
  have l1: "length (pdv ctx ?xs) \<le> 65008" "length (tlv 0x30 (pdv ctx ?xs)) \<le> 65013"
    using n(2) length_tlv_le [of ?xs "0xa0"] length_tlv_le [of "pdv ctx ?xs" "0x30"] by (simp_all add: outlen)
  have "BerEncoder_encodeTL 0x02 1 = emit (tl_octets 0x02 1)" using encodeTL_tl_octets [of 1 "0x02"] by simp
  then show ?thesis using l1 n
    by (intro ext) (simp add: encodeUserData_def encodeUserData_lengths [OF c, of ctx] encodeTL_tl_octets emit_single emit_fuse emit_fuse_bind
        user_data_header_def tlv_def [of 2] del: emit.simps of_int_of_nat_eq)
qed

definition cp_header :: "byte list \<Rightarrow> byte list \<Rightarrow> byte \<Rightarrow> byte list \<Rightarrow> byte list" where
  "cp_header calling called ctx xs = (let normal = normal_cp calling called (user_data ctx xs) in
     tl_octets 0x31 (int (length (mode_selector @ tlv 0xa2 normal))) @ mode_selector @ tl_octets 0xa2 (int (length normal)) @
     tlv 0x81 calling @ tlv 0x82 called @ context_list @ user_data_header ctx xs)"

lemma cp_header: "cp_header calling called ctx xs @ xs = cp_type (normal_cp calling called (user_data ctx xs))"
  by (simp add: cp_header_def cp_type_def Let_def tlv_def normal_cp_def user_data_split)

definition cpa_header :: "byte \<Rightarrow> byte list \<Rightarrow> byte list" where
  "cpa_header ctx xs = (let normal = normal_cpa (user_data ctx xs) in
     tl_octets 0x31 (int (length (mode_selector @ tlv 0xa2 normal))) @ mode_selector @ tl_octets 0xa2 (int (length normal)) @
     tlv 0x83 static_calledPresentationSelector @ tlv 0xa5 (accept_ber @ accept_ber) @ user_data_header ctx xs)"

lemma cpa_header: "cpa_header ctx xs @ xs = cp_type (normal_cpa (user_data ctx xs))"
  by (simp add: cpa_header_def cp_type_def Let_def tlv_def normal_cpa_def user_data_split)

lemma createConnectPdu_emits:
  assumes c: "chain_wf payload" "bc_length payload \<le> 65000" and ok: "pres_ok self"
  shows "createConnectPdu self wb payload = do {
    s \<leftarrow> emit (cp_header (sel_bytes (callingPresentationSelector self)) (sel_bytes (calledPresentationSelector self)) (acseContextId self)
      (chain_bytes payload)) (bc_buffer wb, 0);
    Some (finish_part wb payload s) }"
proof -
  let ?xs = "chain_bytes payload" and ?ctx = "acseContextId self"
  let ?calling = "callingPresentationSelector self" and ?called = "calledPresentationSelector self"
  let ?ud = "user_data ?ctx ?xs"
  let ?normal = "normal_cp (sel_bytes ?calling) (sel_bytes ?called) ?ud"
  have sel: "selector_ok 16 ?calling" "selector_ok 16 ?called" using ok by (simp_all add: pres_ok_def)
  then have small: "length (sel_bytes ?calling) \<le> 16" "length (sel_bytes ?called) \<le> 16"
    "int (length (sel_bytes ?calling)) = uint (sel_size ?calling)" "int (length (sel_bytes ?called)) = uint (sel_size ?called)"
    by (simp_all add: length_sel_bytes) (simp_all add: selector_ok_def)
  have ud: "encodeUserData_length payload = int (length ?ud)" "length ?ud \<le> 65018"
    using encodeUserData_lengths(3) [OF c, of ?ctx] length_user_data_le(1) [of ?ctx ?xs] chain_length [OF c(1)] c(2) by auto
  have normal: "12 + (27 + uint (sel_size ?calling) + uint (sel_size ?called)) + encodeUserData_length payload + 2 = int (length ?normal)"
      "length ?normal \<le> 65091"
    using small ud by (simp_all add: normal_cp_def fixed_parts tlv_short)
  have content: "5 + int (length ?normal) + (1 + BerEncoder_determineLengthSize (word_of_int (int (length ?normal)))) =
      int (length (mode_selector @ tlv 0xa2 ?normal))" "length (mode_selector @ tlv 0xa2 ?normal) \<le> 65101"
    using determineLengthSize_octets [of "int (length ?normal)" "0xa2"] normal(2) length_tlv_le [of ?normal "0xa2"]
    by (simp_all add: fixed_parts tlv_def)
  have tl: "BerEncoder_encodeTL 0xa2 (word_of_int (int (length ?normal))) = emit (tl_octets 0xa2 (int (length ?normal)))"
    "BerEncoder_encodeTL 0x31 (word_of_int (int (length (mode_selector @ tlv 0xa2 ?normal)))) =
      emit (tl_octets 0x31 (int (length (mode_selector @ tlv 0xa2 ?normal))))"
    using normal(2) content(2) by (intro encodeTL_tl_octets; simp)+
  have parts: "tlv 0x81 (sel_bytes ?calling) = tl_octets 0x81 (uint (sel_size ?calling)) @ sel_bytes ?calling"
    "tlv 0x82 (sel_bytes ?called) = tl_octets 0x82 (uint (sel_size ?called)) @ sel_bytes ?called"
    using small(3,4) by (simp_all add: tlv_def)
  show ?thesis unfolding createConnectPdu_def Let_def normal(1) content(1) tl cp_header_def parts
    by (simp add: encodeTL_small encodeTL_num copy_selector [OF sel(1)] copy_selector [OF sel(2)] encodeUserData_emits [OF c]
        emit_single emit_fuse_bind mode_selector_def context_list_def context_entries_def context_entry_def asn_id_as_acse_def asn_id_mms_def ber_id_def tlv_short del: emit.simps)
qed

lemma encodeAcceptBer_emits: "encodeAcceptBer = emit accept_ber"
  by (rule ext) (simp add: encodeAcceptBer_def accept_ber_def encodeTL_num emit_single emit_fuse emit_fuse_bind ber_id_def tlv_short
      del: emit.simps)

lemma createCpaMessage_emits:
  assumes c: "chain_wf payload" "bc_length payload \<le> 65000"
  shows "IsoPresentation_createCpaMessage self wb payload = do {
    s \<leftarrow> emit (cpa_header (acseContextId self) (chain_bytes payload)) (bc_buffer wb, 0); Some (finish_part wb payload s) }"
proof -
  let ?ud = "user_data (acseContextId self) (chain_bytes payload)"
  let ?normal = "normal_cpa ?ud"
  have ud: "encodeUserData_length payload = int (length ?ud)" "length ?ud \<le> 65018"
    using encodeUserData_lengths(3) [OF c, of "acseContextId self"] length_user_data_le(1) [of "acseContextId self" "chain_bytes payload"]
      chain_length [OF c(1)] c(2) by auto
  have normal: "6 + 20 + encodeUserData_length payload = int (length ?normal)" "length ?normal \<le> 65091"
    using ud by (simp_all add: normal_cpa_def fixed_parts tlv_short static_calledPresentationSelector_def)
  have content: "5 + int (length ?normal) + (BerEncoder_determineLengthSize (word_of_int (int (length ?normal))) + 1) =
      int (length (mode_selector @ tlv 0xa2 ?normal))" "length (mode_selector @ tlv 0xa2 ?normal) \<le> 65101"
    using determineLengthSize_octets [of "int (length ?normal)" "0xa2"] normal(2) length_tlv_le [of ?normal "0xa2"]
    by (simp_all add: fixed_parts tlv_def)
  have tl: "BerEncoder_encodeTL 0xa2 (word_of_int (int (length ?normal))) = emit (tl_octets 0xa2 (int (length ?normal)))"
    "BerEncoder_encodeTL 0x31 (word_of_int (int (length (mode_selector @ tlv 0xa2 ?normal)))) =
      emit (tl_octets 0x31 (int (length (mode_selector @ tlv 0xa2 ?normal))))"
    using normal(2) content(2) by (intro encodeTL_tl_octets; simp)+
  have parts: "tlv 0x83 static_calledPresentationSelector = [0x83, 4] @ static_calledPresentationSelector"
    "tlv 0xa5 (accept_ber @ accept_ber) = [0xa5, 18] @ accept_ber @ accept_ber"
    by (simp_all add: tlv_short static_calledPresentationSelector_def fixed_parts)
  show ?thesis unfolding IsoPresentation_createCpaMessage_def Let_def normal(1) content(1) tl cpa_header_def parts
    by (simp add: encodeTL_num encodeUserData_emits [OF c] encodeAcceptBer_emits emit_single emit_fuse_bind mode_selector_def tlv_short
        del: emit.simps)
qed

lemma create_user_data_emits:
  assumes c: "chain_wf payload" "bc_length payload \<le> 65000"
  shows "create_user_data ctx wb payload = do {
    s \<leftarrow> emit (user_data_header ctx (chain_bytes payload)) (bc_buffer wb, 0); Some (finish_part wb payload s) }"
proof -
  have set: "bc_length payload + (BerEncoder_determineLengthSize (word_of_int (bc_length payload)) + 4) = encodedDataSetLength payload"
    by (simp add: encodedDataSetLength_def)
  have "create_user_data ctx wb payload = do { s \<leftarrow> encodeUserData payload ctx (bc_buffer wb, 0); Some (finish_part wb payload s) }"
    unfolding create_user_data_def Let_def set fullyEncodedDataLength_def [symmetric] encodeUserData_def
    by (simp add: encodeTL_num emit_single emit_fuse_bind bind_assoc del: emit.simps)
  then show ?thesis using encodeUserData_emits [OF c] by simp
qed

section \<open>What the parsers read back\<close>

lemma parseFullyEncodedData_reads:
  assumes h: "holds buffer pos (tlv 0x30 (pdv ctx xs))" and n: "length xs \<le> 65000" "0 \<le> pos" "pos < 2 ^ 29"
    and e: "e = pos + int (length (tlv 0x30 (pdv ctx xs)))"
  shows "parseFullyEncodedData self buffer (e - pos) pos =
     Some (e, self\<lparr>nextContextId := ctx, nextPayload := (nextPayload self)\<lparr>bb_buffer := padd buffer (e - int (length xs)),
       bb_size := int (length xs)\<rparr>\<rparr>)"
proof -
  define p where "p = e - int (length (pdv ctx xs))"
  have l: "length (pdv ctx xs) \<le> 65008" "length (tlv 0x30 (pdv ctx xs)) \<le> 65013" "length xs + 5 \<le> length (pdv ctx xs)"
      "length (pdv ctx xs) + 2 \<le> length (tlv 0x30 (pdv ctx xs))"
    using n(1) length_tlv_le [of xs "0xa0"] length_tlv_le [of "pdv ctx xs" "0x30"] by (simp_all add: length_pdv)
  have d1: "rd buffer pos = Some 0x30" "decodeLength_or_fail buffer (pos + 1) e = Some (Some (p, e - p))"
    using decodeLength_tlv [OF h, of e] l n e by (auto simp: p_def)
  have hp: "holds buffer p (tlv 0x02 [ctx])" "holds buffer (p + 3) (tlv 0xa0 xs)"
    using decodeTL_tlv(2) [OF h, of e] l n e by (auto simp: pdv_def tlv_short p_def)
  have pos: "0 \<le> p" "e < 2 ^ 30" "p + 3 + int (length (tlv 0xa0 xs)) = e" "p + 3 < e" "p < e"
    using l n e length_tlv_le [of xs "0xa0"] by (auto simp: length_pdv p_def)
  have d2: "decodeTL buffer p e = Some (Some (0x02, p + 2, 1))" "BerDecoder_decodeUint32 buffer 1 (p + 2) = Some (ucast ctx)"
    using decodeTL_tlv(1) [OF hp(1), of e] hp(1) pos by (auto simp: tlv_short intro: decodeUint32_octet)
  have d3: "decodeTL buffer (p + 3) e = Some (Some (0xa0, e - int (length xs), int (length xs)))"
    using decodeTL_tlv(1) [OF hp(2), of e] pos n(1) by simp
  let ?s1 = "self\<lparr>nextContextId := ctx\<rparr>"
  let ?s2 = "?s1\<lparr>nextPayload := (nextPayload self)\<lparr>bb_buffer := padd buffer (e - int (length xs)), bb_size := int (length xs)\<rparr>\<rparr>"
  have "parseFullyEncodedData_loop self buffer e False p = parseFullyEncodedData_loop ?s1 buffer e False (p + 3)"
    using pos d2 by (subst parseFullyEncodedData_loop.simps) (simp add: octet_back)
  also have "\<dots> = parseFullyEncodedData_loop ?s2 buffer e True e"
    using pos d3 by (subst parseFullyEncodedData_loop.simps) simp
  also have "\<dots> = Some (e, ?s2)" by (subst parseFullyEncodedData_loop.simps) simp
  finally show ?thesis using d1 by (simp add: parseFullyEncodedData_def)
qed

lemma length_context_entry: "length oid < 128 \<Longrightarrow> length (context_entry c oid) = 11 + length oid"
  by (simp add: context_entry_def tlv_short ber_id_def)

lemma context_entry_reads:
  assumes h: "holds buffer p (context_entry c oid)" and oid: "oid = asn_id_mms \<or> oid = asn_id_as_acse"
    and p: "0 \<le> p" "p < 2 ^ 29" and e: "e = p + int (length (context_entry c oid))"
  shows "parsePCDLEntry self buffer (e - p) p =
    Some (e, if oid = asn_id_mms then self\<lparr>mmsContextId := c\<rparr> else self\<lparr>acseContextId := c\<rparr>)"
proof -
  have l: "length oid = 4 \<or> length oid = 5" using oid by (auto simp: asn_id_mms_def asn_id_as_acse_def)
  define q where "q = p + 5 + int (length oid)"
  have e': "e = q + 6" "q + 6 < 2 ^ 30" "p + 5 \<le> q" "0 \<le> q" using l p by (auto simp: e length_context_entry q_def)
  have hp: "holds buffer p (tlv 0x02 [c])" "holds buffer (p + 3) (tlv 0x06 oid)" "holds buffer q (tlv 0x30 (tlv 0x06 ber_id))"
    using h l by (auto simp: context_entry_def tlv_short q_def add.assoc)
  have d1: "decodeTL buffer p e = Some (Some (0x02, p + 2, 1))" "BerDecoder_decodeUint32 buffer 1 (p + 2) = Some (ucast c)"
    using decodeTL_tlv(1) [OF hp(1), of e] hp(1) e' p by (auto simp: tlv_short intro: decodeUint32_octet)
  have d2: "decodeTL buffer (p + 3) e = Some (Some (0x06, p + 5, int (length oid)))"
    using decodeTL_tlv(1) [OF hp(2), of e] l e' p by (auto simp: tlv_short q_def)
  have oid_read: "rdn buffer (p + 5) (length oid) = Some oid"
    using hp(2) l by (auto simp: tlv_short holds_def [symmetric])
  have d3: "decodeTL buffer q e = Some (Some (0x30, q + 2, 4))"
    using decodeTL_tlv(1) [OF hp(3), of e] e' by (simp add: tlv_short ber_id_def)
  have "parsePCDLEntry_loop buffer e (-1) False False p = parsePCDLEntry_loop buffer e (sint (ucast c :: 32 word)) False False (p + 3)"
    using d1 e' by (subst parsePCDLEntry_loop.simps) simp
  also have "\<dots> = parsePCDLEntry_loop buffer e (uint c) (oid = asn_id_as_acse) (oid = asn_id_mms) q"
  proof -
    have "uint (ucast c :: 32 word) = uint c" using uint32_of_int [of "uint c"] byte_bound [of c] by simp
    moreover have "- (2 ^ 31) \<le> uint c" by (rule order_trans [of _ 0]) simp_all
    moreover have "uint c < 2 ^ 31" using byte_bound [of c] by simp
    ultimately have "sint (ucast c :: 32 word) = uint c" using signed_take_bit_int_eq_self [of 31 "uint c"] by (simp add: sint_uint)
    moreover have "p + 3 < e" using e' by simp
    moreover have "oid = asn_id_mms \<and> oid \<noteq> asn_id_as_acse \<and> length oid = 5 \<or> oid = asn_id_as_acse \<and> oid \<noteq> asn_id_mms \<and> length oid = 4"
      using oid by (auto simp: asn_id_mms_def asn_id_as_acse_def)
    ultimately show ?thesis using d2 oid_read
      by (elim disjE conjE) (subst parsePCDLEntry_loop.simps, simp add: q_def)+
  qed
  also have "\<dots> = Some (Some (e, uint c, oid = asn_id_as_acse, oid = asn_id_mms))"
    using d3 e' by (subst parsePCDLEntry_loop.simps, simp, subst parsePCDLEntry_loop.simps, simp)
  finally show ?thesis using oid by (auto simp: parsePCDLEntry_def)
qed

lemma context_list_reads:
  assumes h: "holds buffer pos context_list" and p: "0 \<le> pos" "pos < 2 ^ 28"
  shows "parsePresentationContextDefinitionList self buffer 35 (pos + 2) = Some (pos + 37, self\<lparr>acseContextId := 1, mmsContextId := 3\<rparr>)"
proof -
  let ?a = "context_entry 1 asn_id_as_acse" and ?m = "context_entry 3 asn_id_mms"
  have l: "length ?a = 15" "length ?m = 16" by (simp_all add: length_context_entry asn_id_mms_def asn_id_as_acse_def)
  have hp: "holds buffer (pos + 2) (tlv 0x30 ?a)" "holds buffer (pos + 19) (tlv 0x30 ?m)"
    using h l by (auto simp: context_list_def context_entries_def tlv_short)
  have d1: "decodeTL buffer (pos + 2) (pos + 37) = Some (Some (0x30, pos + 4, 15))"
    "decodeTL buffer (pos + 19) (pos + 37) = Some (Some (0x30, pos + 21, 16))"
    using decodeTL_tlv(1) [OF hp(1), of "pos + 37"] decodeTL_tlv(1) [OF hp(2), of "pos + 37"] p l by (simp_all add: tlv_short)
  have "holds buffer (pos + 4) ?a" "holds buffer (pos + 21) ?m" using hp l by (simp_all add: tlv_short)
  then have d2: "parsePCDLEntry s buffer 15 (pos + 4) = Some (pos + 19, s\<lparr>acseContextId := 1\<rparr>)"
    "parsePCDLEntry s buffer 16 (pos + 21) = Some (pos + 37, s\<lparr>mmsContextId := 3\<rparr>)" for s
    using context_entry_reads [of buffer "pos + 4" 1 asn_id_as_acse "pos + 19" s]
      context_entry_reads [of buffer "pos + 21" 3 asn_id_mms "pos + 37" s] p l
    by (simp_all add: asn_id_mms_def asn_id_as_acse_def)
  show ?thesis unfolding parsePresentationContextDefinitionList_def
    using d1 d2 p by (simp, subst parsePCDL_loop.simps, simp, subst parsePCDL_loop.simps, simp, subst parsePCDL_loop.simps, simp)
qed

text \<open>A selector as it is after a message with the octets \<open>xs\<close> for it.\<close>

definition received_selector :: "byte list \<Rightarrow> PSelector \<Rightarrow> PSelector" where
  "received_selector xs old = \<lparr>sel_size = word_of_int (int (length xs)), sel_value = xs @ drop (length xs) (sel_value old)\<rparr>"

lemma received_selector_bytes:
  assumes "length xs \<le> 16" and "selector_ok 16 old"
  shows "sel_bytes (received_selector xs old) = xs" "selector_ok 16 (received_selector xs old)"
proof -
  have "unat (word_of_int (int (length xs)) :: byte) = length xs" using assms(1) by (simp add: unat_of_nat)
  then show "sel_bytes (received_selector xs old) = xs" "selector_ok 16 (received_selector xs old)"
    using assms by (simp_all add: received_selector_def sel_bytes_def selector_ok_def del: of_int_of_nat_eq)
qed

lemma parse_selector_reads:
  assumes "holds buffer p xs" and "length xs \<le> 16" and "length (sel_value old) = 16"
  shows "parse_selector old buffer (int (length xs)) p = Some (received_selector xs old)"
  using read_octets_ok [of buffer p xs "sel_value old"] assms by (simp add: parse_selector_def received_selector_def holds_def)

lemma normal_step:
  assumes h: "holds buffer p (tlv tag xs)" and b: "0 \<le> p" "e < 2 ^ 28" "length xs < 2 ^ 24" "p + int (length (tlv tag xs)) \<le> e"
    and q: "q = p + int (length (tlv tag xs))"
  shows normal_calling: "tag = 0x81 \<Longrightarrow> length xs \<le> 16 \<Longrightarrow> length (sel_value (callingPresentationSelector self)) = 16 \<Longrightarrow>
      parseNormalModeParameters_loop self buffer e u p = parseNormalModeParameters_loop
        (self\<lparr>callingPresentationSelector := received_selector xs (callingPresentationSelector self)\<rparr>) buffer e u q"
    and normal_called: "tag = 0x82 \<Longrightarrow> length xs \<le> 16 \<Longrightarrow> length (sel_value (calledPresentationSelector self)) = 16 \<Longrightarrow>
      parseNormalModeParameters_loop self buffer e u p = parseNormalModeParameters_loop
        (self\<lparr>calledPresentationSelector := received_selector xs (calledPresentationSelector self)\<rparr>) buffer e u q"
    and normal_skip: "tag \<notin> {0x81, 0x82, 0xa4, 0x61, 0x00} \<Longrightarrow>
      parseNormalModeParameters_loop self buffer e u p = parseNormalModeParameters_loop self buffer e u q"
    and normal_contexts: "tag = 0xa4 \<Longrightarrow> xs = context_entries \<Longrightarrow>
      parseNormalModeParameters_loop self buffer e u p = parseNormalModeParameters_loop
        (self\<lparr>acseContextId := 1, mmsContextId := 3\<rparr>) buffer e u q"
    and normal_user_data: "tag = 0x61 \<Longrightarrow> xs = tlv 0x30 (pdv ctx ys) \<Longrightarrow> length ys \<le> 65000 \<Longrightarrow> ys \<noteq> [] \<Longrightarrow>
      parseNormalModeParameters_loop self buffer e u p = parseNormalModeParameters_loop
        (self\<lparr>nextContextId := ctx, nextPayload := (nextPayload self)\<lparr>bb_buffer := padd buffer (q - int (length ys)),
          bb_size := int (length ys)\<rparr>\<rparr>) buffer e True q"
proof -
  let ?b = "q - int (length xs)"
  have l: "p + 2 \<le> ?b" "p < e" "p + 1 \<noteq> e" "q \<le> e" using length_tlv_le [of xs tag] b q by auto
  have d: "rd buffer p = Some tag" "decodeLength_or_fail buffer (p + 1) e = Some (Some (?b, int (length xs)))" "holds buffer ?b xs"
    using decodeLength_tlv [OF h b(3,1) _ b(4)] decodeTL_tlv(2) [OF h b(3,1) _ b(4)] b(2) q by auto
  note step = parseNormalModeParameters_loop.simps [of self buffer e u p]
  show "parseNormalModeParameters_loop self buffer e u p = parseNormalModeParameters_loop
        (self\<lparr>callingPresentationSelector := received_selector xs (callingPresentationSelector self)\<rparr>) buffer e u q"
    if "tag = 0x81" "length xs \<le> 16" "length (sel_value (callingPresentationSelector self)) = 16"
    using that d l parse_selector_reads [OF d(3), of "callingPresentationSelector self"] by (subst step) simp
  show "parseNormalModeParameters_loop self buffer e u p = parseNormalModeParameters_loop
        (self\<lparr>calledPresentationSelector := received_selector xs (calledPresentationSelector self)\<rparr>) buffer e u q"
    if "tag = 0x82" "length xs \<le> 16" "length (sel_value (calledPresentationSelector self)) = 16"
    using that d l parse_selector_reads [OF d(3), of "calledPresentationSelector self"] by (subst step) simp
  show "parseNormalModeParameters_loop self buffer e u p = parseNormalModeParameters_loop self buffer e u q"
    if "tag \<notin> {0x81, 0x82, 0xa4, 0x61, 0x00}"
    using that d l by (subst step) simp
  show "parseNormalModeParameters_loop self buffer e u p = parseNormalModeParameters_loop
        (self\<lparr>acseContextId := 1, mmsContextId := 3\<rparr>) buffer e u q" if t: "tag = 0xa4" "xs = context_entries"
    using t d l b q context_list_reads [of buffer p self] h
    by (subst step) (simp add: fixed_parts add.commute [of p 2] flip: context_list_def)
  show "parseNormalModeParameters_loop self buffer e u p = parseNormalModeParameters_loop
        (self\<lparr>nextContextId := ctx, nextPayload := (nextPayload self)\<lparr>bb_buffer := padd buffer (q - int (length ys)),
          bb_size := int (length ys)\<rparr>\<rparr>) buffer e True q"
    if t: "tag = 0x61" "xs = tlv 0x30 (pdv ctx ys)" "length ys \<le> 65000" "ys \<noteq> []"
    using t d l b parseFullyEncodedData_reads [of buffer ?b ctx ys q self] by (subst step) simp
qed

text \<open>The state after the normal mode parameters of a connect message, and of an accept message.\<close>

definition payload_at :: "ptr \<Rightarrow> int \<Rightarrow> byte list \<Rightarrow> byte \<Rightarrow> IsoPresentation \<Rightarrow> IsoPresentation" where
  "payload_at buffer e xs ctx self = self\<lparr>nextContextId := ctx,
     nextPayload := (nextPayload self)\<lparr>bb_buffer := padd buffer (e - int (length xs)), bb_size := int (length xs)\<rparr>\<rparr>"

definition clear_selectors :: "IsoPresentation \<Rightarrow> IsoPresentation" where
  "clear_selectors self = self\<lparr>calledPresentationSelector := (calledPresentationSelector self)\<lparr>sel_size := 0\<rparr>,
     callingPresentationSelector := (callingPresentationSelector self)\<lparr>sel_size := 0\<rparr>\<rparr>"

lemma normal_cp_reads:
  assumes h: "holds buffer p (normal_cp calling called (user_data ctx xs))" and e: "e = p + int (length (normal_cp calling called (user_data ctx xs)))"
    and b: "0 \<le> p" "p < 2 ^ 27" and s: "length calling \<le> 16" "length called \<le> 16" "pres_ok self" and xs: "xs \<noteq> []" "length xs \<le> 65000"
  shows "parseNormalModeParameters self buffer (e - p) p = Some (e, payload_at buffer e xs ctx ((clear_selectors self)\<lparr>
    callingPresentationSelector := received_selector calling (callingPresentationSelector (clear_selectors self)),
    calledPresentationSelector := received_selector called (calledPresentationSelector (clear_selectors self)),
    acseContextId := 1, mmsContextId := 3\<rparr>))"
proof -
  define q1 where "q1 = p + int (length (tlv 0x81 calling))"
  define q2 where "q2 = q1 + int (length (tlv 0x82 called))"
  define q3 where "q3 = q2 + int (length (tlv 0xa4 context_entries))"
  have ud: "e = q3 + int (length (user_data ctx xs))" "length (user_data ctx xs) \<le> 65018"
    using e length_user_data_le(1) [of ctx xs] xs(2) by (auto simp: normal_cp_def context_list_def q1_def q2_def q3_def)
  have q: "p \<le> q1" "q1 \<le> q2" "q2 \<le> q3" "q3 \<le> e" "e < 2 ^ 28"
    using ud length_tlv_le [of calling "0x81"] length_tlv_le [of called "0x82"] length_tlv_le [of context_entries "0xa4"] s b
    by (auto simp: q1_def q2_def q3_def fixed_parts)
  have hs: "holds buffer p (tlv 0x81 calling)" "holds buffer q1 (tlv 0x82 called)" "holds buffer q2 (tlv 0xa4 context_entries)"
    "holds buffer q3 (tlv 0x61 (tlv 0x30 (pdv ctx xs)))"
    using h by (simp_all add: normal_cp_def context_list_def user_data_def q1_def q2_def q3_def add.assoc)
  have ok: "length (sel_value (callingPresentationSelector self)) = 16" "length (sel_value (calledPresentationSelector self)) = 16"
    using s(3) by (simp_all add: pres_ok_def selector_ok_def)
  have l: "length calling < 2 ^ 24" "length called < 2 ^ 24" "length context_entries < 2 ^ 24" "length (tlv 0x30 (pdv ctx xs)) < 2 ^ 24"
    using s ud(2) length_tlv_le [of "tlv 0x30 (pdv ctx xs)" "0x61"] by (auto simp: fixed_parts user_data_def)
  have pos: "0 \<le> q1" "0 \<le> q2" "0 \<le> q3" using q b by auto
  have le: "p + int (length (tlv 0x81 calling)) \<le> e" "q1 + int (length (tlv 0x82 called)) \<le> e"
    "q2 + int (length (tlv 0xa4 context_entries)) \<le> e" "q3 + int (length (tlv 0x61 (tlv 0x30 (pdv ctx xs)))) \<le> e"
    using q ud(1) by (simp_all add: q1_def q2_def q3_def user_data_def)
  note steps = normal_calling [OF hs(1) b(1) q(5) l(1) le(1) q1_def refl s(1)] normal_called [OF hs(2) pos(1) q(5) l(2) le(2) q2_def refl s(2)]
    normal_contexts [OF hs(3) pos(2) q(5) l(3) le(3) q3_def refl refl]
    normal_user_data [OF hs(4) pos(3) q(5) l(4) le(4) ud(1) [unfolded user_data_def] refl refl xs(2,1)]
  have fin: "parseNormalModeParameters_loop s2 buffer e True e = Some (e, s2)" for s2
    by (subst parseNormalModeParameters_loop.simps) simp
  show ?thesis using ok
    by (simp add: parseNormalModeParameters_def clear_selectors_def payload_at_def Let_def steps fin)
qed

lemma normal_cpa_reads:
  assumes h: "holds buffer p (normal_cpa (user_data ctx xs))" and e: "e = p + int (length (normal_cpa (user_data ctx xs)))"
    and b: "0 \<le> p" "p < 2 ^ 27" and xs: "xs \<noteq> []" "length xs \<le> 65000"
  shows "parseNormalModeParameters self buffer (e - p) p = Some (e, payload_at buffer e xs ctx (clear_selectors self))"
proof -
  define q1 where "q1 = p + int (length (tlv 0x83 static_calledPresentationSelector))"
  define q2 where "q2 = q1 + int (length (tlv 0xa5 (accept_ber @ accept_ber)))"
  have ud: "e = q2 + int (length (user_data ctx xs))" "length (user_data ctx xs) \<le> 65018"
    using e length_user_data_le(1) [of ctx xs] xs(2) by (auto simp: normal_cpa_def q1_def q2_def)
  have q: "p \<le> q1" "q1 \<le> q2" "q2 \<le> e" "e < 2 ^ 28"
    using ud b by (auto simp: q1_def q2_def fixed_parts tlv_short static_calledPresentationSelector_def)
  have hs: "holds buffer p (tlv 0x83 static_calledPresentationSelector)" "holds buffer q1 (tlv 0xa5 (accept_ber @ accept_ber))"
    "holds buffer q2 (tlv 0x61 (tlv 0x30 (pdv ctx xs)))"
    using h by (simp_all add: normal_cpa_def user_data_def q1_def q2_def add.assoc)
  have l: "length static_calledPresentationSelector < 2 ^ 24" "length (accept_ber @ accept_ber) < 2 ^ 24" "length (tlv 0x30 (pdv ctx xs)) < 2 ^ 24"
    using ud(2) length_tlv_le [of "tlv 0x30 (pdv ctx xs)" "0x61"] by (auto simp: fixed_parts user_data_def static_calledPresentationSelector_def)
  have pos: "0 \<le> q1" "0 \<le> q2" using q b by auto
  have le: "p + int (length (tlv 0x83 static_calledPresentationSelector)) \<le> e" "q1 + int (length (tlv 0xa5 (accept_ber @ accept_ber))) \<le> e"
    "q2 + int (length (tlv 0x61 (tlv 0x30 (pdv ctx xs)))) \<le> e"
    using q ud(1) by (simp_all add: q1_def q2_def user_data_def)
  note steps = normal_skip [OF hs(1) b(1) q(4) l(1) le(1) q1_def] normal_skip [OF hs(2) pos(1) q(4) l(2) le(2) q2_def]
    normal_user_data [OF hs(3) pos(2) q(4) l(3) le(3) ud(1) [unfolded user_data_def] refl refl xs(2,1)]
  have fin: "parseNormalModeParameters_loop s2 buffer e True e = Some (e, s2)" for s2
    by (subst parseNormalModeParameters_loop.simps) simp
  show ?thesis
    by (simp add: parseNormalModeParameters_def clear_selectors_def payload_at_def Let_def steps fin)
qed

lemma cp_type_reads:
  assumes m: "bb_wf m" "bb_bytes m = cp_type normal" and n: "length normal \<le> 65100"
    and e: "e = bb_size m" and r: "parseNormalModeParameters self (bb_buffer m) (int (length normal)) (e - int (length normal)) = Some (e, self')"
  shows "IsoPresentation_parseConnect self m = Some (1, self')" and "IsoPresentation_parseAcceptMessage self m = Some (1, self')"
proof -
  let ?buffer = "bb_buffer m" and ?body = "mode_selector @ tlv 0xa2 normal"
  define p where "p = e - int (length ?body)"
  have l: "length (tlv 0xa2 normal) \<le> length normal + 5" "length normal + 2 \<le> length (tlv 0xa2 normal)"
    using length_tlv_le [of normal "0xa2"] by auto
  have sz: "e = int (length (tlv 0x31 ?body))" using bb_bytes_length [OF m(1)] m(2) e by (simp add: cp_type_def)
  have h: "holds ?buffer 0 (tlv 0x31 ?body)" using holds_bb_bytes [OF m] by (simp add: cp_type_def)
  have bounds: "e < 2 ^ 28" "length ?body < 2 ^ 24" "2 \<le> p" "p + 5 + int (length (tlv 0xa2 normal)) = e" "p < e" "p + 5 < e"
    using sz n l length_tlv_le [of ?body "0x31"] by (auto simp: fixed_parts p_def)
  have d1: "rd ?buffer 0 = Some 0x31" "decodeLength_or_fail ?buffer 1 e = Some (Some (p, int (length ?body)))" "holds ?buffer p ?body"
    using decodeLength_tlv [OF h bounds(2), of e] decodeTL_tlv(2) [OF h bounds(2), of e] bounds(1) sz by (auto simp: p_def)
  have hb: "holds ?buffer p (tlv 0xa0 (tlv 0x80 [1]))" "holds ?buffer (p + 2) (tlv 0x80 [1])" "holds ?buffer (p + 5) (tlv 0xa2 normal)"
    using d1(3) by (simp_all add: mode_selector_def tlv_short)
  have d2: "decodeTL ?buffer p e = Some (Some (0xa0, p + 2, 3))"
    using decodeTL_tlv(1) [OF hb(1), of e] bounds by (simp add: tlv_short)
  have d3: "rd ?buffer (p + 2) = Some 0x80" "decodeLength_or_fail ?buffer (p + 3) e = Some (Some (p + 4, 1))"
      "BerDecoder_decodeUint32 ?buffer 1 (p + 4) = Some 1"
    using decodeLength_tlv [OF hb(2), of e] hb(2) bounds decodeUint32_octet [of ?buffer "p + 4" 1] by (auto simp: tlv_short)
  have d4: "decodeTL ?buffer (p + 5) e = Some (Some (0xa2, e - int (length normal), int (length normal)))"
    using decodeTL_tlv(1) [OF hb(3), of e] bounds n by simp
  have "0 \<le> e" using sz by simp
  have "parseConnect_loop self ?buffer e False p = parseConnect_loop self ?buffer e False (p + 5)"
    using d2 d3 bounds by (subst parseConnect_loop.simps) simp
  also have "\<dots> = parseConnect_loop self' ?buffer e True e"
    using d4 r bounds \<open>0 \<le> e\<close> by (subst parseConnect_loop.simps) simp
  also have "\<dots> = Some (1, self')" by (subst parseConnect_loop.simps) simp
  finally show "IsoPresentation_parseConnect self m = Some (1, self')"
    using d1 e by (simp add: IsoPresentation_parseConnect_def)
  have "parseAcceptMessage_loop self ?buffer e p = parseAcceptMessage_loop self ?buffer e (p + 5)"
    using d2 bounds by (subst parseAcceptMessage_loop.simps) simp
  also have "\<dots> = parseAcceptMessage_loop self' ?buffer e e"
    using d4 r bounds \<open>0 \<le> e\<close> by (subst parseAcceptMessage_loop.simps) simp
  also have "\<dots> = Some (1, self')" by (subst parseAcceptMessage_loop.simps) simp
  finally show "IsoPresentation_parseAcceptMessage self m = Some (1, self')"
    using d1 e by (simp add: IsoPresentation_parseAcceptMessage_def)
qed

lemma user_data_reads:
  assumes api: "bytebuffer_ok api" and m: "bb_wf m" "bb_bytes m = user_data ctx xs" and xs: "length xs \<le> 65000"
  shows "\<exists>b. IsoPresentation_parseUserData api self m = Some (1, self\<lparr>nextContextId := ctx, nextPayload := b\<rparr>) \<and> bb_wf b \<and> bb_bytes b = xs"
proof -
  let ?buffer = "bb_buffer m"
  define e where "e = bb_size m"
  have sz: "e = int (length (user_data ctx xs))" using bb_bytes_length [OF m(1)] m(2) by (simp add: e_def)
  have l: "length (user_data ctx xs) \<le> 65018" "length xs + 9 \<le> length (user_data ctx xs)"
    using length_user_data_le(1) [of ctx xs] length_user_data_le(2) [of xs ctx] xs by auto
  define p where "p = e - int (length (tlv 0x30 (pdv ctx xs)))"
  define q where "q = e - int (length (pdv ctx xs))"
  have le: "length (tlv 0x30 (pdv ctx xs)) \<le> 65013" "length (pdv ctx xs) \<le> 65008" "length (tlv 0xa0 xs) \<le> 65005"
    "2 \<le> p" "p + 2 \<le> q" "q + 3 + int (length (tlv 0xa0 xs)) = e" "q < e" "q + 3 < e" "e < 2 ^ 28" "0 \<le> q" "9 \<le> e"
    using l sz length_tlv_le [of xs "0xa0"] length_tlv_le [of "pdv ctx xs" "0x30"] length_tlv_le [of "tlv 0x30 (pdv ctx xs)" "0x61"] xs
    by (auto simp: p_def q_def user_data_def length_pdv)
  have h1: "holds ?buffer 0 (tlv 0x61 (tlv 0x30 (pdv ctx xs)))" using holds_bb_bytes [OF m] by (simp add: user_data_def)
  have h2: "holds ?buffer p (tlv 0x30 (pdv ctx xs))" "rd ?buffer 0 = Some 0x61" "\<exists>n. decodeLength_or_fail ?buffer 1 e = Some (Some (p, n))"
    using decodeTL_tlv(2) [OF h1, of e] decodeLength_tlv [OF h1, of e] le sz by (auto simp: user_data_def p_def)
  have h3: "holds ?buffer q (pdv ctx xs)" "rd ?buffer p = Some 0x30" "\<exists>n. decodeLength_or_fail ?buffer (p + 1) e = Some (Some (q, n))"
    using decodeTL_tlv(2) [OF h2(1), of e] decodeLength_tlv [OF h2(1), of e] le by (auto simp: p_def q_def)
  have h4: "holds ?buffer q (tlv 0x02 [ctx])" "holds ?buffer (q + 3) (tlv 0xa0 xs)" using h3(1) by (auto simp: pdv_def tlv_short)
  have d4: "rd ?buffer q = Some 2" "rd ?buffer (q + 1) = Some 1" "rd ?buffer (q + 2) = Some ctx"
      "decodeLength_or_fail ?buffer (q + 1) e = Some (Some (q + 2, 1))"
    using h4(1) decodeLength_tlv [OF h4(1), of e] le by (auto simp: tlv_short)
  have d5: "rd ?buffer (q + 3) = Some 0xa0" "decodeLength_or_fail ?buffer (q + 4) e = Some (Some (e - int (length xs), int (length xs)))"
      "holds ?buffer (e - int (length xs)) xs"
    using decodeLength_tlv [OF h4(2), of e] decodeTL_tlv(2) [OF h4(2), of e] le xs by auto
  obtain l0 where l0: "rd ?buffer (q + 4) = Some l0" "l0 \<noteq> 0x80"
    using h4(2) definite_length [of "int (length xs)"] by (auto simp: tlv_def tl_octets_def)
  let ?b = "\<lparr>bb_buffer = padd ?buffer (e - int (length xs)), bb_size = int (length xs), bb_maxSize = int (length xs)\<rparr>"
  have "parseUserData_loop api self ?buffer e False q = parseUserData_loop api (self\<lparr>nextContextId := ctx\<rparr>) ?buffer e True (q + 3)"
    using d4 le by (subst parseUserData_loop.simps) simp
  also have "\<dots> = Some (1, self\<lparr>nextContextId := ctx, nextPayload := ?b\<rparr>)"
    using d5 l0 le by (subst parseUserData_loop.simps) (simp add: bytebuffer_simps [OF api] Let_def)
  finally have "IsoPresentation_parseUserData api self m = Some (1, self\<lparr>nextContextId := ctx, nextPayload := ?b\<rparr>)"
    using h2 h3 le by (auto simp: IsoPresentation_parseUserData_def e_def [symmetric])
  moreover have "bb_wf ?b" using m(1) le l sz by (auto simp: bb_wf_def valid_range_def e_def)
  moreover have "bb_bytes ?b = xs" using holds_octets_at [OF d5(3)] by (simp add: bb_bytes_def)
  ultimately show ?thesis by blast
qed

section \<open>Properties: round trips\<close>

text \<open>The payload of a received message, as the layer above sees it.\<close>

lemma payload_inside_message:
  assumes "bb_wf m" and "bb_bytes m = h @ xs" and "e = bb_size m"
  shows "bb_bytes (nextPayload (payload_at (bb_buffer m) e xs ctx self)) = xs"
    and "valid_range (bb_buffer (nextPayload (payload_at (bb_buffer m) e xs ctx self))) 0 (int (length xs))"
proof -
  have sz: "e = int (length h) + int (length xs)" using bb_bytes_length [OF assms(1)] assms(2,3) by simp
  have "holds (bb_buffer m) (e - int (length xs)) xs" using holds_bb_bytes [OF assms(1,2)] sz by simp
  from holds_octets_at [OF this] show "bb_bytes (nextPayload (payload_at (bb_buffer m) e xs ctx self)) = xs"
    by (simp add: payload_at_def bb_bytes_def)
  show "valid_range (bb_buffer (nextPayload (payload_at (bb_buffer m) e xs ctx self))) 0 (int (length xs))"
    using bb_wf_range [OF assms(1)] assms(3) sz by (auto simp: payload_at_def valid_range_def)
qed

lemma header_lengths:
  "length (user_data_header ctx xs) \<le> 18"
  "length calling \<le> 16 \<Longrightarrow> length called \<le> 16 \<Longrightarrow> length (cp_header calling called ctx xs) \<le> 120"
  "length (cpa_header ctx xs) \<le> 120"
proof -
  show ud: "length (user_data_header ctx xs) \<le> 18"
    using length_user_data_le(1) [of ctx xs] by (simp add: user_data_split)
  note tl = length_tl_octets_le(1)
  show "length (cp_header calling called ctx xs) \<le> 120" if "length calling \<le> 16" "length called \<le> 16"
    using ud that tl [of "0x31" "int (length (mode_selector @ tlv 0xa2 (normal_cp calling called (user_data ctx xs))))"]
      tl [of "0xa2" "int (length (normal_cp calling called (user_data ctx xs)))"]
    by (simp add: cp_header_def Let_def fixed_parts tlv_short)
  show "length (cpa_header ctx xs) \<le> 120"
    using ud tl [of "0x31" "int (length (mode_selector @ tlv 0xa2 (normal_cpa (user_data ctx xs))))"]
      tl [of "0xa2" "int (length (normal_cpa (user_data ctx xs)))"]
    by (simp add: cpa_header_def Let_def fixed_parts tlv_short static_calledPresentationSelector_def)
qed

lemma createConnectPdu_run:
  assumes "pres_ok self" and c: "chain_wf payload" "0 < bc_partLength payload" "bc_length payload \<le> 65000"
    and v: "valid_range (bc_buffer wb) 0 120"
  shows "\<exists>chain. createConnectPdu self wb payload = Some chain \<and> chain_wf chain \<and>
    0 < bc_partLength chain \<and> bc_partLength chain \<le> 120 \<and> chain_bytes chain = cp_type (normal_cp
    (sel_bytes (callingPresentationSelector self)) (sel_bytes (calledPresentationSelector self))
    (user_data (acseContextId self) (chain_bytes payload)))"
proof -
  let ?h = "cp_header (sel_bytes (callingPresentationSelector self)) (sel_bytes (calledPresentationSelector self)) (acseContextId self)
    (chain_bytes payload)"
  have l: "length ?h \<le> 120"
    using assms(1) by (intro header_lengths) (simp_all add: pres_ok_def sel_bytes_def selector_ok_def min_def)
  have "0 < length ?h" by (simp add: cp_header_def Let_def fixed_parts del: length_greater_0_conv)
  moreover have "valid_range (bc_buffer wb) 0 (int (length ?h))" using v l by (auto simp: valid_range_def)
  ultimately show ?thesis using finish_part_run [OF c(1,2), of wb ?h] l
    unfolding createConnectPdu_emits [OF c(1,3) assms(1)] cp_header by auto
qed

lemma createCpaMessage_run:
  assumes c: "chain_wf payload" "0 < bc_partLength payload" "bc_length payload \<le> 65000" and v: "valid_range (bc_buffer wb) 0 120"
  shows "\<exists>chain. IsoPresentation_createCpaMessage self wb payload = Some chain \<and> chain_wf chain \<and>
    0 < bc_partLength chain \<and> bc_partLength chain \<le> 120 \<and> chain_bytes chain = cp_type (normal_cpa (user_data (acseContextId self) (chain_bytes payload)))"
proof -
  let ?h = "cpa_header (acseContextId self) (chain_bytes payload)"
  have "valid_range (bc_buffer wb) 0 (int (length ?h))" using v header_lengths(3) [of "acseContextId self" "chain_bytes payload"]
    by (auto simp: valid_range_def)
  moreover have "0 < length ?h" by (simp add: cpa_header_def Let_def fixed_parts del: length_greater_0_conv)
  ultimately show ?thesis using finish_part_run [OF c(1,2), of wb ?h] header_lengths(3) [of "acseContextId self" "chain_bytes payload"]
    unfolding createCpaMessage_emits [OF c(1,3)] cpa_header by auto
qed

lemma create_user_data_run:
  assumes c: "chain_wf payload" "0 < bc_partLength payload" "bc_length payload \<le> 65000" and v: "valid_range (bc_buffer wb) 0 18"
  shows "\<exists>chain. create_user_data ctx wb payload = Some chain \<and> chain_wf chain \<and> 0 < bc_partLength chain \<and>
    bc_partLength chain \<le> 18 \<and> chain_bytes chain = user_data ctx (chain_bytes payload)"
proof -
  let ?h = "user_data_header ctx (chain_bytes payload)"
  have "valid_range (bc_buffer wb) 0 (int (length ?h))" using v header_lengths(1) [of ctx "chain_bytes payload"]
    by (auto simp: valid_range_def)
  from finish_part_run [OF c(1,2) this] header_lengths(1) [of ctx "chain_bytes payload"] show ?thesis
    unfolding create_user_data_emits [OF c(1,3)] user_data_split by (auto simp: user_data_header_def tl_octets_def)
qed

lemma connect_message_read:
  assumes "bb_wf m" and "bb_bytes m = cp_type (normal_cp calling called (user_data 1 xs))" and "pres_ok peer"
    and "xs \<noteq> []" and "length xs \<le> 65000" and sel: "length calling \<le> 16" "length called \<le> 16"
  shows "\<exists>peer'. IsoPresentation_parseConnect peer m = Some (1, peer') \<and> pres_ok peer' \<and>
    sel_bytes (callingPresentationSelector peer') = calling \<and> sel_bytes (calledPresentationSelector peer') = called \<and>
    acseContextId peer' = 1 \<and> mmsContextId peer' = 3 \<and> nextContextId peer' = 1 \<and>
    bb_size (nextPayload peer') = int (length xs) \<and> bb_bytes (nextPayload peer') = xs \<and>
    valid_range (bb_buffer (nextPayload peer')) 0 (int (length xs))"
proof -
  let ?normal = "normal_cp calling called (user_data 1 xs)" and ?e = "bb_size m"
  have n: "length ?normal \<le> 65100" using sel length_user_data_le(1) [of 1 xs] assms(5) by (simp add: normal_cp_def fixed_parts tlv_short)
  have e: "?e = int (length (cp_type ?normal))" using bb_bytes_length [OF assms(1)] assms(2) by simp
  have body: "holds (bb_buffer m) (?e - int (length ?normal)) ?normal" "0 \<le> ?e - int (length ?normal)"
    using holds_bb_bytes [OF assms(1,2)] e by (auto simp: cp_type_def tlv_def algebra_simps)
  define peer1 where "peer1 = (clear_selectors peer)\<lparr>
    callingPresentationSelector := received_selector calling (callingPresentationSelector (clear_selectors peer)),
    calledPresentationSelector := received_selector called (calledPresentationSelector (clear_selectors peer)),
    acseContextId := 1, mmsContextId := 3\<rparr>"
  have "parseNormalModeParameters peer (bb_buffer m) (int (length ?normal)) (?e - int (length ?normal)) =
      Some (?e, payload_at (bb_buffer m) ?e xs 1 peer1)"
    using normal_cp_reads [OF body(1) _ body(2) _ sel assms(3-5), of ?e] n e length_tlv_le [of ?normal "0xa2"]
      length_tlv_le [of "mode_selector @ tlv 0xa2 ?normal" "0x31"]
    by (simp add: peer1_def cp_type_def fixed_parts)
  from cp_type_reads(1) [OF assms(1,2) n refl this]
  have run: "IsoPresentation_parseConnect peer m = Some (1, payload_at (bb_buffer m) ?e xs 1 peer1)" .
  have "bb_bytes (nextPayload (payload_at (bb_buffer m) ?e xs 1 peer1)) = xs"
    "valid_range (bb_buffer (nextPayload (payload_at (bb_buffer m) ?e xs 1 peer1))) 0 (int (length xs))"
    using payload_inside_message [OF assms(1) _ refl] assms(2) cp_header [of calling called 1 xs] by metis+
  moreover have "selector_ok 16 (callingPresentationSelector (clear_selectors peer))" "selector_ok 16 (calledPresentationSelector (clear_selectors peer))"
    using assms(3) by (simp_all add: pres_ok_def clear_selectors_def selector_ok_def)
  ultimately show ?thesis using run sel
    by (simp add: payload_at_def peer1_def received_selector_bytes pres_ok_def)
qed

lemma accept_message_read:
  assumes "bb_wf m" and "bb_bytes m = cp_type (normal_cpa (user_data ctx xs))" and "xs \<noteq> []" and "length xs \<le> 65000"
  shows "\<exists>peer'. IsoPresentation_parseAcceptMessage peer m = Some (1, peer') \<and>
    sel_size (callingPresentationSelector peer') = 0 \<and> sel_size (calledPresentationSelector peer') = 0 \<and>
    acseContextId peer' = acseContextId peer \<and> mmsContextId peer' = mmsContextId peer \<and> nextContextId peer' = ctx \<and>
    bb_size (nextPayload peer') = int (length xs) \<and> bb_bytes (nextPayload peer') = xs \<and>
    valid_range (bb_buffer (nextPayload peer')) 0 (int (length xs))"
proof -
  let ?normal = "normal_cpa (user_data ctx xs)" and ?e = "bb_size m"
  have n: "length ?normal \<le> 65100" using length_user_data_le(1) [of ctx xs] assms(4)
    by (simp add: normal_cpa_def fixed_parts tlv_short static_calledPresentationSelector_def)
  have e: "?e = int (length (cp_type ?normal))" using bb_bytes_length [OF assms(1)] assms(2) by simp
  have body: "holds (bb_buffer m) (?e - int (length ?normal)) ?normal" "0 \<le> ?e - int (length ?normal)"
    using holds_bb_bytes [OF assms(1,2)] e by (auto simp: cp_type_def tlv_def algebra_simps)
  have "parseNormalModeParameters peer (bb_buffer m) (int (length ?normal)) (?e - int (length ?normal)) =
      Some (?e, payload_at (bb_buffer m) ?e xs ctx (clear_selectors peer))"
    using normal_cpa_reads [OF body(1) _ body(2) _ assms(3,4), of ?e] n e length_tlv_le [of ?normal "0xa2"]
      length_tlv_le [of "mode_selector @ tlv 0xa2 ?normal" "0x31"]
    by (simp add: cp_type_def fixed_parts)
  from cp_type_reads(2) [OF assms(1,2) n refl this]
  have run: "IsoPresentation_parseAcceptMessage peer m = Some (1, payload_at (bb_buffer m) ?e xs ctx (clear_selectors peer))" .
  have "bb_bytes (nextPayload (payload_at (bb_buffer m) ?e xs ctx (clear_selectors peer))) = xs"
    "valid_range (bb_buffer (nextPayload (payload_at (bb_buffer m) ?e xs ctx (clear_selectors peer)))) 0 (int (length xs))"
    using payload_inside_message [OF assms(1) _ refl] assms(2) cpa_header [of ctx xs] by metis+
  then show ?thesis using run by (simp add: payload_at_def clear_selectors_def)
qed

lemma chain_payload:
  assumes "chain_wf payload" and "0 < bc_partLength payload" and "bc_length payload \<le> 65000"
  shows "chain_bytes payload \<noteq> []" "length (chain_bytes payload) \<le> 65000" "bc_length payload = int (length (chain_bytes payload))"
  using chain_nonempty [OF assms(1,2)] chain_length [OF assms(1)] assms(3) by auto

text \<open>
  C24: A presentation connect message is read back by the server: the client creates it, and
  the server accepts it and learns the selectors of the connection parameters, the context
  identifiers 1 for ACSE and 3 for MMS, and the payload, which belongs to the ACSE context.
\<close>

theorem presentation_connect_roundtrip:
  assumes "params_ok p" and "chain_wf payload" and "0 < bc_partLength payload" and "bc_length payload \<le> 65000"
    and "valid_range (bc_buffer buffer) 0 120"
  shows "\<exists>self' chain. IsoPresentation_createConnectPdu self p buffer payload = Some (self', chain) \<and> chain_wf chain \<and>
    (\<forall>m peer. bb_wf m \<longrightarrow> bb_bytes m = chain_bytes chain \<longrightarrow> pres_ok peer \<longrightarrow>
      (\<exists>peer'. IsoPresentation_parseConnect peer m = Some (1, peer') \<and> pres_ok peer' \<and>
        sel_bytes (callingPresentationSelector peer') = sel_bytes (localPSelector p) \<and>
        sel_bytes (calledPresentationSelector peer') = sel_bytes (remotePSelector p) \<and>
        acseContextId peer' = 1 \<and> mmsContextId peer' = 3 \<and> nextContextId peer' = 1 \<and>
        bb_size (nextPayload peer') = bc_length payload \<and> bb_bytes (nextPayload peer') = chain_bytes payload))"
proof -
  let ?self = "self\<lparr>acseContextId := 1, mmsContextId := 3, callingPresentationSelector := localPSelector p,
    calledPresentationSelector := remotePSelector p\<rparr>"
  have "pres_ok ?self" using assms(1) by (simp add: pres_ok_def params_ok_def)
  from createConnectPdu_run [OF this assms(2-5)] obtain chain where
    c: "IsoPresentation_createConnectPdu self p buffer payload = Some (?self, chain)" "chain_wf chain" "chain_bytes chain =
      cp_type (normal_cp (sel_bytes (localPSelector p)) (sel_bytes (remotePSelector p)) (user_data 1 (chain_bytes payload)))"
    by (auto simp: IsoPresentation_createConnectPdu_def)
  have sel: "length (sel_bytes (localPSelector p)) \<le> 16" "length (sel_bytes (remotePSelector p)) \<le> 16"
    using assms(1) by (simp_all add: params_ok_def sel_bytes_def selector_ok_def min_def)
  note xs = chain_payload [OF assms(2-4)]
  show ?thesis
    apply (rule exI [of _ ?self], rule exI [of _ chain], intro conjI allI impI)
    subgoal by (rule c(1))
    subgoal by (rule c(2))
    subgoal premises m for m peer
      unfolding xs(3) using connect_message_read [OF m(1) trans [OF m(2) c(3)] m(3) xs(1,2) sel] by blast
    done
qed

text \<open>
  C25: The accept message of the server is read back by the client: the server creates it, and
  the client accepts it and gets the payload, in the ACSE context of the server. Its selectors
  are cleared.
\<close>

theorem presentation_accept_roundtrip:
  assumes "chain_wf payload" and "0 < bc_partLength payload" and "bc_length payload \<le> 65000"
    and "valid_range (bc_buffer buffer) 0 120"
  shows "\<exists>chain. IsoPresentation_createCpaMessage self buffer payload = Some chain \<and> chain_wf chain \<and>
    (\<forall>m peer. bb_wf m \<longrightarrow> bb_bytes m = chain_bytes chain \<longrightarrow>
      (\<exists>peer'. IsoPresentation_parseAcceptMessage peer m = Some (1, peer') \<and>
        sel_size (callingPresentationSelector peer') = 0 \<and> sel_size (calledPresentationSelector peer') = 0 \<and>
        acseContextId peer' = acseContextId peer \<and> mmsContextId peer' = mmsContextId peer \<and>
        nextContextId peer' = acseContextId self \<and>
        bb_size (nextPayload peer') = bc_length payload \<and> bb_bytes (nextPayload peer') = chain_bytes payload))"
proof -
  obtain chain where c: "IsoPresentation_createCpaMessage self buffer payload = Some chain" "chain_wf chain"
    "chain_bytes chain = cp_type (normal_cpa (user_data (acseContextId self) (chain_bytes payload)))"
    using createCpaMessage_run [OF assms, of self] by blast
  note xs = chain_payload [OF assms(1-3)]
  show ?thesis
    apply (rule exI [of _ chain], intro conjI allI impI)
    subgoal by (rule c(1))
    subgoal by (rule c(2))
    subgoal premises m for m peer
      unfolding xs(3) using accept_message_read [OF m(1) trans [OF m(2) c(3)] xs(1,2), of peer] by blast
    done
qed

text \<open>
  An accept message without normal mode parameters is accepted as well. The payload that
  the client then hands to ACSE is whatever an earlier message, or nothing, has left there.
\<close>

theorem accept_without_payload:
  assumes "bb_wf m" and "bb_bytes m = [0x31, 0]"
  shows "IsoPresentation_parseAcceptMessage self m = Some (1, self)"
proof -
  have sz: "bb_size m = 2" using bb_bytes_length [OF assms(1)] assms(2) by simp
  have h: "holds (bb_buffer m) 0 (tlv 0x31 [])" using holds_bb_bytes [OF assms] by (simp add: tlv_short)
  have "rd (bb_buffer m) 0 = Some 0x31" "decodeLength_or_fail (bb_buffer m) 1 2 = Some (Some (2, 0))"
    using decodeLength_tlv [OF h, of 2] by (simp_all add: tlv_short)
  then show ?thesis using sz
    by (simp add: IsoPresentation_parseAcceptMessage_def, subst parseAcceptMessage_loop.simps, simp)
qed

section \<open>The data path\<close>

text \<open>What the layers above see of a received message: the payload, if it belongs to the MMS context.\<close>

definition presentation_receive :: "IsoPresentation \<Rightarrow> ByteBufferApi \<Rightarrow> ByteBuffer \<Rightarrow> ByteBuffer option" where
  "presentation_receive peer api m = (case IsoPresentation_parseUserData api peer m of
     Some (ret, peer') \<Rightarrow> if ret = 1 \<and> nextContextId peer' = mmsContextId peer then Some (nextPayload peer') else None
   | None \<Rightarrow> None)"

interpretation presentation_data_layer: pdu_layer "IsoPresentation_createUserData (self\<lparr>mmsContextId := c\<rparr>)"
  "\<lambda>part. valid_range (bc_buffer part) 0 18" "presentation_receive (peer\<lparr>mmsContextId := c\<rparr>)" 65000 18
  for self peer c
proof (unfold_locales, goal_cases)
  case (1 payload part)
  obtain chain where c: "create_user_data c part payload = Some chain" "chain_wf chain" "0 < bc_partLength chain"
    "chain_bytes chain = user_data c (chain_bytes payload)"
    using create_user_data_run [OF 1, of c] by blast
  have "bc_length chain \<le> bc_length payload + 18"
    using chain_length [OF c(2)] chain_length [OF 1(1)] c(4) length_user_data_le(1) [of c "chain_bytes payload"] by simp
  then show ?case using c by (simp add: IsoPresentation_createUserData_def)
next
  case (2 payload part chain api m)
  have "bb_bytes m = user_data c (chain_bytes payload)" "length (chain_bytes payload) \<le> 65000"
    using create_user_data_run [OF 2(1-4), of c] 2(5,8) chain_length [OF 2(1)] 2(3) by (auto simp: IsoPresentation_createUserData_def)
  from user_data_reads [OF 2(6,7) this, of "peer\<lparr>mmsContextId := c\<rparr>"] show ?case
    by (auto simp: presentation_receive_def)
qed

text \<open>User data on top of data SPDUs.\<close>

interpretation data_path: pdu_stack "IsoPresentation_createUserData (self\<lparr>mmsContextId := c\<rparr>)"
  "\<lambda>part. valid_range (bc_buffer part) 0 18" "presentation_receive (peer\<lparr>mmsContextId := c\<rparr>)" 65000 18
  "\<lambda>part c. Some (IsoSession_createDataSpdu part c)" "\<lambda>_. True" "session_receive s" 65018 4
  for self peer c s
  by unfold_locales

section \<open>Examples\<close>

definition example_presentation :: IsoPresentation where
  "example_presentation = \<lparr>callingPresentationSelector = zero_selector 16, calledPresentationSelector = zero_selector 16,
     nextContextId = 0, acseContextId = 1, mmsContextId = 3,
     nextPayload = \<lparr>bb_buffer = ([], 0), bb_size = 0, bb_maxSize = 0\<rparr>\<rparr>"

lemma example_presentation_ok [simp]: "pres_ok example_presentation"
  by (simp add: pres_ok_def example_presentation_def selector_ok_def zero_selector_def)


theorem presentation_connect_roundtrip_witness:
  "\<exists>self' chain peer'. IsoPresentation_createConnectPdu example_presentation (IsoConnectionParameters_create :: unit IsoConnectionParameters)
      example_part example_payload = Some (self', chain) \<and>
    IsoPresentation_parseConnect example_presentation (message_of (chain_bytes chain)) = Some (1, peer') \<and>
    bb_bytes (nextPayload peer') = [0x31, 0x32, 0x33]"
  using presentation_connect_roundtrip [of "IsoConnectionParameters_create :: unit IsoConnectionParameters" example_payload example_part
      example_presentation] message_of example_presentation_ok
  by (simp; fastforce)

theorem presentation_accept_roundtrip_witness:
  "\<exists>chain peer'. IsoPresentation_createCpaMessage example_presentation example_part example_payload = Some chain \<and>
    IsoPresentation_parseAcceptMessage example_presentation (message_of (chain_bytes chain)) = Some (1, peer') \<and>
    bb_bytes (nextPayload peer') = [0x31, 0x32, 0x33]"
  using presentation_accept_roundtrip [of example_payload example_part example_presentation] message_of by (simp; fastforce)

theorem accept_without_payload_witness:
  "IsoPresentation_parseAcceptMessage example_presentation (message_of [0x31, 0]) = Some (1, example_presentation)"
  by (rule accept_without_payload) simp_all

end
