(* ===== verification/Acse_Props.thy ===== *)
theory Acse_Props
  imports Acse
begin

text \<open>
  Properties of the association control service element. The messages are described as octet
  strings; the encoders write them and the parsers read them back. The user information of a
  message is a nested element whose parser trusts its lengths too much: what follows from that is
  shown in the last sections.
\<close>

declare split_paired_All [simp del] split_paired_Ex [simp del]

section \<open>Messages as octet strings\<close>

definition association_data :: "byte list \<Rightarrow> byte list \<Rightarrow> byte list" where
  "association_data ref xs = tlv 0x02 ref @ tlv 0xa0 xs"

definition user_information :: "byte list \<Rightarrow> byte list \<Rightarrow> byte list" where
  "user_information ref xs = tlv 0xbe (tlv 0x28 (association_data ref xs))"

definition app_context :: "byte list" where
  "app_context = tlv 0xa1 (tlv 0x06 appContextNameMms)"

definition aare_body :: "byte \<Rightarrow> byte list \<Rightarrow> byte list \<Rightarrow> byte list" where
  "aare_body res ref xs = app_context @ tlv 0xa2 (tlv 0x02 [res]) @ tlv 0xa3 (tlv 0xa1 (tlv 0x02 [0])) @ user_information ref xs"

definition aare :: "byte \<Rightarrow> byte list \<Rightarrow> byte list \<Rightarrow> byte list" where
  "aare res ref xs = tlv 0x61 (aare_body res ref xs)"

text \<open>An application process title with its qualifier; an empty title is left out.\<close>

definition title_octets :: "byte \<Rightarrow> byte \<Rightarrow> byte list \<Rightarrow> int \<Rightarrow> byte list" where
  "title_octets titleTag qualifierTag title qualifier =
     (if title = [] then [] else tlv titleTag (tlv 0x06 title) @ tlv qualifierTag (tlv 0x02 (uint32_octets (word_of_int qualifier))))"

text \<open>The authentication elements for a password; without credentials there are none.\<close>

definition password_octets :: "byte list option \<Rightarrow> byte list" where
  "password_octets pw = (case pw of None \<Rightarrow> []
   | Some xs \<Rightarrow> tlv 0x8a [0x04, 0x80] @ tlv 0x8b auth_mech_password_oid @ tlv 0xac (tlv 0x80 xs))"

definition aarq_body :: "byte list \<Rightarrow> int \<Rightarrow> byte list \<Rightarrow> int \<Rightarrow> byte list option \<Rightarrow> byte list \<Rightarrow> byte list" where
  "aarq_body called calledQ calling callingQ pw xs = app_context @ title_octets 0xa2 0xa3 called calledQ @
     title_octets 0xa6 0xa7 calling callingQ @ password_octets pw @ user_information [3] xs"

definition aarq :: "byte list \<Rightarrow> int \<Rightarrow> byte list \<Rightarrow> int \<Rightarrow> byte list option \<Rightarrow> byte list \<Rightarrow> byte list" where
  "aarq called calledQ calling callingQ pw xs = tlv 0x60 (aarq_body called calledQ calling callingQ pw xs)"

lemma length_app_context [simp]: "length app_context = 9"
  by (simp add: app_context_def appContextNameMms_def tlv_short)

lemma length_user_information_le:
  "length (user_information ref xs) \<le> length ref + length xs + 20" "length xs + 8 \<le> length (user_information ref xs)"
  using length_tlv_le [of ref "0x02"] length_tlv_le [of xs "0xa0"] length_tlv_le [of "association_data ref xs" "0x28"]
    length_tlv_le [of "tlv 0x28 (association_data ref xs)" "0xbe"]
  by (simp_all add: user_information_def association_data_def)

lemma length_title_octets_le: "length title \<le> 10 \<Longrightarrow> length (title_octets tTag qTag title q) \<le> 23"
  using uint32_octets_len(2) [of "word_of_int q"] by (simp add: title_octets_def tlv_short)

lemma length_password_octets_le:
  "length (password_octets pw) \<le> (case pw of None \<Rightarrow> 0 | Some xs \<Rightarrow> length xs + 19)"
proof (cases pw)
  case (Some xs)
  then show ?thesis using length_tlv_le [of xs "0x80"] length_tlv_le [of "tlv 0x80 xs" "0xac"]
    by (simp add: password_octets_def auth_mech_password_oid_def tlv_short)
qed (simp add: password_octets_def)

section \<open>The user information is read back\<close>

lemma tlv_contents: "holds buffer p (tlv tag xs) \<Longrightarrow> p + int (length (tlv tag xs)) = e \<Longrightarrow> holds buffer (e - int (length xs)) xs"
  by (auto simp: tlv_def)

lemma decodeLength_tlv_raw:
  assumes "holds buffer p (tlv tag xs)" and "length xs < 2 ^ 24" and "0 \<le> p" and "maxBufPos < 2 ^ 30"
    and "p + int (length (tlv tag xs)) \<le> maxBufPos"
  shows "rd buffer p = Some tag"
    and "BerDecoder_decodeLength buffer (p + 1) maxBufPos = Some (p + int (length (tlv tag xs)) - int (length xs), Some (int (length xs)))"
proof -
  have "rdn buffer (p + 1) (length (len_octets (int (length xs)))) = Some (len_octets (int (length xs)))"
    using assms(1) by (simp add: tlv_def tl_octets_def holds_def [symmetric])
  then show "BerDecoder_decodeLength buffer (p + 1) maxBufPos = Some (p + int (length (tlv tag xs)) - int (length xs), Some (int (length xs)))"
    using decodeLength_len_octets [of buffer "p + 1" "int (length xs)" maxBufPos] assms(2-) by (simp add: outlen algebra_simps)
qed (use assms(1) in \<open>simp add: tlv_def tl_octets_def\<close>)

text \<open>The state after the user information: the reference and the place of the payload.\<close>

definition received_user_data :: "ptr \<Rightarrow> int \<Rightarrow> byte list \<Rightarrow> byte list \<Rightarrow> ('par, 'tok) AcseConnection \<Rightarrow> ('par, 'tok) AcseConnection" where
  "received_user_data buffer e ref xs self = self\<lparr>nextReference := uint (word_of_int (be_uint ref) :: 32 word),
     userDataBufferSize := int (length xs), userDataBuffer := Some (padd buffer (e - int (length xs)))\<rparr>"

lemma parseUserInformation_reads:
  assumes h: "holds buffer p (association_data ref xs)" and e: "e = p + int (length (association_data ref xs))"
    and b: "0 \<le> p" "e < 2 ^ 24" and ne: "ref \<noteq> []" "xs \<noteq> []"
  shows "parseUserInformation self buffer p e = Some (e, True, received_user_data buffer e ref xs self)"
proof -
  let ?q = "p + int (length (tlv 0x02 ref))"
  have hs: "holds buffer p (tlv 0x02 ref)" "holds buffer ?q (tlv 0xa0 xs)" using h by (simp_all add: association_data_def)
  have l: "?q + int (length (tlv 0xa0 xs)) = e" "p + 2 + int (length ref) \<le> ?q" "?q + 2 + int (length xs) \<le> e"
    using e length_tlv_le [of ref "0x02"] length_tlv_le [of xs "0xa0"] by (simp_all add: association_data_def)
  have small: "length ref < 2 ^ 24" "length xs < 2 ^ 24" using l b by auto
  have d1: "rd buffer p = Some 0x02" "BerDecoder_decodeLength buffer (p + 1) e = Some (?q - int (length ref), Some (int (length ref)))"
    using decodeLength_tlv_raw [OF hs(1) small(1) b(1), of e] l b by auto
  have d2: "rd buffer ?q = Some 0xa0" "BerDecoder_decodeLength buffer (?q + 1) e = Some (e - int (length xs), Some (int (length xs)))"
    using decodeLength_tlv_raw [OF hs(2) small(2), of e] l b by auto
  have "holds buffer (?q - int (length ref)) ref" using hs(1) by (simp add: tlv_def)
  then have v: "BerDecoder_decodeUint32 buffer (int (length ref)) (?q - int (length ref)) = Some (word_of_int (be_uint ref))"
    by (intro decodeUint32_value) (simp add: holds_def)
  have "parseUserInformation_loop self buffer e False False p =
      parseUserInformation_loop (self\<lparr>nextReference := uint (word_of_int (be_uint ref) :: 32 word)\<rparr>) buffer e True False ?q"
    using d1 v l b ne(1) by (subst parseUserInformation_loop.simps) simp
  also have "\<dots> = parseUserInformation_loop (received_user_data buffer e ref xs self) buffer e True True e"
    using d2 l b ne(2) by (subst parseUserInformation_loop.simps) (simp add: received_user_data_def)
  also have "\<dots> = Some (e, True, received_user_data buffer e ref xs self)"
    by (subst parseUserInformation_loop.simps) simp
  finally show ?thesis by (simp add: parseUserInformation_def)
qed

text \<open>The two nested headers in front of it, as the cases \<open>0xbe\<close> of both parsers read them.\<close>

lemma user_information_reads:
  assumes h: "holds buffer p (tlv 0x28 (association_data ref xs))" and q: "q = p + int (length (tlv 0x28 (association_data ref xs)))"
    and b: "0 \<le> p" "q \<le> e" "e < 2 ^ 24" and ne: "ref \<noteq> []" "xs \<noteq> []"
  shows "rd buffer p = Some 0x28"
    and "decodeLength_or_fail buffer (p + 1) e =
      Some (Some (q - int (length (association_data ref xs)), int (length (association_data ref xs))))"
    and "parseUserInformation self buffer (q - int (length (association_data ref xs))) q =
      Some (q, True, received_user_data buffer q ref xs self)"
proof -
  have l: "p + 2 + int (length (association_data ref xs)) \<le> q" "length (association_data ref xs) < 2 ^ 24"
    using q b length_tlv_le [of "association_data ref xs" "0x28"] by auto
  show "rd buffer p = Some 0x28"
    and "decodeLength_or_fail buffer (p + 1) e =
      Some (Some (q - int (length (association_data ref xs)), int (length (association_data ref xs))))"
    using decodeLength_tlv [OF h l(2) b(1), of e] b q by auto
  have "holds buffer (q - int (length (association_data ref xs))) (association_data ref xs)"
    using h q by (simp add: tlv_def)
  then show "parseUserInformation self buffer (q - int (length (association_data ref xs))) q =
      Some (q, True, received_user_data buffer q ref xs self)"
    using l b by (intro parseUserInformation_reads [OF _ _ _ _ ne]) auto
qed

section \<open>The response is read back\<close>

lemma octet_zero: "(ucast (b :: byte) :: 32 word) = 0 \<longleftrightarrow> b = 0"
  using octet_back [of b] by auto

lemma aare_step:
  assumes h: "holds buffer p (tlv tag xs)" and q: "q = p + int (length (tlv tag xs))" and b: "0 \<le> p" "q \<le> e" "e < 2 ^ 24" and ne: "xs \<noteq> []"
    and step: "parseAare_element self buffer e v res tag (int (length xs)) (q - int (length xs)) = Some (Some (v', res', q), self')"
  shows "parseAare_loop self buffer e v res p = parseAare_loop self' buffer e v' res' q"
proof -
  have l: "p + 2 + int (length xs) \<le> q" using q length_tlv_le [of xs tag] by simp
  have "decodeTL buffer p e = Some (Some (tag, q - int (length xs), int (length xs)))"
    using decodeTL_tlv(1) [OF h _ b(1), of e] l b q by simp
  then show ?thesis using l b ne step by (subst parseAare_loop.simps) simp
qed

text \<open>A parser that meets an element it does not look into skips it.\<close>

lemma aare_skip:
  assumes "holds buffer p (tlv tag xs)" and "q = p + int (length (tlv tag xs))" and "0 \<le> p" "q \<le> e" "e < 2 ^ 24" and "xs \<noteq> []"
    and "tag \<notin> {0xa2, 0xbe, 0x00}"
  shows "parseAare_loop self buffer e v res p = parseAare_loop self buffer e v res q"
  by (rule aare_step [OF assms(1-6)]) (use assms(7) in \<open>simp add: parseAare_element_def\<close>)

lemma aare_body_reads:
  assumes h: "holds buffer p (aare_body res ref xs)" and e: "e = p + int (length (aare_body res ref xs))"
    and b: "0 \<le> p" "e < 2 ^ 24" and ne: "ref \<noteq> []" "xs \<noteq> []"
  shows "parseAarePdu self buffer p e =
    Some (if res = 0 then ACSE_ASSOCIATE else ACSE_ASSOCIATE_FAILED, received_user_data buffer e ref xs self)"
proof -
  let ?ui = "tlv 0x28 (association_data ref xs)"
  have hs: "holds buffer p (tlv 0xa1 (tlv 0x06 appContextNameMms))" "holds buffer (p + 9) (tlv 0xa2 (tlv 0x02 [res]))"
    "holds buffer (p + 14) (tlv 0xa3 (tlv 0xa1 (tlv 0x02 [0])))" "holds buffer (p + 21) (tlv 0xbe ?ui)"
    using h by (simp_all add: aare_body_def app_context_def appContextNameMms_def user_information_def tlv_short)
  have l: "p + 21 + int (length (tlv 0xbe ?ui)) = e" "p + 21 + int (length ?ui) + 2 \<le> e" "2 \<le> length ?ui"
    using e length_tlv_le [of ?ui "0xbe"] length_tlv_le [of "association_data ref xs" "0x28"]
    by (simp_all add: aare_body_def user_information_def tlv_short)
  have ui: "holds buffer (e - int (length ?ui)) ?ui" using tlv_contents [OF hs(4) l(1)] .
  have res: "decodeLength_or_fail buffer (p + 12) e = Some (Some (p + 13, 1))" "BerDecoder_decodeUint32 buffer 1 (p + 13) = Some (ucast res)"
    using decodeLength_tlv [of buffer "p + 11" "0x02" "[res]" e] hs(2) l b decodeUint32_octet [of buffer "p + 13" res] by (simp_all add: tlv_short)
  have "parseAare_loop self buffer e False 99 p = parseAare_loop self buffer e False 99 (p + 9)"
    by (rule aare_skip [OF hs(1)]) (use l b in \<open>auto simp: tlv_short appContextNameMms_def\<close>)
  also have "\<dots> = parseAare_loop self buffer e False (ucast res) (p + 14)"
    by (rule aare_step [OF hs(2)]) (use l b res in \<open>auto simp: tlv_short parseAare_element_def add.commute [of 12 p]\<close>)
  also have "\<dots> = parseAare_loop self buffer e False (ucast res) (p + 21)"
    by (rule aare_skip [OF hs(3)]) (use l b in \<open>auto simp: tlv_short\<close>)
  also have "\<dots> = parseAare_loop (received_user_data buffer e ref xs self) buffer e True (ucast res) e"
  proof (rule aare_step [OF hs(4)])
    show "parseAare_element self buffer e False (ucast res) 0xbe (int (length ?ui)) (e - int (length ?ui)) =
        Some (Some (True, ucast res, e), received_user_data buffer e ref xs self)"
      using user_information_reads(1,2) [OF ui, of e e] user_information_reads(3) [OF ui, of e e self] l b ne
      by (simp add: parseAare_element_def)
  qed (use l b in auto)
  also have "\<dots> = Some (if res = 0 then ACSE_ASSOCIATE else ACSE_ASSOCIATE_FAILED, received_user_data buffer e ref xs self)"
    by (subst parseAare_loop.simps) (simp add: octet_zero)
  finally show ?thesis by (simp add: parseAarePdu_def)
qed

section \<open>The request is read back\<close>

lemma aarq_step:
  assumes h: "holds buffer p (tlv tag xs)" and q: "q = p + int (length (tlv tag xs))" and b: "0 \<le> p" "q \<le> e" "e < 2 ^ 24" and ne: "xs \<noteq> []"
    and step: "parseAarq_element self buffer e v tag (int (length xs)) (q - int (length xs)) = Some (Some (v', q), self')"
  shows "parseAarq_loop self buffer e v p = parseAarq_loop self' buffer e v' q"
proof -
  have l: "p + 2 + int (length xs) \<le> q" using q length_tlv_le [of xs tag] by simp
  have "decodeTL buffer p e = Some (Some (tag, q - int (length xs), int (length xs)))"
    using decodeTL_tlv(1) [OF h _ b(1), of e] l b q by simp
  then show ?thesis using l b ne step by (subst parseAarq_loop.simps) simp
qed

lemma aarq_skip:
  assumes "holds buffer p (tlv tag xs)" and "q = p + int (length (tlv tag xs))" and "0 \<le> p" "q \<le> e" "e < 2 ^ 24" and "xs \<noteq> []"
    and "tag \<notin> {0xa6, 0xa7, 0x8b, 0xac, 0xbe, 0x00}"
  shows "parseAarq_loop self buffer e v p = parseAarq_loop self buffer e v q"
  by (rule aarq_step [OF assms(1-6)]) (use assms(7) in \<open>simp add: parseAarq_element_def\<close>)

text \<open>The object identifier depends on its octets only.\<close>

lemma decodeOID_arcs_cong:
  "holds b p xs \<Longrightarrow> holds b' p' xs \<Longrightarrow> n \<le> length xs \<Longrightarrow> decodeOID_arcs b n p k a = decodeOID_arcs b' n p' k a"
proof (induction n arbitrary: p p' xs k a)
  case (Suc n)
  then obtain y ys where y: "xs = y # ys" by (cases xs) auto
  then have "decodeOID_arcs b n (p + 1) k a = decodeOID_arcs b' n (p' + 1) k a" for k a
    using Suc.IH [of "p + 1" ys "p' + 1"] Suc.prems by auto
  then show ?case using Suc.prems y by (simp add: Let_def)
qed simp

lemma decodeOID_arcs_total:
  "holds b p xs \<Longrightarrow> n \<le> length xs \<Longrightarrow> \<exists>r. decodeOID_arcs b n p k a = Some r"
proof (induction n arbitrary: p xs k a)
  case (Suc n)
  then obtain y ys where y: "xs = y # ys" by (cases xs) auto
  then have "\<exists>r. decodeOID_arcs b n (p + 1) k a = Some r" for k a using Suc.IH [of "p + 1" ys] Suc.prems by auto
  then show ?case using Suc.prems y by (simp add: Let_def)
qed simp

lemma decodeOID_cong:
  assumes "holds b p xs" and "holds b' p' xs"
  shows "BerDecoder_decodeOID b p (int (length xs)) = BerDecoder_decodeOID b' p' (int (length xs))"
    and "\<exists>oid. BerDecoder_decodeOID b p (int (length xs)) = Some oid"
proof -
  have "BerDecoder_decodeOID b p (int (length xs)) = BerDecoder_decodeOID b' p' (int (length xs)) \<and>
      (\<exists>oid. BerDecoder_decodeOID b p (int (length xs)) = Some oid)"
  proof (cases xs)
    case (Cons y ys)
    obtain r where "decodeOID_arcs b (length ys) (p + 1) 2 ((replicate 10 0)[0 := ucast y div 40, 1 := ucast y mod 40]) = Some r"
      using decodeOID_arcs_total [of b "p + 1" ys "length ys" 2 "(replicate 10 0)[0 := ucast y div 40, 1 := ucast y mod 40]"]
        assms(1) Cons by auto
    moreover have "decodeOID_arcs b' (length ys) (p' + 1) 2 a = decodeOID_arcs b (length ys) (p + 1) 2 a" for a
      using decodeOID_arcs_cong [of b' "p' + 1" ys b "p + 1" "length ys"] assms Cons by auto
    ultimately show ?thesis using assms Cons by (cases r) (simp add: BerDecoder_decodeOID_def Let_def)
  qed (simp add: BerDecoder_decodeOID_def)
  then show "BerDecoder_decodeOID b p (int (length xs)) = BerDecoder_decodeOID b' p' (int (length xs))"
    and "\<exists>oid. BerDecoder_decodeOID b p (int (length xs)) = Some oid" by blast+
qed

text \<open>What the server learns of the application entity that calls.\<close>

definition received_title :: "byte list \<Rightarrow> int \<Rightarrow> IsoApplicationReference \<Rightarrow> IsoApplicationReference" where
  "received_title title qualifier r = (if title = [] then r
     else r\<lparr>apTitle := the (BerDecoder_decodeOID (title, 0) 0 (int (length title))), aeQualifier := sint (word_of_int qualifier :: 32 word)\<rparr>)"

lemma holds_list: "holds (xs, 0) 0 xs"
  by (simp add: holds_def rdn_valid valid_range_def)

lemma title_reads:
  assumes h: "holds buffer p (title_octets 0xa6 0xa7 title q)" and e: "r = p + int (length (title_octets 0xa6 0xa7 title q))"
    and b: "0 \<le> p" "r \<le> e" "e < 2 ^ 24" and l: "length title \<le> 10"
  shows "parseAarq_loop self buffer e v p = parseAarq_loop
    (self\<lparr>applicationReference := received_title title q (applicationReference self)\<rparr>) buffer e v r"
proof (cases "title = []")
  case False
  let ?n = "int (length title)" and ?o = "uint32_octets (word_of_int q)"
  let ?s = "p + 4 + ?n"
  have o: "?o \<noteq> []" "length ?o \<le> 5" using uint32_octets_len by auto
  have hs: "holds buffer p (tlv 0xa6 (tlv 0x06 title))" "holds buffer ?s (tlv 0xa7 (tlv 0x02 ?o))"
    using h l o(2) False by (simp_all add: title_octets_def tlv_short ac_simps)
  have r: "r = ?s + 4 + int (length ?o)" using e l o(2) False by (simp add: title_octets_def tlv_short)
  obtain oid where oid: "BerDecoder_decodeOID buffer (p + 4) ?n = Some oid" "BerDecoder_decodeOID (title, 0) 0 ?n = Some oid"
    using decodeOID_cong [of buffer "p + 4" title "(title, 0)" 0] hs(1) holds_list l by (auto simp: tlv_short)
  have hq: "holds buffer (?s + 4) ?o" "rd buffer (?s + 2) = Some 0x02" "rd buffer (?s + 3) = Some (word_of_int (int (length ?o)))"
    using hs(2) o(2) by (simp_all add: tlv_short)
  have dq: "BerDecoder_decodeInt32 (padd buffer 2) (int (length ?o)) (?s + 2) = Some (word_of_int q)"
    using decodeInt32_value [of "padd buffer 2" "?s + 2" "length ?o" ?o] hq(1) o(1)
    by (simp add: holds_def uint32_octets_value add.commute [of 2])
  have u: "uint (word_of_int (int (length ?o)) :: byte) = int (length ?o)" "uint (word_of_int ?n :: byte) = ?n"
    using o(2) l by (simp_all add: uint_byte_of_int del: of_int_of_nat_eq)
  let ?self = "self\<lparr>applicationReference := (applicationReference self)\<lparr>apTitle := oid\<rparr>\<rparr>"
  have "parseAarq_loop self buffer e v p = parseAarq_loop ?self buffer e v ?s"
    by (rule aarq_step [OF hs(1)])
      (use hs(1) r b l oid u in \<open>auto simp: tlv_short parseAarq_element_def parse_callingApTitle_def add.commute [of _ p]\<close>)
  also have "\<dots> = parseAarq_loop (?self\<lparr>applicationReference := (applicationReference ?self)\<lparr>aeQualifier := sint (word_of_int q :: 32 word)\<rparr>\<rparr>) buffer e v r"
    by (rule aarq_step [OF hs(2)])
      (use hq r b l o dq u in \<open>auto simp: tlv_short parseAarq_element_def parse_callingAEQualifier_def\<close>)
  finally show ?thesis using False oid(2) by (simp add: received_title_def)
qed (use e in \<open>simp add: title_octets_def received_title_def\<close>)

text \<open>The local variables of the parser once it has met the authentication elements.\<close>

definition credentials_seen :: "byte list option \<Rightarrow> AarqLocals \<Rightarrow> bool" where
  "credentials_seen pw v \<longleftrightarrow> (case pw of
     None \<Rightarrow> authMechanism v = None
   | Some xs \<Rightarrow> (\<exists>mech val. authMechanism v = Some mech \<and> authMechLen v = 3 \<and> holds mech 0 auth_mech_password_oid \<and>
       authValue v = Some val \<and> authValueLen v = int (length xs) \<and> holds val 0 xs))"

definition no_locals :: AarqLocals where
  "no_locals = \<lparr>authValue = None, authValueLen = 0, authMechanism = None, authMechLen = 0, userInfoValid = False\<rparr>"

lemma password_reads:
  assumes h: "holds buffer p (password_octets pw)" and r: "r = p + int (length (password_octets pw))"
    and b: "0 \<le> p" "r \<le> e" "e < 2 ^ 24"
  shows "\<exists>v. parseAarq_loop self buffer e no_locals p = parseAarq_loop self buffer e v r \<and> credentials_seen pw v"
proof (cases pw)
  case (Some xs)
  let ?c = "tlv 0x80 xs"
  have hs: "holds buffer p (tlv 0x8a [0x04, 0x80])" "holds buffer (p + 4) (tlv 0x8b auth_mech_password_oid)" "holds buffer (p + 9) (tlv 0xac ?c)"
    using h by (simp_all add: password_octets_def Some auth_mech_password_oid_def tlv_short)
  have l: "r = p + 9 + int (length (tlv 0xac ?c))" "p + 11 + int (length ?c) \<le> r" "int (length xs) + 2 \<le> int (length ?c)"
    using r length_tlv_le [of ?c "0xac"] length_tlv_le [of xs "0x80"]
    by (simp_all add: password_octets_def Some auth_mech_password_oid_def tlv_short)
  note c = tlv_contents [OF hs(3) l(1) [symmetric]]
  have c': "holds buffer (r - int (length xs)) xs" using c tlv_contents [OF c] by simp
  have d: "decodeLength_or_fail buffer (r - int (length ?c) + 1) e = Some (Some (r - int (length xs), int (length xs)))"
    using decodeLength_tlv(2) [OF c, of e] l b by simp
  define v where "v = no_locals\<lparr>authMechLen := 3, authMechanism := Some (padd buffer (p + 6))\<rparr>"
  define w where "w = v\<lparr>authValueLen := int (length xs), authValue := Some (padd buffer (r - int (length xs)))\<rparr>"
  have "parseAarq_loop self buffer e no_locals p = parseAarq_loop self buffer e no_locals (p + 4)"
    by (rule aarq_skip [OF hs(1)]) (use l b in \<open>auto simp: tlv_short\<close>)
  also have "\<dots> = parseAarq_loop self buffer e v (p + 9)"
    by (rule aarq_step [OF hs(2)])
      (use l b in \<open>auto simp: tlv_short parseAarq_element_def auth_mech_password_oid_def v_def add.commute [of _ p]\<close>)
  also have "\<dots> = parseAarq_loop self buffer e w r"
    by (rule aarq_step [OF hs(3)]) (use l b d in \<open>auto simp: parseAarq_element_def w_def\<close>)
  finally show ?thesis using hs(2) c'
    by (intro exI [of _ w]) (auto simp: credentials_seen_def Some v_def w_def tlv_short auth_mech_password_oid_def)
qed (use r in \<open>auto simp: password_octets_def credentials_seen_def no_locals_def\<close>)

lemma aarq_body_reads:
  assumes h: "holds buffer p (aarq_body called calledQ calling callingQ pw xs)"
    and e: "e = p + int (length (aarq_body called calledQ calling callingQ pw xs))"
    and b: "0 \<le> p" "e < 2 ^ 24" and l: "length called \<le> 10" "length calling \<le> 10" and ne: "xs \<noteq> []"
  shows "\<exists>v. parseAarq_loop self buffer e no_locals p = Some (Some v, received_user_data buffer e [3] xs
      (self\<lparr>applicationReference := received_title calling callingQ (applicationReference self)\<rparr>)) \<and>
    credentials_seen pw v \<and> userInfoValid v"
proof -
  let ?ui = "tlv 0x28 (association_data [3] xs)" and ?co = "uint32_octets (word_of_int calledQ)"
  define q1 where "q1 = p + 9"
  define q2 where "q2 = q1 + int (length (title_octets 0xa2 0xa3 called calledQ))"
  define q3 where "q3 = q2 + int (length (title_octets 0xa6 0xa7 calling callingQ))"
  define q4 where "q4 = q3 + int (length (password_octets pw))"
  let ?self = "self\<lparr>applicationReference := received_title calling callingQ (applicationReference self)\<rparr>"
  have hs: "holds buffer p (tlv 0xa1 (tlv 0x06 appContextNameMms))" "holds buffer q1 (title_octets 0xa2 0xa3 called calledQ)"
    "holds buffer q2 (title_octets 0xa6 0xa7 calling callingQ)" "holds buffer q3 (password_octets pw)" "holds buffer q4 (tlv 0xbe ?ui)"
    using h by (simp_all add: aarq_body_def app_context_def user_information_def q1_def q2_def q3_def q4_def appContextNameMms_def tlv_short ac_simps)
  have q: "p \<le> q1" "q1 \<le> q2" "q2 \<le> q3" "q3 \<le> q4" "q4 + int (length (tlv 0xbe ?ui)) = e" "q4 + 2 + int (length ?ui) \<le> e" "2 \<le> length ?ui"
    using e length_tlv_le [of ?ui "0xbe"] length_tlv_le [of "association_data [3] xs" "0x28"]
    by (simp_all add: aarq_body_def user_information_def q1_def q2_def q3_def q4_def)
  have o: "?co \<noteq> []" "length ?co \<le> 5" using uint32_octets_len by auto
  have "parseAarq_loop self buffer e no_locals p = parseAarq_loop self buffer e no_locals q1"
    by (rule aarq_skip [OF hs(1)]) (use q b in \<open>auto simp: tlv_short appContextNameMms_def q1_def\<close>)
  also have "\<dots> = parseAarq_loop self buffer e no_locals q2"
  proof (cases "called = []")
    case False
    have t: "holds buffer q1 (tlv 0xa2 (tlv 0x06 called))" "holds buffer (q1 + 4 + int (length called)) (tlv 0xa3 (tlv 0x02 ?co))"
      using hs(2) l o(2) False by (simp_all add: title_octets_def tlv_short ac_simps)
    have "q2 = q1 + 4 + int (length called) + 4 + int (length ?co)" using l o(2) False by (simp add: q2_def title_octets_def tlv_short)
    then show ?thesis
      using aarq_skip [OF t(1), of "q1 + 4 + int (length called)" e self no_locals] aarq_skip [OF t(2), of q2 e self no_locals] q b l o
      by (simp add: tlv_short)
  qed (simp add: q2_def title_octets_def)
  also have "\<dots> = parseAarq_loop ?self buffer e no_locals q3" using q b l by (intro title_reads [OF hs(3) q3_def]) auto
  also obtain v where v: "\<dots> = parseAarq_loop ?self buffer e v q4" "credentials_seen pw v"
    using password_reads [OF hs(4) q4_def, of e ?self] q b by auto
  note v(1)
  also have "parseAarq_loop ?self buffer e v q4 = parseAarq_loop (received_user_data buffer e [3] xs ?self) buffer e (v\<lparr>userInfoValid := True\<rparr>) e"
  proof (rule aarq_step [OF hs(5)])
    note ui = tlv_contents [OF hs(5) q(5)]
    show "parseAarq_element ?self buffer e v 0xbe (int (length ?ui)) (e - int (length ?ui)) =
        Some (Some (v\<lparr>userInfoValid := True\<rparr>, e), received_user_data buffer e [3] xs ?self)"
      using user_information_reads(1,2) [OF ui, of e e] user_information_reads(3) [OF ui, of e e ?self] q b ne
      by (simp add: parseAarq_element_def)
  qed (use q b in auto)
  also have "\<dots> = Some (Some (v\<lparr>userInfoValid := True\<rparr>), received_user_data buffer e [3] xs ?self)"
    by (subst parseAarq_loop.simps) simp
  finally show ?thesis using v(2) by (auto simp: credentials_seen_def split: option.splits)
qed

section \<open>What the encoders write\<close>

definition ui_header :: "byte list \<Rightarrow> byte list \<Rightarrow> byte list" where
  "ui_header ref xs = tl_octets 0xbe (int (length (tlv 0x28 (association_data ref xs)))) @
     tl_octets 0x28 (int (length (association_data ref xs))) @ tlv 0x02 ref @ tl_octets 0xa0 (int (length xs))"

lemma ui_header: "user_information ref xs = ui_header ref xs @ xs"
  by (simp add: ui_header_def user_information_def association_data_def tlv_def)

definition aare_header :: "byte \<Rightarrow> byte list \<Rightarrow> byte list \<Rightarrow> byte list" where
  "aare_header res ref xs = tl_octets 0x61 (int (length (aare_body res ref xs))) @ app_context @ tlv 0xa2 (tlv 0x02 [res]) @
     tlv 0xa3 (tlv 0xa1 (tlv 0x02 [0])) @ ui_header ref xs"

lemma aare_header: "aare res ref xs = aare_header res ref xs @ xs"
  by (simp add: aare_header_def aare_def aare_body_def ui_header tlv_def [of "0x61"])

lemma announced_tlv:
  "length xs < 65535 \<Longrightarrow> BerEncoder_determineLengthSize (word_of_int (int (length xs))) = int (length (tlv tag xs)) - int (length xs) - 1"
  using determineLengthSize_octets [of "int (length xs)" tag] by (simp add: tlv_def)

lemma encodeTL_length:
  "length xs < 65535 \<Longrightarrow> BerEncoder_encodeTL tag (word_of_int (int (length xs))) = emit (tl_octets tag (int (length xs)))"
  by (rule encodeTL_tl_octets) auto

text \<open>The lengths that both encoders compute for the user information.\<close>

lemma user_information_lengths:
  assumes n: "length xs \<le> 64000" "length ref \<le> 5"
  shows "int (length xs) + 1 + BerEncoder_determineLengthSize (word_of_int (int (length xs))) + int (length ref) + 2 = int (length (association_data ref xs))"
    and "int (length (association_data ref xs)) + BerEncoder_determineLengthSize (word_of_int (int (length (association_data ref xs)))) + 1 =
      int (length (tlv 0x28 (association_data ref xs)))"
    and "int (length (tlv 0x28 (association_data ref xs))) +
      BerEncoder_determineLengthSize (word_of_int (int (length (tlv 0x28 (association_data ref xs))))) + 1 = int (length (user_information ref xs))"
    and "length (association_data ref xs) \<le> 64012" and "length (tlv 0x28 (association_data ref xs)) \<le> 64017"
    and "length (user_information ref xs) \<le> 64022"
proof -
  show l: "length (association_data ref xs) \<le> 64012" "length (tlv 0x28 (association_data ref xs)) \<le> 64017"
    "length (user_information ref xs) \<le> 64022"
    using n length_tlv_le [of xs "0xa0"] length_tlv_le [of "association_data ref xs" "0x28"]
      length_tlv_le [of "tlv 0x28 (association_data ref xs)" "0xbe"]
    by (simp_all add: association_data_def user_information_def tlv_short [of ref])
  show "int (length xs) + 1 + BerEncoder_determineLengthSize (word_of_int (int (length xs))) + int (length ref) + 2 = int (length (association_data ref xs))"
    using n announced_tlv [of xs "0xa0"] by (simp add: association_data_def tlv_short [of ref])
  show "int (length (association_data ref xs)) + BerEncoder_determineLengthSize (word_of_int (int (length (association_data ref xs)))) + 1 =
      int (length (tlv 0x28 (association_data ref xs)))"
    using l announced_tlv [of "association_data ref xs" "0x28"] by simp
  show "int (length (tlv 0x28 (association_data ref xs))) +
      BerEncoder_determineLengthSize (word_of_int (int (length (tlv 0x28 (association_data ref xs))))) + 1 = int (length (user_information ref xs))"
    using l announced_tlv [of "tlv 0x28 (association_data ref xs)" "0xbe"] by (simp add: user_information_def)
qed

lemma createAssociateResponse_emits:
  assumes c: "chain_wf payload" "bc_length payload \<le> 64000"
    and xs_def: "xs = chain_bytes payload" and ref_def: "ref = uint32_octets (word_of_int (nextReference self))"
  shows "AcseConnection_createAssociateResponseMessage le self res wb (Some payload) =
    do { s \<leftarrow> emit (aare_header res ref xs) (bc_buffer wb, 0); Some (finish_part wb payload s) }"
proof -
  have n: "bc_length payload = int (length xs)" "length xs \<le> 64000" "length ref \<le> 5"
    using chain_length [OF c(1)] c(2) uint32_octets_len(2) by (auto simp: xs_def ref_def)
  note ui = user_information_lengths [OF n(2,3)]
  have body: "9 + 5 + 5 + (int (length (user_information ref xs)) + 2) = int (length (aare_body res ref xs))" "length (aare_body res ref xs) < 65535"
    using ui(6) by (simp_all add: aare_body_def tlv_short)
  have tl: "BerEncoder_encodeTL 0x61 (word_of_int (int (length (aare_body res ref xs)))) = emit (tl_octets 0x61 (int (length (aare_body res ref xs))))"
    "BerEncoder_encodeTL 0xbe (word_of_int (int (length (tlv 0x28 (association_data ref xs))))) =
      emit (tl_octets 0xbe (int (length (tlv 0x28 (association_data ref xs)))))"
    "BerEncoder_encodeTL 0x28 (word_of_int (int (length (association_data ref xs)))) = emit (tl_octets 0x28 (int (length (association_data ref xs))))"
    "BerEncoder_encodeTL 0xa0 (word_of_int (int (length xs))) = emit (tl_octets 0xa0 (int (length xs)))"
    "BerEncoder_encodeTL 0x02 (word_of_int (int (length ref))) = emit (tl_octets 0x02 (int (length ref)))"
    using n ui body(2) by (intro encodeTL_length; simp)+
  have num: "BerEncoder_encodeUInt32 le (word_of_int (nextReference self)) = emit ref" by (rule ext) (simp add: encodeUInt32_emits ref_def)
  show ?thesis
    unfolding AcseConnection_createAssociateResponseMessage_def Let_def bind.bind_lunit UInt32determineEncodedSize_eq ref_def [symmetric] n(1)
      ui(1-3) body(1) tl num
    by (simp add: encodeTL_num emit_single emit_fuse_bind aare_header_def ui_header_def app_context_def appContextNameMms_def
        tlv_short tlv_def [of 2 ref] del: emit.simps)
qed

text \<open>The credentials of a client that offers a password, or none.\<close>

definition password_auth :: "byte list option \<Rightarrow> AcseAuthenticationParameter option" where
  "password_auth pw = map_option (\<lambda>xs. \<lparr>mechanism = ACSE_AUTH_PASSWORD, auth_octets = Some xs, auth_length = int (length xs)\<rparr>) pw"

lemma title_length_eq:
  assumes "0 \<le> n" "n \<le> 10" "length title = 10" and t: "t = take (nat n) title"
  shows "title_length le n q = Some (int (length (title_octets tTag qTag t q)), if n > 0 then int (length (uint32_octets (word_of_int q))) else 0)"
  using assms uint32_octets_len(2) [of "word_of_int q"]
  by (auto simp: title_length_def title_octets_def UInt32determineEncodedSize_eq tlv_short min_def)

lemma write_title_emits:
  assumes "0 \<le> n" "n \<le> 10" "length title = 10" and t: "t = take (nat n) title"
  shows "write_title le tTag qTag title n q (if n > 0 then int (length (uint32_octets (word_of_int q))) else 0) =
    emit (title_octets tTag qTag t q)"
proof (cases "n > 0")
  case True
  let ?o = "uint32_octets (word_of_int q)"
  have o: "length ?o \<le> 5" using uint32_octets_len(2) by auto
  have l: "int (length t) = n" "t \<noteq> []" using assms True by auto
  have "rdn (title, 0) 0 (nat n) = Some t" using assms by (simp add: rdn_valid valid_range_def)
  then have cp: "copy_bytes (title, 0) n = emit t" using copy_bytes_emits [of "(title, 0)" n t] True by (intro ext) auto
  have tl: "BerEncoder_encodeTL tTag (word_of_int (n + 2)) = emit [tTag, word_of_int (n + 2)]"
    "BerEncoder_encodeTL 0x06 (word_of_int n) = emit [0x06, word_of_int n]"
    "BerEncoder_encodeTL qTag (word_of_int (int (length ?o) + 2)) = emit [qTag, word_of_int (int (length ?o) + 2)]"
    "BerEncoder_encodeTL 0x02 (word_of_int (int (length ?o))) = emit [0x02, word_of_int (int (length ?o))]"
    using assms o by (intro encodeTL_short; simp)+
  have num: "BerEncoder_encodeUInt32 le (word_of_int q) = emit ?o" by (rule ext) (rule encodeUInt32_emits)
  have "title_octets tTag qTag t q = [tTag, word_of_int (n + 2)] @ [0x06, word_of_int n] @ t @
      [qTag, word_of_int (int (length ?o) + 2)] @ [0x02, word_of_int (int (length ?o))] @ ?o"
    using l o assms by (simp add: title_octets_def tlv_short)
  then show ?thesis unfolding write_title_def if_P [OF True] tl cp num by (intro ext) (simp add: emit_fuse emit_fuse_bind del: emit.simps)
qed (use assms in \<open>auto simp: write_title_def title_octets_def intro!: ext\<close>)

lemma auth_lengths:
  assumes "pred_option (\<lambda>xs. length xs \<le> 512) pw"
  shows "auth_length_of (password_auth pw) = (int (length (password_octets pw)), case pw of None \<Rightarrow> 0 | Some xs \<Rightarrow> int (length xs),
    case pw of None \<Rightarrow> 0 | Some xs \<Rightarrow> int (length (tlv 0x80 xs)) - int (length xs) - 1)"
proof (cases pw)
  case (Some xs)
  then have "length xs \<le> 512" using assms by simp
  then show ?thesis
    using announced_tlv [of xs "0x80"] announced_tlv [of "tlv 0x80 xs" "0xac"] length_tlv_le [of xs "0x80"] Some
    by (simp add: auth_length_of_def password_auth_def password_octets_def Let_def auth_mech_password_oid_def tlv_short [of "[0x04, 0x80]"]
        tlv_short [of "[0x52, 0x03, 0x01]"])
qed (simp add: auth_length_of_def password_auth_def password_octets_def)

lemma write_auth_emits:
  assumes "pred_option (\<lambda>xs. length xs \<le> 512) pw"
  shows "write_auth (password_auth pw) (case pw of None \<Rightarrow> 0 | Some xs \<Rightarrow> int (length xs))
    (case pw of None \<Rightarrow> 0 | Some xs \<Rightarrow> int (length (tlv 0x80 xs)) - int (length xs) - 1) = emit (password_octets pw)"
proof (cases pw)
  case (Some xs)
  then have l: "length xs \<le> 512" using assms by simp
  have cp: "copy_bytes (xs, 0) (int (length xs)) = emit xs"
    using copy_bytes_emits [of "(xs, 0)" "int (length xs)" xs] by (intro ext) (simp add: rdn_valid valid_range_def)
  have sum: "int (length (tlv 0x80 xs)) - int (length xs) - 1 + int (length xs) + 1 = int (length (tlv 0x80 xs))" by simp
  have tl: "BerEncoder_encodeTL 0xac (word_of_int (int (length (tlv 0x80 xs)))) = emit (tl_octets 0xac (int (length (tlv 0x80 xs))))"
    "BerEncoder_encodeTL 0x80 (word_of_int (int (length xs))) = emit (tl_octets 0x80 (int (length xs)))"
    using l length_tlv_le [of xs "0x80"] by (intro encodeTL_length; simp)+
  have oct: "password_octets pw = [0x8a, 2, 0x04, 0x80, 0x8b, 3, 0x52, 0x03, 0x01] @ tl_octets 0xac (int (length (tlv 0x80 xs))) @
      tl_octets 0x80 (int (length xs)) @ xs"
    by (simp add: password_octets_def Some auth_mech_password_oid_def tlv_short [of "[0x04, 0x80]"] tlv_short [of "[0x52, 0x03, 0x01]"])
      (simp add: tlv_def)
  show ?thesis unfolding oct unfolding write_auth_def Some password_auth_def
    by (intro ext, simp only: option.case option.map AcseAuthenticationParameter.select_convs sum tl cp bind.bind_lunit)
      (simp add: encodeTL_num emit_single emit_fuse emit_fuse_bind requirements_authentication_def auth_mech_password_oid_def del: emit.simps)
qed (auto simp: write_auth_def password_auth_def password_octets_def intro!: ext)

definition aarq_header :: "byte list \<Rightarrow> int \<Rightarrow> byte list \<Rightarrow> int \<Rightarrow> byte list option \<Rightarrow> byte list \<Rightarrow> byte list" where
  "aarq_header called calledQ calling callingQ pw xs = tl_octets 0x60 (int (length (aarq_body called calledQ calling callingQ pw xs))) @
     app_context @ title_octets 0xa2 0xa3 called calledQ @ title_octets 0xa6 0xa7 calling callingQ @ password_octets pw @ ui_header [3] xs"

lemma aarq_header: "aarq called calledQ calling callingQ pw xs = aarq_header called calledQ calling callingQ pw xs @ xs"
  by (simp add: aarq_header_def aarq_def aarq_body_def ui_header tlv_def [of "0x60"])

text \<open>The request that a client with given connection parameters and password sends.\<close>

definition client_aarq :: "'tls IsoConnectionParameters \<Rightarrow> byte list option \<Rightarrow> byte list \<Rightarrow> byte list" where
  "client_aarq p pw xs = aarq (take (nat (remoteApTitleLen p)) (remoteApTitle p)) (remoteAEQualifier p)
     (take (nat (localApTitleLen p)) (localApTitle p)) (localAEQualifier p) pw xs"

text \<open>The encoder, for any code that announces and writes the authentication elements.\<close>

lemma createAssociateRequest_emits_gen:
  assumes c: "chain_wf payload" "bc_length payload \<le> 64000" and p: "params_ok p"
    and auth: "auth_length_of a = (n, pl, sl)" "write_auth a pl sl = emit ao" "0 \<le> n" "n \<le> 600"
    and xs_def: "xs = chain_bytes payload"
    and called_def: "called = take (nat (remoteApTitleLen p)) (remoteApTitle p)"
    and calling_def: "calling = take (nat (localApTitleLen p)) (localApTitle p)"
  shows "AcseConnection_createAssociateRequestMessage le self p wb payload a =
    do { s \<leftarrow> emit (tl_octets 0x60 (int (length (aarq_body called (remoteAEQualifier p) calling (localAEQualifier p) None xs)) + n) @
           app_context @ title_octets 0xa2 0xa3 called (remoteAEQualifier p) @ title_octets 0xa6 0xa7 calling (localAEQualifier p) @ ao @
           ui_header [3] xs) (bc_buffer wb, 0);
         Some (finish_part wb payload s) }"
proof -
  let ?body = "aarq_body called (remoteAEQualifier p) calling (localAEQualifier p) None xs"
  have len: "bc_length payload = int (length xs)" "length xs \<le> 64000" "length [3 :: byte] \<le> 5"
    using chain_length [OF c(1)] c(2) by (auto simp: xs_def)
  note ui = user_information_lengths [OF len(2,3)]
  have one: "int (length xs) + 1 + BerEncoder_determineLengthSize (word_of_int (int (length xs))) + 1 + 2 = int (length (association_data [3] xs))"
    using ui(1) by simp
  have ok: "0 \<le> remoteApTitleLen p" "remoteApTitleLen p \<le> 10" "length (remoteApTitle p) = 10"
      "0 \<le> localApTitleLen p" "localApTitleLen p \<le> 10" "length (localApTitle p) = 10"
    using p by (simp_all add: params_ok_def)
  have titles: "length called \<le> 10" "length calling \<le> 10" using ok by (auto simp: called_def calling_def)
  have body: "9 + int (length (title_octets 0xa2 0xa3 called (remoteAEQualifier p))) + int (length (title_octets 0xa6 0xa7 calling (localAEQualifier p))) +
      n + int (length (user_information [3] xs)) = int (length ?body) + n" "int (length ?body) + n < 65535"
    using ui(6) auth(4) length_title_octets_le [OF titles(1), of "0xa2" "0xa3" "remoteAEQualifier p"]
      length_title_octets_le [OF titles(2), of "0xa6" "0xa7" "localAEQualifier p"]
    by (simp_all add: aarq_body_def password_octets_def)
  have tl: "BerEncoder_encodeTL 0xbe (word_of_int (int (length (tlv 0x28 (association_data [3] xs))))) =
      emit (tl_octets 0xbe (int (length (tlv 0x28 (association_data [3] xs)))))"
    "BerEncoder_encodeTL 0x28 (word_of_int (int (length (association_data [3] xs)))) = emit (tl_octets 0x28 (int (length (association_data [3] xs))))"
    "BerEncoder_encodeTL 0xa0 (word_of_int (int (length xs))) = emit (tl_octets 0xa0 (int (length xs)))"
    using len ui by (intro encodeTL_length; simp)+
  have tl0: "BerEncoder_encodeTL 0x60 (word_of_int (int (length ?body) + n)) = emit (tl_octets 0x60 (int (length ?body) + n))"
    using body(2) auth(3) by (intro encodeTL_tl_octets) auto
  note announced = title_length_eq [OF ok(1-3) called_def, of _ _ "0xa2" "0xa3"] title_length_eq [OF ok(4-6) calling_def, of _ _ "0xa6" "0xa7"]
  show ?thesis
    unfolding AcseConnection_createAssociateRequestMessage_def announced auth(1) Let_def bind.bind_lunit prod.case len(1) one
      ui(2,3) body(1) tl tl0 write_title_emits [OF ok(1-3) called_def] write_title_emits [OF ok(4-6) calling_def] auth(2)
    by (simp add: encodeTL_num emit_single emit_fuse_bind ui_header_def app_context_def appContextNameMms_def tlv_short del: emit.simps)
qed

lemma createAssociateRequest_emits:
  assumes c: "chain_wf payload" "bc_length payload \<le> 64000" and p: "params_ok p" and pw: "pred_option (\<lambda>xs. length xs \<le> 512) pw"
    and xs_def: "xs = chain_bytes payload"
    and called_def: "called = take (nat (remoteApTitleLen p)) (remoteApTitle p)"
    and calling_def: "calling = take (nat (localApTitleLen p)) (localApTitle p)"
  shows "AcseConnection_createAssociateRequestMessage le self p wb payload (password_auth pw) =
    do { s \<leftarrow> emit (aarq_header called (remoteAEQualifier p) calling (localAEQualifier p) pw xs) (bc_buffer wb, 0);
         Some (finish_part wb payload s) }"
proof -
  have total: "int (length (aarq_body called (remoteAEQualifier p) calling (localAEQualifier p) None xs)) + int (length (password_octets pw)) =
      int (length (aarq_body called (remoteAEQualifier p) calling (localAEQualifier p) pw xs))"
    by (simp add: aarq_body_def password_octets_def [of None])
  have "length (password_octets pw) \<le> 531" using length_password_octets_le [of pw] pw by (auto split: option.splits)
  then show ?thesis
    using createAssociateRequest_emits_gen [OF c p auth_lengths [OF pw] write_auth_emits [OF pw] _ _ xs_def called_def calling_def, of le self wb]
    by (simp add: aarq_header_def total)
qed

lemma header_bounds:
  "length (aare_header res ref xs) \<le> length ref + 46"
  "length called \<le> 10 \<Longrightarrow> length calling \<le> 10 \<Longrightarrow>
    length (aarq_header called calledQ calling callingQ pw xs) \<le> 120 + (case pw of None \<Rightarrow> 0 | Some ys \<Rightarrow> length ys)"
proof -
  have ui: "length (ui_header ref xs) \<le> length ref + 20" for ref using length_user_information_le(1) [of ref xs] by (simp add: ui_header)
  show "length (aare_header res ref xs) \<le> length ref + 46"
    using ui [of ref] length_tl_octets_le(1) [of "0x61" "int (length (aare_body res ref xs))"] by (simp add: aare_header_def tlv_short)
  show "length (aarq_header called calledQ calling callingQ pw xs) \<le> 120 + (case pw of None \<Rightarrow> 0 | Some ys \<Rightarrow> length ys)"
    if "length called \<le> 10" "length calling \<le> 10"
    using ui [of "[3]"] length_title_octets_le [OF that(1), of "0xa2" "0xa3" calledQ] length_title_octets_le [OF that(2), of "0xa6" "0xa7" callingQ]
      length_password_octets_le [of pw] length_tl_octets_le(1) [of "0x60" "int (length (aarq_body called calledQ calling callingQ pw xs))"]
    by (auto simp: aarq_header_def split: option.splits)
qed

lemma createAssociateResponse_run:
  assumes c: "chain_wf payload" "0 < bc_partLength payload" "bc_length payload \<le> 64000" and v: "valid_range (bc_buffer wb) 0 51"
  shows "\<exists>chain. AcseConnection_createAssociateResponseMessage le self res wb (Some payload) = Some chain \<and> chain_wf chain \<and>
    0 < bc_partLength chain \<and> bc_partLength chain \<le> 51 \<and>
    chain_bytes chain = aare res (uint32_octets (word_of_int (nextReference self))) (chain_bytes payload)"
proof -
  let ?ref = "uint32_octets (word_of_int (nextReference self))" and ?xs = "chain_bytes payload"
  have l: "length (aare_header res ?ref ?xs) \<le> 51" "0 < length (aare_header res ?ref ?xs)"
    using header_bounds(1) [of res ?ref ?xs] uint32_octets_len(2) [of "word_of_int (nextReference self)"] by (auto simp: aare_header_def)
  then have "valid_range (bc_buffer wb) 0 (int (length (aare_header res ?ref ?xs)))" using v by (auto simp: valid_range_def)
  from finish_part_run [OF c(1,2) this] l show ?thesis
    unfolding createAssociateResponse_emits [OF c(1,3) refl refl] aare_header by auto
qed

lemma createAssociateRequest_run:
  assumes c: "chain_wf payload" "0 < bc_partLength payload" "bc_length payload \<le> 64000" and p: "params_ok p"
    and pw: "pred_option (\<lambda>xs. length xs \<le> 512) pw" and v: "valid_range (bc_buffer wb) 0 632"
  shows "\<exists>chain. AcseConnection_createAssociateRequestMessage le self p wb payload (password_auth pw) = Some chain \<and> chain_wf chain \<and>
    0 < bc_partLength chain \<and> bc_partLength chain \<le> 632 \<and> chain_bytes chain = client_aarq p pw (chain_bytes payload)"
proof -
  let ?h = "aarq_header (take (nat (remoteApTitleLen p)) (remoteApTitle p)) (remoteAEQualifier p)
     (take (nat (localApTitleLen p)) (localApTitle p)) (localAEQualifier p) pw (chain_bytes payload)"
  have "length ?h \<le> 120 + (case pw of None \<Rightarrow> 0 | Some ys \<Rightarrow> length ys)"
    by (rule header_bounds(2)) (use p in \<open>auto simp: params_ok_def\<close>)
  then have l: "length ?h \<le> 632" "0 < length ?h" using pw by (auto simp: aarq_header_def split: option.splits)
  then have "valid_range (bc_buffer wb) 0 (int (length ?h))" using v by (auto simp: valid_range_def)
  from finish_part_run [OF c(1,2) this] l show ?thesis
    unfolding createAssociateRequest_emits [OF c(1,3) p pw refl refl refl] client_aarq_def aarq_header by auto
qed

section \<open>Properties: round trips\<close>

lemma message_contents:
  assumes "bb_wf m" and "bb_bytes m = tlv tag body" and "length body \<le> 65535"
  shows "decodeTL (bb_buffer m) 0 (bb_size m) = Some (Some (tag, bb_size m - int (length body), int (length body)))"
    and "holds (bb_buffer m) (bb_size m - int (length body)) body"
    and "2 \<le> bb_size m - int (length body)" and "bb_size m < 2 ^ 24" and "1 \<le> bb_size m"
proof -
  have h: "holds (bb_buffer m) 0 (tlv tag body)" using holds_bb_bytes [OF assms(1,2)] .
  have e: "bb_size m = int (length (tlv tag body))" using bb_bytes_length [OF assms(1)] assms(2) by simp
  then show "decodeTL (bb_buffer m) 0 (bb_size m) = Some (Some (tag, bb_size m - int (length body), int (length body)))"
    "holds (bb_buffer m) (bb_size m - int (length body)) body" "2 \<le> bb_size m - int (length body)" "bb_size m < 2 ^ 24" "1 \<le> bb_size m"
    using decodeTL_tlv [OF h, of "bb_size m"] length_tlv_le [of body tag] assms(3) by simp_all
qed

text \<open>What the callback of the server is asked to judge.\<close>

definition offered_credentials ::
  "(nat \<Rightarrow> byte list option) \<Rightarrow> ('par, 'tok) AcseConnection \<Rightarrow> byte list option \<Rightarrow> AcseAuthenticationParameter" where
  "offered_credentials cert self pw = (case pw of
     Some xs \<Rightarrow> \<lparr>mechanism = ACSE_AUTH_PASSWORD, auth_octets = Some xs, auth_length = int (length xs)\<rparr>
   | None \<Rightarrow> (case Option.bind (ac_tlsSocket self) cert of
       None \<Rightarrow> \<lparr>mechanism = ACSE_AUTH_NONE, auth_octets = None, auth_length = 0\<rparr>
     | Some c \<Rightarrow> \<lparr>mechanism = ACSE_AUTH_TLS, auth_octets = Some c, auth_length = int (length c)\<rparr>))"

definition verdict ::
  "(nat \<Rightarrow> byte list option) \<Rightarrow> byte list option \<Rightarrow> ('par, 'tok) AcseConnection \<Rightarrow> bool \<times> ('par, 'tok) AcseConnection" where
  "verdict cert pw self = (case authenticator self of
     None \<Rightarrow> (True, self\<lparr>securityToken := None\<rparr>)
   | Some f \<Rightarrow> (case f (authenticatorParameter self) (offered_credentials cert self pw) (applicationReference self) of
       (accepted, token, reference) \<Rightarrow> (accepted, self\<lparr>securityToken := token, applicationReference := reference\<rparr>)))"

lemma octets_at_list: "octets_at (xs, 0) (int (length xs)) = xs"
  by (simp add: octets_at_def)

lemma checkAuthentication_verdict:
  assumes "credentials_seen pw v"
  shows "checkAuthentication cert self (authMechanism v) (authMechLen v) (authValue v) (authValueLen v) = Some (verdict cert pw self)"
proof (cases pw)
  case None
  then show ?thesis using assms
    by (auto simp: credentials_seen_def checkAuthentication_def checkAuthMechanismName_def authenticateClient_def verdict_def offered_credentials_def
        octets_at_list Let_def split: option.splits prod.splits)
next
  case (Some xs)
  then obtain mech val where v: "authMechanism v = Some mech" "authMechLen v = 3" "holds mech 0 auth_mech_password_oid"
      "authValue v = Some val" "authValueLen v = int (length xs)" "holds val 0 xs"
    using assms by (auto simp: credentials_seen_def)
  have "rdn mech 0 3 = Some auth_mech_password_oid" using v(3) by (simp add: holds_def auth_mech_password_oid_def numeral_3_eq_3)
  moreover have "octets_at val (int (length xs)) = xs" using holds_octets_at [of val 0 xs] v(6) by simp
  ultimately show ?thesis using v Some
    by (auto simp: checkAuthentication_def checkAuthMechanismName_def authenticateClient_def verdict_def offered_credentials_def Let_def
        split: option.splits prod.splits)
qed

text \<open>The server reads the request of a client.\<close>

definition request_seen ::
  "'tls IsoConnectionParameters \<Rightarrow> int \<Rightarrow> ptr \<Rightarrow> ('par, 'tok) AcseConnection \<Rightarrow> ('par, 'tok) AcseConnection" where
  "request_seen p n d peer = peer\<lparr>nextReference := 3, userDataBufferSize := n, userDataBuffer := Some d,
     applicationReference := received_title (take (nat (localApTitleLen p)) (localApTitle p)) (localAEQualifier p) (applicationReference peer)\<rparr>"

lemma aarq_read:
  assumes m: "bb_wf m" "bb_bytes m = client_aarq p pw xs" and p: "params_ok p" and pw: "pred_option (\<lambda>ys. length ys \<le> 512) pw"
    and xs: "xs \<noteq> []" "length xs \<le> 64000"
  shows "\<exists>d r. valid_range d 0 (int (length xs)) \<and> octets_at d (int (length xs)) = xs \<and>
    r = verdict cert pw (request_seen p (int (length xs)) d peer) \<and>
    AcseConnection_parseMessage cert peer (Some m) = Some (if fst r then ACSE_ASSOCIATE else ACSE_ASSOCIATE_FAILED, snd r)"
proof -
  let ?called = "take (nat (remoteApTitleLen p)) (remoteApTitle p)" and ?calling = "take (nat (localApTitleLen p)) (localApTitle p)"
  let ?body = "aarq_body ?called (remoteAEQualifier p) ?calling (localAEQualifier p) pw xs"
    and ?d = "padd (bb_buffer m) (bb_size m - int (length xs))"
  have t: "length ?called \<le> 10" "length ?calling \<le> 10" using p by (auto simp: params_ok_def)
  have small: "length ?body \<le> 65535"
    using user_information_lengths(6) [of xs "[3]"] xs(2) pw length_password_octets_le [of pw]
      length_title_octets_le [OF t(1), of "0xa2" "0xa3" "remoteAEQualifier p"] length_title_octets_le [OF t(2), of "0xa6" "0xa7" "localAEQualifier p"]
    by (auto simp: aarq_body_def split: option.splits)
  note b = message_contents [OF m(1) m(2) [unfolded client_aarq_def aarq_def] small]
  obtain v where v: "parseAarq_loop peer (bb_buffer m) (bb_size m) no_locals (bb_size m - int (length ?body)) =
      Some (Some v, received_user_data (bb_buffer m) (bb_size m) [3] xs
        (peer\<lparr>applicationReference := received_title ?calling (localAEQualifier p) (applicationReference peer)\<rparr>))"
      "credentials_seen pw v" "userInfoValid v"
    using aarq_body_reads [OF b(2) _ _ b(4) t xs(1), of peer] b(3) by auto
  define s where "s = request_seen p (int (length xs)) ?d peer"
  have s: "received_user_data (bb_buffer m) (bb_size m) [3] xs
      (peer\<lparr>applicationReference := received_title ?calling (localAEQualifier p) (applicationReference peer)\<rparr>) = s"
    by (simp add: received_user_data_def request_seen_def s_def be_uint_Cons)
  have l: "length xs \<le> length ?body" by (simp add: aarq_body_def ui_header)
  have "holds (bb_buffer m) (bb_size m - int (length xs)) xs"
    using b(2) by (simp add: aarq_body_def ui_header algebra_simps)
  from holds_octets_at [OF this] show ?thesis
    using v(1,3) b(1,3,5) l checkAuthentication_verdict [OF v(2), of cert s] bb_wf_range [OF m(1)]
    unfolding s
    by (intro exI [of _ ?d] exI [of _ "verdict cert pw s"] conjI)
      (auto simp: s_def [symmetric] AcseConnection_parseMessage_def parseAarqPdu_def no_locals_def [symmetric] valid_range_def split: prod.splits)
qed

text \<open>
  C27: An association request is created and read back by the server. The server learns the title
  and qualifier of the client, the reference 3 and the payload; it reports an association exactly
  when it has no authenticator or its authenticator accepts the password, or the TLS certificate
  of the peer, or the absence of credentials, and it keeps the security token of the authenticator.
\<close>

theorem acse_request_roundtrip:
  assumes "chain_wf payload" and "0 < bc_partLength payload" and "bc_length payload \<le> 64000" and "params_ok p"
    and "pred_option (\<lambda>xs. length xs \<le> 512) pw" and "valid_range (bc_buffer wb) 0 632"
  shows "\<exists>chain. AcseConnection_createAssociateRequestMessage le self p wb payload (password_auth pw) = Some chain \<and> chain_wf chain \<and>
    (\<forall>m peer. bb_wf m \<longrightarrow> bb_bytes m = chain_bytes chain \<longrightarrow> (\<exists>d r. octets_at d (bc_length payload) = chain_bytes payload \<and>
      r = verdict cert pw (peer\<lparr>nextReference := 3, userDataBufferSize := bc_length payload, userDataBuffer := Some d,
        applicationReference := received_title (take (nat (localApTitleLen p)) (localApTitle p)) (localAEQualifier p) (applicationReference peer)\<rparr>) \<and>
      AcseConnection_parseMessage cert peer (Some m) = Some (if fst r then ACSE_ASSOCIATE else ACSE_ASSOCIATE_FAILED, snd r)))"
proof -
  let ?xs = "chain_bytes payload"
  obtain chain where c: "AcseConnection_createAssociateRequestMessage le self p wb payload (password_auth pw) = Some chain" "chain_wf chain"
      "chain_bytes chain = client_aarq p pw ?xs"
    using createAssociateRequest_run [OF assms(1-6), of le self] by auto
  have xs: "?xs \<noteq> []" "bc_length payload = int (length ?xs)" using chain_nonempty [OF assms(1,2)] chain_length [OF assms(1)] by auto
  show ?thesis
    apply (rule exI [of _ chain], intro conjI allI impI)
    subgoal by (rule c(1))
    subgoal by (rule c(2))
    subgoal premises m for m peer
      using aarq_read [OF m(1) trans [OF m(2) c(3)] assms(4,5) xs(1), of cert peer] assms(3) xs(2) by (auto simp: request_seen_def)
    done
qed

text \<open>A response is read the same way by every connection, whatever its authenticator.\<close>

lemma aare_read:
  assumes "bb_wf m" and "bb_bytes m = aare res ref xs" and "ref \<noteq> []" "length ref \<le> 5" and "xs \<noteq> []" and "length xs \<le> 64000"
  shows "\<exists>d. valid_range d 0 (int (length xs)) \<and> octets_at d (int (length xs)) = xs \<and>
    AcseConnection_parseMessage cert peer (Some m) = Some (if res = 0 then ACSE_ASSOCIATE else ACSE_ASSOCIATE_FAILED,
      peer\<lparr>nextReference := uint (word_of_int (be_uint ref) :: 32 word), userDataBufferSize := int (length xs), userDataBuffer := Some d\<rparr>)"
proof -
  let ?body = "aare_body res ref xs" and ?d = "padd (bb_buffer m) (bb_size m - int (length xs))"
  have "length ?body \<le> 65535" using user_information_lengths(6) [OF assms(6,4)] by (simp add: aare_body_def tlv_short)
  note b = message_contents [OF assms(1) assms(2) [unfolded aare_def] this]
  have l: "length xs \<le> length ?body" by (simp add: aare_body_def ui_header)
  have "holds (bb_buffer m) (bb_size m - int (length xs)) xs" using b(2) by (simp add: aare_body_def ui_header algebra_simps)
  from holds_octets_at [OF this] show ?thesis
    using b aare_body_reads [OF b(2) _ _ b(4) assms(3,5), of peer] l bb_wf_range [OF assms(1)]
    by (intro exI [of _ ?d]) (auto simp: AcseConnection_parseMessage_def received_user_data_def valid_range_def)
qed

text \<open>
  C28: An association response is created and read back by the client, which reports the
  association exactly when the result code of the server is 0, and learns the reference of the
  server and the payload.
\<close>

theorem acse_response_roundtrip:
  assumes "chain_wf payload" and "0 < bc_partLength payload" and "bc_length payload \<le> 64000" and "valid_range (bc_buffer wb) 0 51"
  shows "\<exists>chain. AcseConnection_createAssociateResponseMessage le self res wb (Some payload) = Some chain \<and> chain_wf chain \<and>
    (\<forall>m peer. bb_wf m \<longrightarrow> bb_bytes m = chain_bytes chain \<longrightarrow> (\<exists>d. octets_at d (bc_length payload) = chain_bytes payload \<and>
      AcseConnection_parseMessage cert peer (Some m) = Some (if res = ACSE_RESULT_ACCEPT then ACSE_ASSOCIATE else ACSE_ASSOCIATE_FAILED,
        peer\<lparr>nextReference := uint (word_of_int (nextReference self) :: 32 word), userDataBufferSize := bc_length payload,
          userDataBuffer := Some d\<rparr>)))"
proof -
  let ?xs = "chain_bytes payload" and ?ref = "uint32_octets (word_of_int (nextReference self))"
  obtain chain where c: "AcseConnection_createAssociateResponseMessage le self res wb (Some payload) = Some chain" "chain_wf chain"
      "chain_bytes chain = aare res ?ref ?xs"
    using createAssociateResponse_run [OF assms, of le self res] by auto
  have xs: "?xs \<noteq> []" "bc_length payload = int (length ?xs)" using chain_nonempty [OF assms(1,2)] chain_length [OF assms(1)] by auto
  have ref: "be_uint ?ref = uint (word_of_int (nextReference self) :: 32 word)"
    using be_uint_nonneg [of ?ref] by (simp add: uint32_octets_value)
  show ?thesis
    apply (rule exI [of _ chain], intro conjI allI impI)
    subgoal by (rule c(1))
    subgoal by (rule c(2))
    subgoal premises m for m peer
      using aare_read [OF m(1) trans [OF m(2) c(3)] uint32_octets_len xs(1), of cert peer] assms(3) xs(2) ref
      by (auto simp: ACSE_RESULT_ACCEPT_def)
    done
qed

text \<open>
  C30: The release request, the release response and the abort messages are recognised by the peer.
\<close>

theorem acse_release_roundtrip:
  assumes "valid_range (bc_buffer wb) 0 5"
    and "(create, ind) \<in> {(AcseConnection_createReleaseRequestMessage self wb, ACSE_RELEASE_REQUEST),
      (AcseConnection_createReleaseResponseMessage self wb, ACSE_RELEASE_RESPONSE),
      (AcseConnection_createAbortMessage self wb isProvider, ACSE_ABORT)}"
  shows "\<exists>chain. create = Some chain \<and> chain_wf chain \<and>
    (\<forall>m peer. bb_wf m \<longrightarrow> bb_bytes m = chain_bytes chain \<longrightarrow> AcseConnection_parseMessage cert peer (Some m) = Some (ind, peer))"
proof -
  have run: "\<exists>chain. single_part xs wb = Some chain \<and> chain_wf chain \<and> chain_bytes chain = xs" if "length xs \<le> 5" for xs
  proof -
    have "valid_range (bc_buffer wb) 0 (int (length xs))" using assms(1) that by (auto simp: valid_range_def)
    then show ?thesis using emit_valid [of "bc_buffer wb" 0 xs]
      by (auto simp: single_part_def octets_at_store valid_range_store)
  qed
  have read: "AcseConnection_parseMessage cert peer (Some m) = Some (i, peer)"
    if "bb_wf m" "bb_bytes m = tlv tag body" "length body \<le> 3"
      "(tag, i) \<in> {(0x62, ACSE_RELEASE_REQUEST), (0x63, ACSE_RELEASE_RESPONSE), (0x64, ACSE_ABORT)}" for m peer tag body i
    using message_contents(1,5) [OF that(1,2)] that(3,4) by (auto simp: AcseConnection_parseMessage_def)
  have tlvs: "tlv 0x62 [0x80, 1, 0] = [0x62, 3, 0x80, 1, 0]" "tlv 0x63 [] = [0x63, 0]"
    "tlv 0x64 [0x80, 1, if isProvider then 1 else 0] = [0x64, 3, 0x80, 1, if isProvider then 1 else 0]"
    by (simp_all add: tlv_short)
  show ?thesis
    using assms(2) run [of "[0x62, 3, 0x80, 1, 0]"] run [of "[0x63, 0]"] run [of "[0x64, 3, 0x80, 1, if isProvider then 1 else 0]"]
      read [of _ "0x62" "[0x80, 1, 0]" ACSE_RELEASE_REQUEST] read [of _ "0x63" "[]" ACSE_RELEASE_RESPONSE]
      read [of _ "0x64" "[0x80, 1, if isProvider then 1 else 0]" ACSE_ABORT]
    unfolding tlvs
    by (auto simp: AcseConnection_createReleaseRequestMessage_def AcseConnection_createReleaseResponseMessage_def
        AcseConnection_createAbortMessage_def)
qed

section \<open>Properties: authentication\<close>

text \<open>The parsers leave the authenticator and its parameter alone.\<close>

definition same_authenticator :: "('par, 'tok) AcseConnection \<Rightarrow> ('par, 'tok) AcseConnection \<Rightarrow> bool" where
  "same_authenticator s t \<longleftrightarrow> authenticator t = authenticator s \<and> authenticatorParameter t = authenticatorParameter s"

lemma parseUserInformation_loop_authenticator:
  assumes "parseUserInformation_loop self buffer maxBufPos a b p = Some y"
  shows "same_authenticator self (snd (snd y))"
proof (rule parseUserInformation_loop.raw_induct [of "\<lambda>self _ _ _ _ _ y. same_authenticator self (snd (snd y))", OF _ assms], goal_cases)
  case (1 loop self buffer maxBufPos a b p y)
  note ih = 1(1)
  from 1(2) show ?case
    by (auto simp: same_authenticator_def bind_eq_Some_conv split: if_splits dest!: ih)
qed

lemma parseAarq_element_authenticator:
  "parseAarq_element self buffer maxBufPos v tag len p = Some (r, self') \<Longrightarrow> same_authenticator self self'"
  by (auto simp: parseAarq_element_def parse_callingApTitle_def parse_callingAEQualifier_def parseUserInformation_def same_authenticator_def
      bind_eq_Some_conv split: if_splits option.splits dest!: parseUserInformation_loop_authenticator)

lemma same_authenticator_trans: "same_authenticator s t \<Longrightarrow> same_authenticator t u \<Longrightarrow> same_authenticator s u"
  by (simp add: same_authenticator_def)

lemma parseAarq_loop_authenticator:
  assumes "parseAarq_loop self buffer maxBufPos v p = Some y"
  shows "same_authenticator self (snd y)"
proof (rule parseAarq_loop.raw_induct [of "\<lambda>self _ _ _ _ y. same_authenticator self (snd y)", OF _ assms], goal_cases)
  case (1 loop self buffer maxBufPos v p y)
  note ih = 1(1) and run = 1(2)
  have refl: "same_authenticator self self" by (simp add: same_authenticator_def)
  show ?case
  proof (cases "p < maxBufPos \<and> (\<exists>tl. decodeTL buffer p maxBufPos = Some (Some tl))")
    case True
    then obtain tag q len where tl: "decodeTL buffer p maxBufPos = Some (Some (tag, q, len))" "p < maxBufPos" by auto
    show ?thesis
    proof (cases "len = 0 \<or> q + len > maxBufPos")
      case False
      then obtain r t where r: "parseAarq_element self buffer maxBufPos v tag len q = Some (r, t)"
          "(case r of None \<Rightarrow> Some (None, t) | Some (v, p) \<Rightarrow> loop t buffer maxBufPos v p) = Some y"
        using run tl by (auto simp: bind_eq_Some_conv)
      then show ?thesis using parseAarq_element_authenticator [OF r(1)]
        by (auto split: option.splits intro: same_authenticator_trans ih)
    qed (use run tl refl in \<open>auto split: if_splits intro: ih\<close>)
  qed (use run refl in \<open>auto simp: bind_eq_Some_conv split: if_splits option.splits\<close>)
qed

lemma checkAuthentication_accepts:
  assumes "authenticator self = Some f" and "checkAuthentication cert self mech mechLen val valLen = Some (True, self')"
  shows "\<exists>a r. f (authenticatorParameter self) a r = (True, securityToken self', applicationReference self')"
proof -
  have client: "\<exists>a r. f (authenticatorParameter self) a r = (True, securityToken self', applicationReference self')"
    if "authenticateClient (self\<lparr>securityToken := None\<rparr>) m v n = Some (True, self')" for m v n
    using that assms(1) by (auto simp: authenticateClient_def Let_def split: prod.splits) blast
  show ?thesis using assms
    by (auto simp: checkAuthentication_def Let_def bind_eq_Some_conv dest!: client split: option.splits)
qed


section \<open>Properties: defects\<close>

text \<open>
  A message of 99 octets that makes the parser of the user information run in circles: the
  association data ends with the octet \<open>0x81\<close>, which announces one length octet that is not there.
  The decoder then returns the position -1 and has stored the length 0, so the loop continues at
  position -1; there it takes the first octet of the message, \<open>0x60\<close>, for a length of 96 and
  arrives where it has been.
\<close>

definition circular_request :: "byte list \<Rightarrow> byte list" where
  "circular_request filler = [0x60, 97, 0x80, 89] @ filler @ [0xbe, 4, 0x28, 2, 0x02, 0x81]"

lemma truncated_length:
  assumes "rd buffer p = Some 0x81"
  shows "BerDecoder_decodeLength buffer p (p + 1) = Some (- 1, Some 0)"
proof -
  have "unat ((0x81 :: byte) AND 0x7f) = Suc 0" "(0x81 :: byte) AND 0x7f \<noteq> 0" "(0x81 :: byte) AND 0x80 \<noteq> 0" by simp_all
  then show ?thesis using assms by (simp add: BerDecoder_decodeLength_def BerDecoder_decodeLengthRecursive.simps Let_def)
qed

lemma length_at_start:
  assumes "rd buffer 0 = Some 0x60"
  shows "BerDecoder_decodeLength buffer 0 99 = Some (1, Some 96)"
  using assms by (simp add: BerDecoder_decodeLength_def BerDecoder_decodeLengthRecursive.simps decodeLength_check_def i32_def)

lemma circular_loop:
  assumes "rd buffer 97 = Some 0x02" and "rd buffer 98 = Some 0x81" and "rd buffer 0 = Some 0x60"
  shows "parseUserInformation_loop self buffer 99 a b 97 = None"
proof -
  have "\<not> (buf = buffer \<and> e = 99 \<and> p \<in> {97, -1})" if "parseUserInformation_loop self buf e a b p = Some y" for self buf e a b p and y
  proof (rule parseUserInformation_loop.raw_induct [of "\<lambda>_ buf e _ _ p _. \<not> (buf = buffer \<and> e = 99 \<and> p \<in> {97, -1})", OF _ that], goal_cases)
    case (1 loop self buf e a b p y)
    note ih = 1(1) and run = 1(2)
    show ?case
    proof
      assume at: "buf = buffer \<and> e = 99 \<and> p \<in> {97, - 1}"
      then consider "p = 97" | "p = - 1" by auto
      then show False
      proof cases
        case 1
        then have "loop self buffer 99 a b (- 1) = Some y" using run at assms truncated_length [of buffer 98] by simp
        from ih [OF this] show False by simp
      next
        case 2
        then have "\<exists>self' a' b'. loop self' buffer 99 a' b' 97 = Some y"
          using run at length_at_start [OF assms(3)] by (auto simp: bind_eq_Some_conv split: if_splits)
        then show False using ih by fastforce
      qed
    qed
  qed
  then show ?thesis by fastforce
qed

text \<open>
  A request of 99 octets makes the server parse for ever (or read in front of the message, if
  there is nothing in front of it): the parser never returns, before any authentication.
\<close>

theorem acse_circular_request:
  assumes "bb_wf m" and "bb_bytes m = circular_request filler" and "length filler = 89"
  shows "AcseConnection_parseMessage cert server (Some m) = None"
proof -
  let ?b = "bb_buffer m" and ?body = "tlv 0x80 filler @ tlv 0xbe (tlv 0x28 [0x02, 0x81])"
  have body: "bb_bytes m = tlv 0x60 ?body" "length ?body = 97" using assms(2,3) by (simp_all add: circular_request_def tlv_short)
  have sz: "bb_size m = 99" using bb_bytes_length [OF assms(1)] body by (simp add: tlv_short)
  have d: "decodeTL ?b 0 99 = Some (Some (0x60, 2, 97))" "holds ?b 2 ?body"
    using message_contents(1,2) [OF assms(1) body(1), unfolded body(2) sz] by simp_all
  have h: "holds ?b 2 (tlv 0x80 filler)" "holds ?b 93 (tlv 0xbe (tlv 0x28 [0x02, 0x81]))" "holds ?b 95 (tlv 0x28 [0x02, 0x81])"
    using d(2) assms(3) by (simp_all add: tlv_short)
  have start: "rd ?b 0 = Some 0x60" using d(1) by (auto simp: decodeTL_def bind_eq_Some_conv split: option.splits)
  have ui: "parseAarq_element server ?b 99 no_locals 0xbe 4 95 = None"
    using decodeLength_tlv [OF h(3), of 99] h(3) circular_loop [OF _ _ start, of server False False]
    by (simp add: parseAarq_element_def parseUserInformation_def tlv_short)
  have "parseAarq_loop server ?b 99 no_locals 2 = parseAarq_loop server ?b 99 no_locals 93"
    by (rule aarq_skip [OF h(1)]) (use assms(3) in \<open>auto simp: tlv_short\<close>)
  also have "\<dots> = None"
    using decodeTL_tlv(1) [OF h(2), of 99] ui by (subst parseAarq_loop.simps) (simp add: tlv_short)
  finally show ?thesis
    using d(1) sz by (simp add: AcseConnection_parseMessage_def parseAarqPdu_def no_locals_def)
qed

text \<open>
  A client that is configured with an authentication parameter other than a password sends a
  request whose outer length is seven octets too large, and every server rejects it as malformed.
\<close>

theorem acse_other_mechanism_rejected:
  assumes "chain_wf payload" and "0 < bc_partLength payload" and "bc_length payload \<le> 64000" and "params_ok p"
    and "mechanism a \<noteq> ACSE_AUTH_PASSWORD" and "valid_range (bc_buffer wb) 0 120"
  shows "\<exists>chain. AcseConnection_createAssociateRequestMessage le self p wb payload (Some a) = Some chain \<and> chain_wf chain \<and>
    (\<forall>m peer. bb_wf m \<longrightarrow> bb_bytes m = chain_bytes chain \<longrightarrow> AcseConnection_parseMessage cert peer (Some m) = Some (ACSE_ERROR, peer))"
proof -
  let ?xs = "chain_bytes payload" and ?called = "take (nat (remoteApTitleLen p)) (remoteApTitle p)" and ?calling = "take (nat (localApTitleLen p)) (localApTitle p)"
  let ?t1 = "title_octets 0xa2 0xa3 ?called (remoteAEQualifier p)" and ?t2 = "title_octets 0xa6 0xa7 ?calling (localAEQualifier p)"
  define n where "n = int (length (aarq_body ?called (remoteAEQualifier p) ?calling (localAEQualifier p) None ?xs)) + 11"
  let ?rest = "app_context @ ?t1 @ ?t2 @ [0x8a, 2, 0x04, 0]"
  let ?h = "tl_octets 0x60 n @ app_context @ ?t1 @ ?t2 @ [0x8a, 2, 0x04, 0] @ ui_header [3] ?xs"
  have auth: "auth_length_of (Some a) = (11, 0, 0)" "write_auth (Some a) 0 0 = emit [0x8a, 2, 0x04, 0]"
    using assms(5) by (auto simp: auth_length_of_def write_auth_def encodeTL_num emit_single emit_fuse emit_fuse_bind simp del: emit.simps)
  note e = createAssociateRequest_emits_gen [OF assms(1,3,4) auth _ _ refl refl refl, simplified, of le self wb, folded n_def]
  have t: "length ?t1 \<le> 23" "length ?t2 \<le> 23" "length (ui_header [3] ?xs) \<le> 21" "length (tl_octets 0x60 n) \<le> 5"
    using assms(4) length_user_information_le(1) [of "[3]" ?xs] length_tl_octets_le(1)
    by (auto simp: params_ok_def ui_header intro!: length_title_octets_le)
  then have "length ?h \<le> 120" by simp
  then have "valid_range (bc_buffer wb) 0 (int (length ?h))" using assms(6) by (auto simp: valid_range_def)
  from finish_part_run [OF assms(1,2) this] obtain chain where
    c: "AcseConnection_createAssociateRequestMessage le self p wb payload (Some a) = Some chain" "chain_wf chain" "chain_bytes chain = ?h @ ?xs"
    unfolding e by auto
  have len: "length ?xs \<le> 64000" "n = int (length (?rest @ user_information [3] ?xs)) + 7" "length (user_information [3] ?xs) \<le> 64021"
    using chain_length [OF assms(1)] assms(3) length_user_information_le(1) [of "[3]" ?xs] by (simp_all add: n_def aarq_body_def password_octets_def)
  show ?thesis
    apply (rule exI [of _ chain], intro conjI allI impI)
    subgoal by (rule c(1))
    subgoal by (rule c(2))
    subgoal premises m for m peer
    proof -
      have b: "bb_bytes m = tl_octets 0x60 n @ ?rest @ user_information [3] ?xs" using m(2) c(3) by (simp add: ui_header)
      then have sz: "bb_size m = int (length (tl_octets 0x60 n)) + n - 7" using bb_bytes_length [OF m(1)] len(2) by simp
      have "holds (bb_buffer m) 0 (tl_octets 0x60 n)" using holds_bb_bytes [OF m(1) b] by simp
      moreover have "7 \<le> n" unfolding len(2) by simp
      moreover have "n < 65535" using len(3) t(1,2) unfolding len(2) by simp
      moreover have "2 \<le> length (tl_octets 0x60 n)" by (rule length_tl_octets_le(2))
      ultimately have "decodeTL (bb_buffer m) 0 (bb_size m) = Some None"
        using m(1) sz t(4) by (intro decodeTL_too_long [of _ _ "0x60" n]) (auto simp: bb_wf_def valid_range_def)
      then show ?thesis by (simp add: AcseConnection_parseMessage_def)
    qed
    done
qed

section \<open>Examples\<close>

definition example_acse :: "((unit, unit) AcseAuthenticator) option \<Rightarrow> (unit, unit) AcseConnection" where
  "example_acse auth = AcseConnection_init \<lparr>ac_state = idle, nextReference = 0, userDataBuffer = None, userDataBufferSize = 0,
     ac_authentication = None, authenticator = None, applicationReference = \<lparr>apTitle = \<lparr>arc = [], arcCount = 0\<rparr>, aeQualifier = 0\<rparr>,
     authenticatorParameter = (), securityToken = None, ac_tlsSocket = None\<rparr> auth () None"

text \<open>An authenticator that accepts one password.\<close>

definition password_check :: "byte list \<Rightarrow> (unit, unit) AcseAuthenticator" where
  "password_check secret _ a r = (mechanism a = ACSE_AUTH_PASSWORD \<and> auth_octets a = Some secret, Some (), r)"

theorem acse_request_roundtrip_witness:
  "\<exists>chain s t. AcseConnection_createAssociateRequestMessage True (example_acse None) (IsoConnectionParameters_create :: unit IsoConnectionParameters)
      example_part example_payload (password_auth (Some [1, 2])) = Some chain \<and>
    AcseConnection_parseMessage (\<lambda>_. None) (example_acse (Some (password_check [1, 2]))) (Some (message_of (chain_bytes chain))) = Some (ACSE_ASSOCIATE, s) \<and>
    AcseConnection_parseMessage (\<lambda>_. None) (example_acse (Some (password_check [1, 3]))) (Some (message_of (chain_bytes chain))) =
      Some (ACSE_ASSOCIATE_FAILED, t) \<and> nextReference s = 3 \<and> nextReference t = 3"
proof -
  let ?p = "IsoConnectionParameters_create :: unit IsoConnectionParameters"
  have m: "bb_wf (message_of xs)" "bb_bytes (message_of xs) = xs" for xs by simp_all
  obtain chain where c: "AcseConnection_createAssociateRequestMessage True (example_acse None) ?p example_part example_payload (password_auth (Some [1, 2])) = Some chain"
      "\<And>m peer. bb_wf m \<Longrightarrow> bb_bytes m = chain_bytes chain \<Longrightarrow> \<exists>d r. octets_at d 3 = [0x31, 0x32, 0x33] \<and>
        r = verdict (\<lambda>_. None) (Some [1, 2]) (peer\<lparr>nextReference := 3, userDataBufferSize := 3, userDataBuffer := Some d,
          applicationReference := received_title (take (nat (localApTitleLen ?p)) (localApTitle ?p)) (localAEQualifier ?p) (applicationReference peer)\<rparr>) \<and>
        AcseConnection_parseMessage (\<lambda>_. None) (peer :: (unit, unit) AcseConnection) (Some m) =
          Some (if fst r then ACSE_ASSOCIATE else ACSE_ASSOCIATE_FAILED, snd r)"
    using acse_request_roundtrip [of example_payload ?p "Some [1, 2]" example_part True "example_acse None" "\<lambda>_. None"] by auto
  have "fst (verdict (\<lambda>_. None) (Some [1, 2]) (s\<lparr>authenticator := Some (password_check k)\<rparr>)) = (k = [1, 2])"
    "nextReference (snd (verdict (\<lambda>_. None) (Some [1, 2]) (s\<lparr>authenticator := Some (password_check k)\<rparr>))) = nextReference s" for k s
    by (auto simp: verdict_def offered_credentials_def password_check_def)
  then show ?thesis
    using c(1) c(2) [OF m, of "example_acse (Some (password_check [1, 2]))"] c(2) [OF m, of "example_acse (Some (password_check [1, 3]))"]
    by (auto simp: example_acse_def AcseConnection_init_def verdict_def offered_credentials_def password_check_def)
qed

theorem acse_response_roundtrip_witness:
  "\<exists>chain s. AcseConnection_createAssociateResponseMessage True (example_acse None) ACSE_RESULT_ACCEPT example_part (Some example_payload) = Some chain \<and>
    AcseConnection_parseMessage (\<lambda>_. None) (example_acse None) (Some (message_of (chain_bytes chain))) = Some (ACSE_ASSOCIATE, s) \<and>
    userDataBufferSize s = 3"
  using acse_response_roundtrip [of example_payload example_part True "example_acse None" ACSE_RESULT_ACCEPT "\<lambda>_. None"] message_of by (simp; fastforce)

theorem acse_release_roundtrip_witness:
  "\<exists>chain. AcseConnection_createReleaseRequestMessage (example_acse None) example_part = Some chain \<and>
    AcseConnection_parseMessage (\<lambda>_. None) (example_acse None) (Some (message_of (chain_bytes chain))) = Some (ACSE_RELEASE_REQUEST, example_acse None)"
  using acse_release_roundtrip [of example_part "AcseConnection_createReleaseRequestMessage (example_acse None) example_part" ACSE_RELEASE_REQUEST
      "example_acse None" False "\<lambda>_. None"] message_of by (simp; fastforce)


theorem acse_circular_request_witness:
  "AcseConnection_parseMessage (\<lambda>_. None) (example_acse None) (Some (message_of (circular_request (replicate 89 0)))) = None"
  by (rule acse_circular_request [of _ "replicate 89 0"]) (simp_all only: message_of length_replicate)

theorem acse_other_mechanism_rejected_witness:
  "\<exists>chain. AcseConnection_createAssociateRequestMessage True (example_acse None) (IsoConnectionParameters_create :: unit IsoConnectionParameters)
      example_part example_payload (Some AcseAuthenticationParameter_create) = Some chain \<and>
    AcseConnection_parseMessage (\<lambda>_. None) (example_acse None) (Some (message_of (chain_bytes chain))) = Some (ACSE_ERROR, example_acse None)"
  using acse_other_mechanism_rejected [of example_payload "IsoConnectionParameters_create :: unit IsoConnectionParameters"
      AcseAuthenticationParameter_create example_part True "example_acse None" "\<lambda>_. None"] message_of
  by (simp add: AcseAuthenticationParameter_create_def; fastforce)

end
