(* ===== verification/Iso_Connection_Props.thy ===== *)
theory Iso_Connection_Props
  imports Iso_Connection Iso_Presentation_Props Acse_Props
begin

text \<open>
  Properties of a connection of the server: what it does with the request of a client that wants to
  associate, with data, and what becomes of it when it is closed.
\<close>

declare split_paired_All [simp del] split_paired_Ex [simp del]

section \<open>Octets\<close>

text \<open>The messages that travel: data, the request for an association and its acceptance.\<close>

definition data_octets :: "byte \<Rightarrow> byte list \<Rightarrow> byte list" where
  "data_octets ctx xs = dataSpdu @ user_data ctx xs"

definition connect_octets :: "'tls IsoConnectionParameters \<Rightarrow> byte list option \<Rightarrow> 16 word \<Rightarrow> byte list \<Rightarrow> byte list" where
  "connect_octets p pw r xs = spdu 13 (connect_params (localSSelector p) (remoteSSelector p) r)
     (cp_type (normal_cp (sel_bytes (localPSelector p)) (sel_bytes (remotePSelector p)) (user_data 1 (client_aarq p pw xs))))"

definition accept_octets :: "byte \<Rightarrow> SSelector \<Rightarrow> 16 word \<Rightarrow> byte \<Rightarrow> byte list \<Rightarrow> byte list \<Rightarrow> byte list" where
  "accept_octets options called r ctx ref ys =
     spdu 14 (accept_params options called r) (cp_type (normal_cpa (user_data ctx (aare 0 ref ys))))"

section \<open>Contracts\<close>

text \<open>
  What the connection expects of the MMS layer: a handler that implements the abstract server \<open>srv\<close>
  reads the request and puts the response, if the buffer has room for it, into the buffer.
\<close>

definition implements :: "'h MessageReceivedHandler \<Rightarrow> ('h \<Rightarrow> byte list \<Rightarrow> 'h \<times> byte list) \<Rightarrow> bool" where
  "implements f srv \<longleftrightarrow> (\<forall>h req resp. bb_wf req \<longrightarrow> bb_wf resp \<longrightarrow> bb_size resp = 0 \<longrightarrow>
     int (length (snd (srv h (bb_bytes req)))) \<le> bb_maxSize resp \<longrightarrow>
     (\<exists>resp'. f h req resp = Some (fst (srv h (bb_bytes req)), resp') \<and> bb_wf resp' \<and>
        bb_maxSize resp' = bb_maxSize resp \<and> bb_bytes resp' = snd (srv h (bb_bytes req))))"

text \<open>A transport connection that can take a message of \<open>n\<close> octets, with fragments of \<open>2 ^ e - 3\<close> octets.\<close>

definition can_send :: "nat \<Rightarrow> int \<Rightarrow> CotpConnection \<Rightarrow> bool" where
  "can_send e n cotp \<longleftrightarrow> ext_ok cotp \<and> uint (tpduSize (cc_options cotp)) = int e \<and> 2 \<le> e \<and> e \<le> 13 \<and> wb_ok (2 ^ e + 4) cotp \<and>
     cc_socketExtensionBuffer cotp \<noteq> None \<and>
     cc_socketExtensionBufferFill cotp + 7 * fragment_count n (2 ^ e - 3) + n \<le> cc_socketExtensionBufferSize cotp"

definition layers_ok :: "'w IsoEnv \<Rightarrow> ('par, 'tok) IsoLayers \<Rightarrow> bool" where
  "layers_ok env l \<longleftrightarrow> session_ok (il_session l) \<and> pres_ok (il_presentation l) \<and> bb_wf (cc_payload (il_cotp l)) \<and>
     0 \<le> env_maxPdu env \<and> valid_range (il_sendBuffer l) 0 (SEND_BUF_SIZE env)"

definition env_ok :: "('w \<Rightarrow> byte list) \<Rightarrow> ('w \<Rightarrow> byte list) \<Rightarrow> ('w, 'e) IsoEnv_scheme \<Rightarrow> bool" where
  "env_ok wire inbox env \<longleftrightarrow> bytebuffer_ok (env_bb env) \<and> socket_ok wire inbox (env_net env) \<and> never_fails (env_net env)"

text \<open>The layers when a message has been reassembled.\<close>

definition server_received :: "('par, 'tok) IsoLayers \<Rightarrow> ByteBuffer \<Rightarrow> ('par, 'tok) IsoLayers" where
  "server_received l m = l\<lparr>il_cotp := (il_cotp l)\<lparr>cc_payload := m\<rparr>\<rparr>"

text \<open>The octets that have left a connection or wait in it have grown by the packets of a message.\<close>

definition transmitted :: "('w \<Rightarrow> byte list) \<Rightarrow> nat \<Rightarrow> CotpConnection \<Rightarrow> 'w \<Rightarrow> CotpConnection \<Rightarrow> 'w \<Rightarrow> byte list \<Rightarrow> bool" where
  "transmitted wire e cotp w cotp' w' msg \<longleftrightarrow>
     wire w' @ cotp_pending cotp' = wire w @ cotp_pending cotp @ tpkt_stream (2 ^ e - 3) msg"

section \<open>Lemmas\<close>

lemma wrap_ok: "bytebuffer_ok api \<Longrightarrow> ByteBuffer_wrap api p n m = \<lparr>bb_buffer = p, bb_size = n, bb_maxSize = m\<rparr>"
  by (simp add: bytebuffer_ok_def)

lemma fragment_count_mono:
  assumes "0 < m" and "n \<le> n'"
  shows "fragment_count n m \<le> fragment_count n' m"
proof (cases "m < n")
  case True
  have "n div m \<le> n' div m" using assms by (simp add: zdiv_mono1)
  moreover have "n div m < n' div m" if "n mod m \<noteq> 0" "n' mod m = 0"
  proof (rule ccontr)
    assume "\<not> n div m < n' div m"
    then have "n div m = n' div m" using \<open>n div m \<le> n' div m\<close> by simp
    then have "n - n mod m = n' - n' mod m" by (simp add: minus_mod_eq_mult_div)
    then show False using that assms pos_mod_sign [OF assms(1), of n] by linarith
  qed
  ultimately show ?thesis using True assms by (auto simp: fragment_count_def)
next
  case False
  then show ?thesis using fragment_count_pos [OF assms(1), of n'] by (simp add: fragment_count_def)
qed

lemma can_send_mono: "can_send e n cotp \<Longrightarrow> n' \<le> n \<Longrightarrow> can_send e n' cotp"
  using fragment_count_mono [of "2 ^ e - 3" n' n] power_increasing [of 2 e "2 :: int"] by (auto simp: can_send_def)

lemma server_received:
  "layers_ok env l \<Longrightarrow> bb_wf m \<Longrightarrow> layers_ok env (server_received l m)" "can_send e n (il_cotp (server_received l m)) = can_send e n (il_cotp l)"
  "cotp_pending (il_cotp (server_received l m)) = cotp_pending (il_cotp l)" "cc_payload (il_cotp (server_received l m)) = m"
  "il_presentation (server_received l m) = il_presentation l" "il_acse (server_received l m) = il_acse l"
  by (simp_all add: server_received_def layers_ok_def can_send_def ext_ok_def wb_ok_def cotp_pending_def split: option.splits)

lemma send_run:
  assumes env: "env_ok wire inbox env" and cotp: "can_send e n cotp"
    and c: "chain_wf chain" "bc_length chain \<le> n" "n < 2 ^ 27"
  shows "\<exists>cotp' w'. CotpConnection_sendDataMessage (env_bb env) (env_net env) cotp chain w = Some (COTP_OK, cotp', w') \<and>
    inbox w' = inbox w \<and> transmitted wire e cotp w cotp' w' (chain_bytes chain)"
proof -
  have ok: "can_send e (bc_length chain) cotp" using can_send_mono [OF cotp c(2)] .
  have "bc_length chain < 2 ^ 27" using c by simp
  from sendDataMessage_run [of "env_bb env" wire inbox "env_net env" cotp e chain w, OF _ _ _ _ _ _ _ c(1) this] ok env
  show ?thesis by (auto simp: can_send_def env_ok_def transmitted_def)
qed

lemma send_chain_run:
  assumes env: "env_ok wire inbox env" and cotp: "can_send e n (il_cotp l)"
    and c: "chain_wf chain" "bc_length chain \<le> n" "n < 2 ^ 27"
  shows "\<exists>cotp w'. send_chain env l chain w = Some (l\<lparr>il_cotp := cotp\<rparr>, w') \<and>
    transmitted wire e (il_cotp l) w cotp w' (chain_bytes chain)"
  using send_run [OF assms, of w] by (auto simp: send_chain_def)

lemma payload_part [simp]:
  "0 \<le> n \<Longrightarrow> valid_range p 0 n \<Longrightarrow> chain_wf (payload_part p n)" "bc_partLength (payload_part p n) = n"
  "bc_length (payload_part p n) = n" "chain_bytes (payload_part p n) = octets_at p n"
  by (simp_all add: payload_part_def)

lemma part_at [simp]: "bc_buffer (part_at m p n) = padd p n"
  by (simp add: part_at_def)

text \<open>The call of the handler, with an empty response buffer over the send buffer.\<close>

lemma call_handler_run:
  assumes api: "bytebuffer_ok api" and l: "layers_ok env l" and f: "msgRcvdHandler self = Some f" "implements f srv"
    and req: "bb_wf req" "bb_bytes req = xs" and srv: "srv (handlerParameter self) xs = (h', ys)" "int (length ys) \<le> SEND_BUF_SIZE env"
  shows "\<exists>buf. call_handler self req (ByteBuffer_wrap api (il_sendBuffer l) 0 (SEND_BUF_SIZE env)) =
      Some (self\<lparr>handlerParameter := h'\<rparr>, \<lparr>bb_buffer = buf, bb_size = int (length ys), bb_maxSize = SEND_BUF_SIZE env\<rparr>) \<and>
    octets_at buf (int (length ys)) = ys \<and> valid_range buf 0 (SEND_BUF_SIZE env)"
proof -
  let ?resp = "\<lparr>bb_buffer = il_sendBuffer l, bb_size = 0, bb_maxSize = SEND_BUF_SIZE env\<rparr>"
  have "bb_wf ?resp" using l by (simp add: bb_wf_def layers_ok_def SEND_BUF_SIZE_def)
  then obtain resp where r: "f (handlerParameter self) req ?resp = Some (h', resp)" "bb_wf resp" "bb_maxSize resp = SEND_BUF_SIZE env"
      "bb_bytes resp = ys"
    using f(2) [unfolded implements_def, rule_format, of req ?resp "handlerParameter self"] req srv by auto
  have sz: "bb_size resp = int (length ys)" using bb_bytes_length [OF r(2)] r(4) by simp
  obtain buf where resp: "resp = \<lparr>bb_buffer = buf, bb_size = int (length ys), bb_maxSize = SEND_BUF_SIZE env\<rparr>"
    using sz r(3) by (cases resp) simp
  show ?thesis using r f(1) resp
    by (auto simp: call_handler_def wrap_ok [OF api] bb_wf_def bb_bytes_def)
qed

text \<open>A payload becomes a data message.\<close>

lemma length_data_octets: "length (data_octets ctx xs) \<le> length xs + 22"
  using length_user_data_le(1) [of ctx xs] by (simp add: data_octets_def dataSpdu_def)

lemma data_chain:
  assumes "valid_range p 0 (int (length ys))" and "octets_at p (int (length ys)) = ys" and "ys \<noteq> []" and "length ys \<le> 65000"
    and "valid_range (bc_buffer wb) 0 18"
  shows "\<exists>part. IsoPresentation_createUserData pres wb (payload_part p (int (length ys))) = Some part \<and>
    (\<forall>b. chain_wf (IsoSession_createDataSpdu b part) \<and> bc_length (IsoSession_createDataSpdu b part) = int (length (data_octets (mmsContextId pres) ys)) \<and>
      chain_bytes (IsoSession_createDataSpdu b part) = data_octets (mmsContextId pres) ys)"
proof -
  have c: "chain_wf (payload_part p (int (length ys)))" "0 < bc_partLength (payload_part p (int (length ys)))"
    "bc_length (payload_part p (int (length ys))) \<le> 65000" using assms by simp_all
  obtain part where part: "create_user_data (mmsContextId pres) wb (payload_part p (int (length ys))) = Some part" "chain_wf part"
      "0 < bc_partLength part" "chain_bytes part = user_data (mmsContextId pres) ys"
    using create_user_data_run [OF c assms(5), of "mmsContextId pres"] assms(2) by auto
  have "chain_wf (IsoSession_createDataSpdu b part)" "chain_bytes (IsoSession_createDataSpdu b part) = data_octets (mmsContextId pres) ys" for b
    using createDataSpdu_chain [OF part(2,3)] part(4) by (simp_all add: data_octets_def)
  then show ?thesis using part(1) chain_length
    by (intro exI [of _ part]) (metis IsoPresentation_createUserData_def)
qed

lemma resetPayload_simps [simp]:
  "cotp_pending (CotpConnection_resetPayload cotp) = cotp_pending cotp" "bb_size (cc_payload (CotpConnection_resetPayload cotp)) = 0"
  by (simp_all add: CotpConnection_resetPayload_def cotp_pending_def split: option.split)

text \<open>
  The answer to data: the handler is asked, and its response, if it has one, is sent. \<open>answered\<close> is
  the state of affairs afterwards.
\<close>

definition answered ::
  "('w \<Rightarrow> byte list) \<Rightarrow> nat \<Rightarrow> ('par, 'tok, 'h) IsoConnection \<Rightarrow> ('par, 'tok) IsoLayers \<Rightarrow> 'w \<Rightarrow>
    'h \<Rightarrow> byte list \<Rightarrow> ('par, 'tok, 'h) IsoConnection \<Rightarrow> 'w \<Rightarrow> bool" where
  "answered wire e self l w h' msg self' w' \<longleftrightarrow> handlerParameter self' = h' \<and> ic_state self' = ic_state self \<and>
     (\<exists>l'. ic_layers self' = Some l' \<and> bb_size (cc_payload (il_cotp l')) = 0 \<and>
        (if msg = [] then wire w' @ cotp_pending (il_cotp l') = wire w @ cotp_pending (il_cotp l)
         else transmitted wire e (il_cotp l) w (il_cotp l') w' msg))"

lemma answered_cong:
  "cotp_pending (il_cotp l1) = cotp_pending (il_cotp l2) \<Longrightarrow> ic_state self1 = ic_state self2 \<Longrightarrow>
    answered wire e self1 l1 w h' msg self' w' = answered wire e self2 l2 w h' msg self' w'"
  by (simp only: answered_def transmitted_def)

lemma data_handled:
  assumes env: "env_ok wire inbox env" and l: "layers_ok env l" and f: "msgRcvdHandler self = Some f" "implements f srv"
    and m: "bb_bytes (cc_payload (il_cotp l)) = data_octets (mmsContextId (il_presentation l)) xs" "length xs \<le> 65000"
    and srv: "srv (handlerParameter self) xs = (h', ys)" "length ys \<le> 65000" "int (length ys) + 18 \<le> SEND_BUF_SIZE env"
    and cotp: "can_send e (int (length (data_octets (mmsContextId (il_presentation l)) ys))) (il_cotp l)"
  shows "\<exists>self' w'. handle_message env self l w = Some (self', w') \<and>
    answered wire e self l w h' (if ys = [] then [] else data_octets (mmsContextId (il_presentation l)) ys) self' w'"
proof -
  let ?ctx = "mmsContextId (il_presentation l)" and ?S = "SEND_BUF_SIZE env"
  have api: "bytebuffer_ok (env_bb env)" and wf: "bb_wf (cc_payload (il_cotp l))" using env l by (simp_all add: env_ok_def layers_ok_def)
  obtain b where s: "IsoSession_parseMessage (env_bb env) (il_session l) (cc_payload (il_cotp l)) =
      Some (SESSION_DATA, (il_session l)\<lparr>ss_userData := b\<rparr>)" "bb_wf b" "bb_bytes b = user_data ?ctx xs"
    using session_data [OF api wf m(1) [unfolded data_octets_def]] by blast
  obtain req where p: "IsoPresentation_parseUserData (env_bb env) (il_presentation l) b =
      Some (1, (il_presentation l)\<lparr>nextContextId := ?ctx, nextPayload := req\<rparr>)" "bb_wf req" "bb_bytes req = xs"
    using user_data_reads [OF api s(2,3) m(2), of "il_presentation l"] by blast
  obtain buf where h: "call_handler self req (ByteBuffer_wrap (env_bb env) (il_sendBuffer l) 0 ?S) =
      Some (self\<lparr>handlerParameter := h'\<rparr>, \<lparr>bb_buffer = buf, bb_size = int (length ys), bb_maxSize = ?S\<rparr>)"
      "octets_at buf (int (length ys)) = ys" "valid_range buf 0 ?S"
    using call_handler_run [OF api l f p(2,3) srv(1)] srv(3) by auto
  define l1 where "l1 = l\<lparr>il_session := (il_session l)\<lparr>ss_userData := b\<rparr>,
    il_presentation := (il_presentation l)\<lparr>nextContextId := ?ctx, nextPayload := req\<rparr>, il_sendBuffer := buf\<rparr>"
  have l1: "il_cotp l1 = il_cotp l" by (simp add: l1_def)
  show ?thesis
  proof (cases "ys = []")
    case True
    then show ?thesis using s(1) p(1) h(1)
      by (simp add: handle_message_def handle_indication_def handle_data_def IsoSession_getUserData_def Let_def answered_def)
  next
    case False
    have "valid_range (bc_buffer (part_at ?S buf (int (length ys)))) 0 18" "valid_range buf 0 (int (length ys))"
      using h(3) srv(3) by (auto simp: valid_range_def)
    from data_chain [OF this(2) h(2) False srv(2) this(1), of "il_presentation l1"] obtain part where
      part: "IsoPresentation_createUserData (il_presentation l1) (part_at ?S buf (int (length ys))) (payload_part buf (int (length ys))) = Some part"
        "\<forall>b. chain_wf (IsoSession_createDataSpdu b part) \<and> bc_length (IsoSession_createDataSpdu b part) = int (length (data_octets ?ctx ys)) \<and>
          chain_bytes (IsoSession_createDataSpdu b part) = data_octets ?ctx ys"
      by (auto simp: l1_def)
    have n: "int (length (data_octets ?ctx ys)) < 2 ^ 27" using length_data_octets [of ?ctx ys] srv(2) by simp
    obtain cotp' w' where send: "send_chain env l1 (IsoSession_createDataSpdu (part_at ?S buf (bc_length part)) part) w =
        Some (l1\<lparr>il_cotp := cotp'\<rparr>, w')" "transmitted wire e (il_cotp l) w cotp' w' (data_octets ?ctx ys)"
      using send_chain_run [OF env, of e _ l1, unfolded l1, OF cotp _ _ n] part(2) by (metis order_refl)
    have ne: "data_octets ?ctx ys \<noteq> []" by (simp add: data_octets_def dataSpdu_def)
    show ?thesis using s(1) p(1) h(1) part(1) send False ne
      by (simp add: handle_message_def handle_indication_def handle_data_def IsoSession_getUserData_def Let_def answered_def l1_def transmitted_def)
  qed
qed

text \<open>The request for an association, layer by layer.\<close>

definition accepts :: "(nat \<Rightarrow> byte list option) \<Rightarrow> byte list option \<Rightarrow> 'tls IsoConnectionParameters \<Rightarrow> ('par, 'tok) AcseConnection \<Rightarrow> bool" where
  "accepts cert pw p acse \<longleftrightarrow> fst (verdict cert pw (request_seen p 0 ([], 0) acse))"

lemma verdict_accepts: "fst (verdict cert pw (request_seen p n d acse)) = accepts cert pw p acse"
  by (simp add: accepts_def verdict_def request_seen_def offered_credentials_def split: option.splits prod.splits)

lemma verdict_user_data [simp]:
  "userDataBuffer (snd (verdict cert pw acse)) = userDataBuffer acse"
  "userDataBufferSize (snd (verdict cert pw acse)) = userDataBufferSize acse"
  "nextReference (snd (verdict cert pw acse)) = nextReference acse"
  by (simp_all add: verdict_def split: option.splits prod.splits)

lemma parse_session_connect:
  assumes "bytebuffer_ok api" and "bb_wf m" and "bb_bytes m = spdu 13 (connect_params calling called r) xs" and "bb_size m \<le> 257"
    and "session_ok s" and "selector_ok 16 calling" and "selector_ok 16 called"
  shows "\<exists>b s'. IsoSession_parseMessage api s m = Some (SESSION_CONNECT, s') \<and> session_ok s' \<and> IsoSession_getUserData s' = b \<and>
    bb_wf b \<and> bb_bytes b = xs \<and> protocolOptions s' = 0 \<and> sessionRequirement s' = r \<and>
    sel_bytes (calledSessionSelector s') = sel_bytes called"
  using connect_params_parsed [OF assms(2,3,1,5,6,7)] parse_spdu [OF assms(2,3), of SESSION_CONNECT api s] assms(4-7)
  by (auto simp: session_ok_def stored_bytes stored_ok IsoSession_getUserData_def)

text \<open>ACSE does not look at the capacity of the buffer, which the presentation layer leaves as it was.\<close>

lemma acse_parse_capacity:
  "AcseConnection_parseMessage cert self (Some (m\<lparr>bb_maxSize := n\<rparr>)) = AcseConnection_parseMessage cert self (Some m)"
  by (simp add: AcseConnection_parseMessage_def)

lemma acse_request:
  assumes "valid_range (bb_buffer m) 0 (bb_size m)" and "0 \<le> bb_size m" and "bb_bytes m = client_aarq p pw xs" and "params_ok p"
    and "pred_option (\<lambda>ys. length ys \<le> 512) pw" and "xs \<noteq> []" and "length xs \<le> 64000"
  shows "\<exists>d acse. valid_range d 0 (int (length xs)) \<and> octets_at d (int (length xs)) = xs \<and> userDataBuffer acse = Some d \<and>
    userDataBufferSize acse = int (length xs) \<and> nextReference acse = 3 \<and>
    AcseConnection_parseMessage cert peer (Some m) =
      Some (if accepts cert pw p peer then ACSE_ASSOCIATE else ACSE_ASSOCIATE_FAILED, acse)"
proof -
  let ?m = "m\<lparr>bb_maxSize := bb_size m\<rparr>"
  have "bb_wf ?m" "bb_bytes ?m = client_aarq p pw xs" using assms(1-3) by (simp_all add: bb_wf_def bb_bytes_def)
  from aarq_read [OF this assms(4-7), of cert peer] obtain d where d: "valid_range d 0 (int (length xs))" "octets_at d (int (length xs)) = xs"
      "AcseConnection_parseMessage cert peer (Some m) =
        (let r = verdict cert pw (request_seen p (int (length xs)) d peer) in Some (if fst r then ACSE_ASSOCIATE else ACSE_ASSOCIATE_FAILED, snd r))"
    by (auto simp: acse_parse_capacity Let_def)
  show ?thesis
    by (intro exI [of _ d] exI [of _ "snd (verdict cert pw (request_seen p (int (length xs)) d peer))"])
      (simp add: d Let_def verdict_accepts, simp add: request_seen_def)
qed

lemma length_client_aarq:
  assumes "params_ok p" and "pred_option (\<lambda>ys. length ys \<le> 512) pw"
  shows "length (client_aarq p pw xs) \<le> length xs + 632"
proof -
  have "length (take (nat (remoteApTitleLen p)) (remoteApTitle p)) \<le> 10" "length (take (nat (localApTitleLen p)) (localApTitle p)) \<le> 10"
    using assms(1) by (auto simp: params_ok_def)
  from header_bounds(2) [OF this, of "remoteAEQualifier p" "localAEQualifier p" pw xs] show ?thesis
    using assms(2) by (auto simp: client_aarq_def aarq_header split: option.splits)
qed

text \<open>What the three layers of the server make of the request.\<close>

lemma association_request_read:
  assumes api: "bytebuffer_ok api" and l: "session_ok (il_session l)" "pres_ok (il_presentation l)"
    and m: "bb_wf m" "bb_bytes m = connect_octets p pw r xs" "bb_size m \<le> 257"
    and p: "params_ok p" "pred_option (\<lambda>ys. length ys \<le> 512) pw" and xs: "xs \<noteq> []" "length xs \<le> 64000"
  shows "\<exists>s pres d acse. IsoSession_parseMessage api (il_session l) m = Some (SESSION_CONNECT, s) \<and> session_ok s \<and>
    protocolOptions s = 0 \<and> sessionRequirement s = r \<and> sel_bytes (calledSessionSelector s) = sel_bytes (remoteSSelector p) \<and>
    IsoPresentation_parseConnect (il_presentation l) (IsoSession_getUserData s) = Some (1, pres) \<and> pres_ok pres \<and>
    acseContextId pres = 1 \<and> mmsContextId pres = 3 \<and>
    AcseConnection_parseMessage cert (il_acse l) (Some (nextPayload pres)) =
      Some (if accepts cert pw p (il_acse l) then ACSE_ASSOCIATE else ACSE_ASSOCIATE_FAILED, acse) \<and>
    valid_range d 0 (int (length xs)) \<and> octets_at d (int (length xs)) = xs \<and> userDataBuffer acse = Some d \<and>
    userDataBufferSize acse = int (length xs) \<and> nextReference acse = 3"
proof -
  have sel: "selector_ok 16 (localSSelector p)" "selector_ok 16 (remoteSSelector p)"
    "length (sel_bytes (localPSelector p)) \<le> 16" "length (sel_bytes (remotePSelector p)) \<le> 16"
    using p(1) by (simp_all add: params_ok_def sel_bytes_def selector_ok_def min_def)
  obtain b s where s: "IsoSession_parseMessage api (il_session l) m = Some (SESSION_CONNECT, s)" "session_ok s" "IsoSession_getUserData s = b"
      "bb_wf b" "bb_bytes b = cp_type (normal_cp (sel_bytes (localPSelector p)) (sel_bytes (remotePSelector p)) (user_data 1 (client_aarq p pw xs)))"
      "protocolOptions s = 0" "sessionRequirement s = r" "sel_bytes (calledSessionSelector s) = sel_bytes (remoteSSelector p)"
    using parse_session_connect [OF api m(1) m(2) [unfolded connect_octets_def] m(3) l(1) sel(1,2)] by blast
  have a: "client_aarq p pw xs \<noteq> []" "length (client_aarq p pw xs) \<le> 65000"
    using length_client_aarq [OF p, of xs] xs by (auto simp: client_aarq_def aarq_header)
  obtain pres where q: "IsoPresentation_parseConnect (il_presentation l) b = Some (1, pres)" "pres_ok pres" "acseContextId pres = 1"
      "mmsContextId pres = 3" "bb_size (nextPayload pres) = int (length (client_aarq p pw xs))" "bb_bytes (nextPayload pres) = client_aarq p pw xs"
      "valid_range (bb_buffer (nextPayload pres)) 0 (int (length (client_aarq p pw xs)))"
    using connect_message_read [OF s(4,5) l(2) a sel(3,4)] by blast
  show ?thesis
    using acse_request [of "nextPayload pres" p pw xs cert "il_acse l", unfolded q(5), OF q(7) _ q(6) p xs] s q(1-4) by auto
qed

text \<open>The acceptance, built from the response of the handler.\<close>

lemma accept_chain:
  assumes buf: "valid_range buf 0 S" "octets_at buf (int (length ys)) = ys" and ys: "ys \<noteq> []" "length ys \<le> 64000" "int (length ys) + 205 \<le> S"
    and s: "session_ok s" and ref: "nextReference acse = 3"
  shows "\<exists>acsePart presentationPart sessionPart.
    AcseConnection_createAssociateResponseMessage le acse ACSE_RESULT_ACCEPT (part_at S buf (int (length ys)))
      (Some (payload_part buf (int (length ys)))) = Some acsePart \<and>
    IsoPresentation_createCpaMessage pres (part_at S buf (bc_length acsePart)) acsePart = Some presentationPart \<and>
    IsoSession_createAcceptSpdu s (part_at S buf (bc_length presentationPart)) presentationPart = Some sessionPart \<and>
    chain_wf sessionPart \<and> bc_length sessionPart \<le> int (length ys) + 205 \<and>
    chain_bytes sessionPart = accept_octets (protocolOptions s) (calledSessionSelector s) (sessionRequirement s) (acseContextId pres) [3] ys"
proof -
  let ?n = "int (length ys)"
  have pay: "chain_wf (payload_part buf ?n)" "0 < bc_partLength (payload_part buf ?n)" "bc_length (payload_part buf ?n) \<le> 64000"
    using buf(1) ys by (auto simp: valid_range_def)
  have r3: "uint32_octets (word_of_int 3) = [3]" by code_simp
  have "valid_range (bc_buffer (part_at S buf ?n)) 0 51" using buf(1) ys(3) by (auto simp: valid_range_def)
  from createAssociateResponse_run [OF pay this, of le acse ACSE_RESULT_ACCEPT] obtain a where
    a: "AcseConnection_createAssociateResponseMessage le acse ACSE_RESULT_ACCEPT (part_at S buf ?n) (Some (payload_part buf ?n)) = Some a"
      "chain_wf a" "0 < bc_partLength a" "bc_partLength a \<le> 51" "chain_bytes a = aare 0 [3] ys"
    using ref r3 buf(2) by (auto simp: ACSE_RESULT_ACCEPT_def)
  have la: "bc_length a \<le> ?n + 51"
    using chain_length [OF a(2)] a(5) header_bounds(1) [of 0 "[3]" ys] by (simp add: aare_header)
  have "0 \<le> bc_length a" using chain_length [OF a(2)] by simp
  then have "bc_length a \<le> 65000" "valid_range (bc_buffer (part_at S buf (bc_length a))) 0 120"
    using la ys buf(1) by (auto simp: valid_range_def)
  from createCpaMessage_run [OF a(2,3) this, of pres] obtain q where
    q: "IsoPresentation_createCpaMessage pres (part_at S buf (bc_length a)) a = Some q" "chain_wf q" "0 < bc_partLength q"
      "chain_bytes q = cp_type (normal_cpa (user_data (acseContextId pres) (aare 0 [3] ys)))"
    using a(5) by auto
  have lq: "bc_length q \<le> ?n + 171"
    using chain_length [OF q(2)] chain_length [OF a(2)] la q(4) a(5) header_lengths(3) [of "acseContextId pres" "aare 0 [3] ys"]
    by (simp add: cpa_header [symmetric])
  have "0 \<le> bc_length q" using chain_length [OF q(2)] by simp
  then have "valid_range (bc_buffer (part_at S buf (bc_length q))) 0 34" using lq ys buf(1) by (auto simp: valid_range_def)
  from createAcceptSpdu_run [OF s q(2,3) this] obtain t where
    t: "IsoSession_createAcceptSpdu s (part_at S buf (bc_length q)) q = Some t" "chain_wf t"
      "chain_bytes t = accept_octets (protocolOptions s) (calledSessionSelector s) (sessionRequirement s) (acseContextId pres) [3] ys"
    using q(4) by (auto simp: accept_octets_def)
  have "length (accept_params (protocolOptions s) (calledSessionSelector s) (sessionRequirement s)) \<le> 30"
    using s by (simp add: accept_params_def outlen session_ok_def) (simp add: selector_ok_def)
  then have "bc_length t \<le> ?n + 205"
    using chain_length [OF t(2)] t(3) chain_length [OF q(2)] q(4) lq by (simp add: accept_octets_def outlen)
  then show ?thesis using a(1) q(1) t by blast
qed

lemma association_handled:
  assumes env: "env_ok wire inbox env" and l: "layers_ok env l" and f: "msgRcvdHandler self = Some f" "implements f srv"
    and m: "bb_bytes (cc_payload (il_cotp l)) = connect_octets p pw r xs" "length (connect_octets p pw r xs) \<le> 257"
    and p: "params_ok p" "pred_option (\<lambda>ys. length ys \<le> 512) pw" and xs: "xs \<noteq> []" "length xs \<le> 64000"
    and srv: "srv (handlerParameter self) xs = (h', ys)" "ys \<noteq> []" "length ys \<le> 64000" "int (length ys) + 205 \<le> SEND_BUF_SIZE env"
    and cotp: "can_send e (int (length ys) + 205) (il_cotp l)" and acc: "accepts (env_cert env) pw p (il_acse l)"
  shows "\<exists>self' w' called. handle_message env self l w = Some (self', w') \<and>
    answered wire e self l w h' (accept_octets 0 called r 1 [3] ys) self' w' \<and> selector_ok 16 called \<and>
    pred_option (\<lambda>l'. mmsContextId (il_presentation l') = 3) (ic_layers self')"
proof -
  have api: "bytebuffer_ok (env_bb env)" and wf: "bb_wf (cc_payload (il_cotp l))" "session_ok (il_session l)" "pres_ok (il_presentation l)"
    using env l by (simp_all add: env_ok_def layers_ok_def)
  have sz: "bb_size (cc_payload (il_cotp l)) \<le> 257" using bb_bytes_length [OF wf(1)] m by simp
  obtain s pres d acse where r: "IsoSession_parseMessage (env_bb env) (il_session l) (cc_payload (il_cotp l)) = Some (SESSION_CONNECT, s)"
      "session_ok s" "protocolOptions s = 0" "sessionRequirement s = r"
      "IsoPresentation_parseConnect (il_presentation l) (IsoSession_getUserData s) = Some (1, pres)" "acseContextId pres = 1" "mmsContextId pres = 3"
      "AcseConnection_parseMessage (env_cert env) (il_acse l) (Some (nextPayload pres)) = Some (ACSE_ASSOCIATE, acse)"
      "valid_range d 0 (int (length xs))" "octets_at d (int (length xs)) = xs" "userDataBuffer acse = Some d"
      "userDataBufferSize acse = int (length xs)" "nextReference acse = 3"
    using association_request_read [OF api wf(2,3,1) m(1) sz p xs, of "env_cert env"] acc by auto
  let ?S = "SEND_BUF_SIZE env" and ?req = "\<lparr>bb_buffer = d, bb_size = int (length xs), bb_maxSize = int (length xs)\<rparr>"
  have req: "bb_wf ?req" "bb_bytes ?req = xs" using r(9,10) by (simp_all add: bb_wf_def bb_bytes_def)
  have room: "int (length ys) \<le> ?S" using srv(4) by simp
  obtain buf where h: "call_handler self ?req (ByteBuffer_wrap (env_bb env) (il_sendBuffer l) 0 ?S) =
      Some (self\<lparr>handlerParameter := h'\<rparr>, \<lparr>bb_buffer = buf, bb_size = int (length ys), bb_maxSize = ?S\<rparr>)"
      "octets_at buf (int (length ys)) = ys" "valid_range buf 0 ?S"
    using call_handler_run [OF api l f req srv(1) room] by blast
  obtain a q t where t: "AcseConnection_createAssociateResponseMessage (env_le env) acse ACSE_RESULT_ACCEPT (part_at ?S buf (int (length ys)))
        (Some (payload_part buf (int (length ys)))) = Some a" "IsoPresentation_createCpaMessage pres (part_at ?S buf (bc_length a)) a = Some q"
      "IsoSession_createAcceptSpdu s (part_at ?S buf (bc_length q)) q = Some t" "chain_wf t" "bc_length t \<le> int (length ys) + 205"
      "chain_bytes t = accept_octets 0 (calledSessionSelector s) r 1 [3] ys"
    using accept_chain [OF h(3,2) srv(2,3,4) r(2,13), of "env_le env" pres] r(3,4,6) by auto
  define l1 where "l1 = l\<lparr>il_session := s, il_presentation := pres, il_acse := acse, il_sendBuffer := buf\<rparr>"
  have "can_send e (int (length ys) + 205) (il_cotp l1)" using cotp by (simp add: l1_def)
  from send_chain_run [OF env this t(4,5), of w] srv(3) obtain cotp' w' where
    send: "send_chain env l1 t w = Some (l1\<lparr>il_cotp := cotp'\<rparr>, w')" "transmitted wire e (il_cotp l) w cotp' w' (chain_bytes t)"
    by (auto simp: l1_def)
  have ne: "accept_octets 0 (calledSessionSelector s) r 1 [3] ys \<noteq> []" by (simp add: accept_octets_def spdu_def)
  show ?thesis using r h t send ne srv(2)
    by (intro exI [of _ "self\<lparr>handlerParameter := h', ic_layers := Some (l1\<lparr>il_cotp := CotpConnection_resetPayload cotp'\<rparr>)\<rparr>"]
        exI [of _ w'] exI [of _ "calledSessionSelector s"])
      (simp add: handle_message_def handle_indication_def handle_connect_def handle_associate_def Let_def answered_def l1_def transmitted_def
        wrap_ok [OF api] session_ok_def)
qed

lemma length_accept_octets:
  assumes "selector_ok 16 called"
  shows "length (accept_octets options called r ctx [3] ys) \<le> length ys + 205"
proof -
  have "length (aare 0 [3] ys) \<le> length ys + 51" using header_bounds(1) [of 0 "[3]" ys] by (simp add: aare_header)
  moreover have "length (cp_type (normal_cpa (user_data ctx (aare 0 [3] ys)))) \<le> length (aare 0 [3] ys) + 120"
    using header_lengths(3) [of ctx "aare 0 [3] ys"] by (simp add: cpa_header [symmetric])
  moreover have "length (accept_params options called r) \<le> 30" using assms by (simp add: accept_params_def outlen) (simp add: selector_ok_def)
  ultimately show ?thesis by (simp add: accept_octets_def outlen)
qed

text \<open>A client that the authenticator refuses is not answered, and the connection is stopped.\<close>

lemma association_refused:
  assumes env: "env_ok wire inbox env" and l: "layers_ok env l"
    and m: "bb_bytes (cc_payload (il_cotp l)) = connect_octets p pw r xs" "length (connect_octets p pw r xs) \<le> 257"
    and p: "params_ok p" "pred_option (\<lambda>ys. length ys \<le> 512) pw" and xs: "xs \<noteq> []" "length xs \<le> 64000"
    and acc: "\<not> accepts (env_cert env) pw p (il_acse l)"
  shows "\<exists>self'. handle_message env self l w = Some (self', w) \<and> ic_state self' = ISO_CON_STATE_STOPPED \<and>
    handlerParameter self' = handlerParameter self"
proof -
  have api: "bytebuffer_ok (env_bb env)" and wf: "bb_wf (cc_payload (il_cotp l))" "session_ok (il_session l)" "pres_ok (il_presentation l)"
    using env l by (simp_all add: env_ok_def layers_ok_def)
  have sz: "bb_size (cc_payload (il_cotp l)) \<le> 257" using bb_bytes_length [OF wf(1)] m by simp
  from association_request_read [OF api wf(2,3,1) m(1) sz p xs, of "env_cert env"] acc show ?thesis
    by (auto simp: handle_message_def handle_indication_def handle_connect_def Let_def stop_def)
qed

section \<open>The life of a connection\<close>

text \<open>
  The state is \<open>RUNNING\<close>, \<open>STOPPED\<close> or \<open>TERMINATED\<close>, and the layers are there until the connection
  is terminated.
\<close>

definition connection_inv :: "('par, 'tok, 'h) IsoConnection \<Rightarrow> bool" where
  "connection_inv self \<longleftrightarrow> ic_state self \<in> {ISO_CON_STATE_RUNNING, ISO_CON_STATE_STOPPED, ISO_CON_STATE_TERMINATED} \<and>
     (ic_layers self = None) = (ic_state self = ISO_CON_STATE_TERMINATED)"

text \<open>What can happen to a connection: the calls of the server, of its thread and of the MMS layer.\<close>

inductive connection_step :: "'w IsoEnv \<Rightarrow> ('par, 'tok, 'h) IsoConnection \<Rightarrow> ('par, 'tok, 'h) IsoConnection \<Rightarrow> bool" for env where
  handle: "IsoConnection_handleTcpConnection env self isSingleThread w = Some (self', w') \<Longrightarrow> connection_step env self self'"
| tick: "IsoConnection_callTickHandler env self w = Some (self', w') \<Longrightarrow> connection_step env self self'"
| send: "IsoConnection_sendMessage env self message w = Some (ok, self', w') \<Longrightarrow> connection_step env self self'"
| install: "connection_step env self (IsoConnection_installListener self rcvd tick parameter)"
| close: "connection_step env self (IsoConnection_close self)"
| thread_end: "ic_state self \<noteq> ISO_CON_STATE_RUNNING \<Longrightarrow> handleTcpConnection env fuel self w = Some (True, self', w') \<Longrightarrow>
    connection_step env self self'"

lemmas connection_states = ISO_CON_STATE_RUNNING_def ISO_CON_STATE_STOPPED_def ISO_CON_STATE_TERMINATED_def

text \<open>A step of the protocol leaves the state as it is or stops the connection.\<close>

definition stopped_or_same :: "('par, 'tok, 'h) IsoConnection \<Rightarrow> ('par, 'tok, 'h) IsoConnection \<Rightarrow> bool" where
  "stopped_or_same self self' \<longleftrightarrow> ic_state self' = ic_state self \<or> ic_state self' = ISO_CON_STATE_STOPPED"

lemma call_handler_state: "call_handler self req resp = Some (self', resp') \<Longrightarrow> ic_state self' = ic_state self"
  by (auto simp: call_handler_def bind_eq_Some_conv split: option.splits)

lemma handle_indication_state:
  assumes "handle_indication env ind self l w = Some (self', l', w')"
  shows "stopped_or_same self self'"
  using assms
  by (cases ind) (auto simp: handle_indication_def handle_connect_def handle_associate_def handle_data_def handle_finish_def Let_def
      stopped_or_same_def stop_def split: Option.bind_split_asm if_split_asm prod.split_asm dest: call_handler_state)

lemma handle_packet_state:
  assumes "handle_packet env self l w = Some (self', w')"
  shows "stopped_or_same self self' \<and> ic_layers self' \<noteq> None"
  using assms
  by (auto simp: handle_packet_def handle_message_def Let_def stop_def stopped_or_same_def
      split: Option.bind_split_asm CotpIndication.split_asm prod.split_asm dest: handle_indication_state)

lemma callTickHandler_state:
  "IsoConnection_callTickHandler env self w = Some (self', w') \<Longrightarrow> ic_state self' = ic_state self \<and> ic_layers self \<noteq> None \<and> ic_layers self' \<noteq> None"
  by (auto simp: IsoConnection_callTickHandler_def bind_eq_Some_conv Let_def split: option.splits)

lemma handleTcpConnection_state:
  assumes "IsoConnection_handleTcpConnection env self st w = Some (self', w')"
  shows "stopped_or_same self self' \<and> ic_layers self \<noteq> None \<and> ic_layers self' \<noteq> None"
  using assms
  by (auto simp: IsoConnection_handleTcpConnection_def stopped_or_same_def stop_def Let_def
      split: Option.bind_split_asm if_split_asm prod.split_asm dest!: callTickHandler_state handle_packet_state)

lemma sendMessage_state:
  assumes "IsoConnection_sendMessage env self message w = Some (ok, self', w')"
  shows "ic_state self' = ic_state self \<and> (ic_layers self' = None) = (ic_layers self = None)"
  using assms by (auto simp: IsoConnection_sendMessage_def Let_def split: Option.bind_split_asm if_split_asm prod.split_asm)

lemma connection_step_inv:
  assumes "connection_step env self self'" and "connection_inv self"
  shows "connection_inv self' \<and> (ic_state self \<noteq> ISO_CON_STATE_RUNNING \<longrightarrow> ic_state self' \<noteq> ISO_CON_STATE_RUNNING)"
  using assms
proof cases
  case (handle st w w')
  then show ?thesis using handleTcpConnection_state [OF handle] assms(2)
    by (auto simp: connection_inv_def stopped_or_same_def connection_states)
next
  case (tick w w')
  then show ?thesis using callTickHandler_state [OF tick] assms(2) by (auto simp: connection_inv_def)
next
  case (send message w ok w')
  then show ?thesis using sendMessage_state [OF send] assms(2) by (auto simp: connection_inv_def)
next
  case (thread_end fuel w w')
  then show ?thesis by (simp add: handleTcpConnection.simps) (auto simp: connection_inv_def finalizeIsoConnection_def connection_states)
qed (use assms(2) in \<open>auto simp: connection_inv_def IsoConnection_installListener_def IsoConnection_close_def finalizeIsoConnection_def stop_def
    connection_states\<close>)

lemma connection_steps_inv:
  assumes "(connection_step env)\<^sup>*\<^sup>* self self'" and "connection_inv self"
  shows "connection_inv self' \<and> (ic_state self \<noteq> ISO_CON_STATE_RUNNING \<longrightarrow> ic_state self' \<noteq> ISO_CON_STATE_RUNNING)"
  using assms by (induction rule: rtranclp_induct) (auto dest: connection_step_inv)

text \<open>A new connection.\<close>

definition malloc_ok :: "('w, 'e) IsoEnv_scheme \<Rightarrow> bool" where
  "malloc_ok env \<longleftrightarrow> (\<forall>n \<ge> 0. length (env_malloc env n) = nat n)"

lemma setTpduSize_max:
  "CotpConnection_setTpduSize self COTP_MAX_TPDU_SIZE = Some (self\<lparr>cc_options := (cc_options self)\<lparr>tpduSize := 13\<rparr>\<rparr>)"
proof -
  obtain e where e: "e \<le> 13" "CotpConnection_setTpduSize self COTP_MAX_TPDU_SIZE = Some (self\<lparr>cc_options := (cc_options self)\<lparr>tpduSize := of_nat e\<rparr>\<rparr>)"
      "(8192 :: int) < 2 * 2 ^ e"
    using setTpduSize_result [of self COTP_MAX_TPDU_SIZE] by (auto simp: COTP_MAX_TPDU_SIZE_def)
  have "\<not> e \<le> 12" using power_increasing [of e 12 "2 :: int"] e(3) by auto
  then have "e = 13" using e(1) by simp
  then show ?thesis using e(2) by simp
qed

lemma cotp_init_run:
  "\<exists>cotp w'. CotpConnection_init net u2 u3 self sock pay rb wb ext n w = Some (cotp, w') \<and> cc_payload cotp = pay\<lparr>bb_size := 0\<rparr> \<and>
    cc_readBuffer cotp = rb \<and> cc_packetSize cotp = 0 \<and> tpduSize (cc_options cotp) = 13 \<and> cc_writeBuffer cotp = wb \<and>
    cc_socketExtensionBuffer cotp = ext \<and> cc_socketExtensionBufferSize cotp = n \<and> cc_socketExtensionBufferFill cotp = 0"
  by (simp add: CotpConnection_init_def setTpduSize_max CotpConnection_resetPayload_def Let_def split: prod.splits)

lemma create_run:
  assumes api: "bytebuffer_ok (env_bb env)" and mem: "malloc_ok env" and size: "0 \<le> env_maxPdu env"
  shows "\<exists>self l w'. IsoConnection_create env u2 u3 sock tls auth par h st w = Some (self, w') \<and> ic_layers self = Some l \<and> layers_ok env l \<and>
    ic_state self = ISO_CON_STATE_RUNNING \<and> il_presentation l = zero_presentation \<and>
    il_acse l = AcseConnection_init (zero_acse par) auth par tls \<and> cotp_pending (il_cotp l) = [] \<and>
    (\<forall>n. 7 * fragment_count n 8189 + n \<le> env_maxPdu env + 1000 \<longrightarrow> can_send 13 n (il_cotp l))"
proof -
  have len: "int (length (env_malloc env n)) = n" if "0 \<le> n" for n using mem that by (simp add: malloc_ok_def)
  let ?buffer = "\<lambda>n. \<lparr>bb_buffer = (env_malloc env n, 0), bb_size = 0, bb_maxSize = n\<rparr>" and ?ext = "env_maxPdu env + 1000"
  note sizes = COTP_MAX_TPDU_SIZE_def TPKT_RFC1006_HEADER_SIZE_def SEND_BUF_SIZE_def RECEIVE_BUF_SIZE_def
  obtain cotp0 w' where c: "CotpConnection_init (env_net env) u2 u3 zero_cotp sock (?buffer (RECEIVE_BUF_SIZE env)) (?buffer 8196) (Some (?buffer 8196))
        (Some (env_malloc env ?ext, 0)) ?ext w = Some (cotp0, w')"
      "cc_payload cotp0 = ?buffer (RECEIVE_BUF_SIZE env)" "tpduSize (cc_options cotp0) = 13" "cc_writeBuffer cotp0 = Some (?buffer 8196)"
      "cc_socketExtensionBuffer cotp0 = Some (env_malloc env ?ext, 0)" "cc_socketExtensionBufferSize cotp0 = ?ext" "cc_socketExtensionBufferFill cotp0 = 0"
    using cotp_init_run [of "env_net env" u2 u3 zero_cotp sock "?buffer (RECEIVE_BUF_SIZE env)" "?buffer 8196" "Some (?buffer 8196)"
        "Some (env_malloc env ?ext, 0)" ?ext w] by auto
  define cotp where "cotp = (if tls \<noteq> None then cotp0\<lparr>cc_tlsSocket := tls\<rparr> else cotp0)"
  have "can_send 13 n cotp" if "7 * fragment_count n 8189 + n \<le> ?ext" for n
    using c(3-7) that size len [of ?ext] len [of 8196] by (simp add: can_send_def cotp_def ext_ok_def wb_ok_def valid_range_def)
  moreover have "cotp_pending cotp = []" "bb_wf (cc_payload cotp)"
    using c(2,5,7) len [of "RECEIVE_BUF_SIZE env"] size by (simp_all add: cotp_def cotp_pending_def octets_at_def bb_wf_def valid_range_def sizes)
  moreover have "session_ok IsoSession_init" "pres_ok zero_presentation"
    by (simp_all add: pres_ok_def zero_presentation_def selector_ok_def zero_selector_def)
  moreover have "valid_range (env_malloc env (SEND_BUF_SIZE env), 0) 0 (SEND_BUF_SIZE env)"
    using len [of "SEND_BUF_SIZE env"] size by (simp add: valid_range_def sizes)
  ultimately show ?thesis using c(1) size
    by (cases tls) (simp_all add: IsoConnection_create_def wrap_ok [OF api] cotp_def IsoPresentation_init_def layers_ok_def Let_def
        COTP_MAX_TPDU_SIZE_def TPKT_RFC1006_HEADER_SIZE_def split: prod.splits)
qed

lemma create_inv: "IsoConnection_create env u2 u3 sock tls auth par h st w = Some (self, w') \<Longrightarrow> connection_inv self"
  by (auto simp: IsoConnection_create_def connection_inv_def connection_states Let_def split: Option.bind_split_asm prod.split_asm)

section \<open>Properties\<close>

text \<open>
  C31: The life of a connection. Whatever is called on a connection of the server, in any order, its
  state is running, stopped or terminated, its layers and buffers exist exactly until it is
  terminated, and a connection that is not running never runs again.
\<close>

theorem connection_lifecycle:
  assumes "IsoConnection_create env u2 u3 sock tls auth par h st w = Some (self, w')"
    and "(connection_step env)\<^sup>*\<^sup>* self self1" and "(connection_step env)\<^sup>*\<^sup>* self1 self2"
  shows "connection_inv self1 \<and> (IsoConnection_isRunning self2 \<longrightarrow> IsoConnection_isRunning self1)"
proof -
  have "connection_inv self1" using connection_steps_inv [OF assms(2) create_inv [OF assms(1)]] by simp
  then show ?thesis using connection_steps_inv [OF assms(3)] by (auto simp: IsoConnection_isRunning_def)
qed

text \<open>
  A stopped connection refuses to send, but \<open>IsoConnection_sendMessage\<close> does not look at the state
  \<open>TERMINATED\<close>: on a connection that has been closed it uses the layers that were freed.
\<close>

theorem send_after_close:
  assumes "connection_inv self"
  shows "IsoConnection_sendMessage env (IsoConnection_close self) message w = None \<and>
    (ic_state self = ISO_CON_STATE_STOPPED \<longrightarrow> IsoConnection_sendMessage env self message w = Some (False, self, w))"
  using assms
  by (auto simp: connection_inv_def IsoConnection_sendMessage_def IsoConnection_close_def finalizeIsoConnection_def stop_def connection_states)

text \<open>
  Authentication protects the association only. A new connection, whose authenticator has never been
  asked, hands data with the presentation context 0 to the MMS layer and sends its response: the
  context of MMS is still 0 on a connection that has not been associated.
\<close>

theorem data_before_association:
  assumes "env_ok wire inbox env" and "malloc_ok env" and "0 \<le> env_maxPdu env" and "implements f srv"
    and "srv h xs = (h', ys)" and "length xs \<le> 65000" and "length ys \<le> 65000" and "int (length ys) \<le> env_maxPdu env"
    and "7 * fragment_count (int (length (data_octets 0 ys))) 8189 + int (length (data_octets 0 ys)) \<le> env_maxPdu env + 1000"
    and "bb_wf m" and "bb_bytes m = data_octets 0 xs"
  shows "\<exists>self l w1 self' w'. IsoConnection_create env u2 u3 sock tls auth par h0 st w = Some (self, w1) \<and> ic_layers self = Some l \<and>
    authenticator (il_acse l) = auth \<and> handle_message env (IsoConnection_installListener self (Some f) t h) (server_received l m) v =
      Some (self', w') \<and>
    answered wire 13 self l v h' (if ys = [] then [] else data_octets 0 ys) self' w'"
proof -
  have api: "bytebuffer_ok (env_bb env)" using assms(1) by (simp add: env_ok_def)
  obtain self l w1 where c: "IsoConnection_create env u2 u3 sock tls auth par h0 st w = Some (self, w1)" "ic_layers self = Some l" "layers_ok env l"
      "il_presentation l = zero_presentation" "il_acse l = AcseConnection_init (zero_acse par) auth par tls"
      "can_send 13 (int (length (data_octets 0 ys))) (il_cotp l)"
    using create_run [OF api assms(2,3), of u2 u3 sock tls auth par h0 st w] assms(9) by blast
  let ?l = "server_received l m" and ?self = "IsoConnection_installListener self (Some f) t h"
  have ok: "layers_ok env ?l" "can_send 13 (int (length (data_octets 0 ys))) (il_cotp ?l)" "mmsContextId (il_presentation ?l) = 0"
    using c assms(10) by (simp_all add: server_received zero_presentation_def)
  have self: "msgRcvdHandler ?self = Some f" "srv (handlerParameter ?self) xs = (h', ys)" "ic_state ?self = ic_state self"
    using assms(5) by (simp_all add: IsoConnection_installListener_def)
  have room: "int (length ys) + 18 \<le> SEND_BUF_SIZE env" using assms(8) by (simp add: SEND_BUF_SIZE_def)
  have m: "bb_bytes (cc_payload (il_cotp ?l)) = data_octets (mmsContextId (il_presentation ?l)) xs" using assms(11) ok(3) by (simp add: server_received)
  obtain self' w' where r: "handle_message env ?self ?l v = Some (self', w')"
      "answered wire 13 ?self ?l v h' (if ys = [] then [] else data_octets 0 ys) self' w'"
    using data_handled [OF assms(1) ok(1) self(1) assms(4) m assms(6) self(2) assms(7) room] ok(2,3) by (metis (no_types))
  from r(2) [unfolded answered_cong [OF server_received(3) self(3)]] c(1,2,5) r(1) show ?thesis by (auto simp: AcseConnection_init_def)
qed

section \<open>Examples\<close>

text \<open>A platform, a handler that echoes the request and counts, and an authenticator that refuses everybody.\<close>

definition example_env :: "(byte list \<times> byte list) IsoEnv" where
  "example_env = \<lparr>env_net = chunk_net 100, env_bb = plain_bytebuffer, env_cert = (\<lambda>_. None), env_le = True,
     env_malloc = (\<lambda>n. replicate (nat n) 0), env_maxPdu = 2000\<rparr>"

definition echo_handler :: "nat MessageReceivedHandler" where
  "echo_handler h req resp = Some (Suc h, resp\<lparr>bb_buffer := store (bb_buffer resp) 0 (bb_bytes req), bb_size := int (length (bb_bytes req))\<rparr>)"

definition refuse_all :: "(unit, unit) AcseAuthenticator" where
  "refuse_all par auth reference = (False, None, reference)"

lemma example_env [simp]: "env_ok fst snd example_env" "malloc_ok example_env" "env_maxPdu example_env = 2000" "env_bb example_env = plain_bytebuffer"
  by (simp_all add: env_ok_def malloc_ok_def example_env_def plain_bytebuffer_ok chunk_net_ok chunk_net_never_fails)

lemma stored_octets:
  "valid_range p 0 (int (length xs)) \<Longrightarrow> octets_at (store p 0 xs) (int (length xs)) = xs"
  by (auto simp: octets_at_def store_def valid_range_def)

lemma echo_implements: "implements echo_handler (\<lambda>h xs. (Suc h, xs))"
  unfolding implements_def
proof (intro allI impI)
  fix h :: nat and req resp :: ByteBuffer
  let ?xs = "bb_bytes req"
  assume a: "bb_wf req" "bb_wf resp" "bb_size resp = 0" "int (length (snd (Suc h, ?xs))) \<le> bb_maxSize resp"
  then have "valid_range (bb_buffer resp) 0 (0 + int (length ?xs))" by (auto simp: bb_wf_def valid_range_def)
  then have "valid_range (store (bb_buffer resp) 0 ?xs) 0 (bb_maxSize resp)" "octets_at (store (bb_buffer resp) 0 ?xs) (int (length ?xs)) = ?xs"
    using a(2) by (simp_all add: valid_range_store stored_octets bb_wf_def)
  then show "\<exists>resp'. echo_handler h req resp = Some (fst (Suc h, ?xs), resp') \<and> bb_wf resp' \<and> bb_maxSize resp' = bb_maxSize resp \<and>
      bb_bytes resp' = snd (Suc h, ?xs)"
    using a(4) by (simp add: echo_handler_def bb_wf_def bb_bytes_def [of "_\<lparr>bb_size := _\<rparr>"])
qed

theorem connection_lifecycle_witness:
  "\<exists>self w'. IsoConnection_create example_env 0 0 1 None (Some refuse_all) () (0 :: nat) True ([], []) = Some (self, w') \<and>
    connection_inv (IsoConnection_close self)"
proof -
  obtain self w' where c: "IsoConnection_create example_env 0 0 1 None (Some refuse_all) () (0 :: nat) True ([], []) = Some (self, w')"
    using create_run [of example_env 0 0 1 None "Some refuse_all" "()" "0 :: nat" True "([], [])"] plain_bytebuffer_ok by auto
  have "(connection_step example_env)\<^sup>*\<^sup>* self (IsoConnection_close self)" by (rule r_into_rtranclp, rule connection_step.close)
  from connection_lifecycle [OF c this rtranclp.rtrancl_refl] c show ?thesis by blast
qed

theorem send_after_close_witness:
  "\<exists>self w'. IsoConnection_create example_env 0 0 1 None (Some refuse_all) () (0 :: nat) True ([], []) = Some (self, w') \<and>
    IsoConnection_sendMessage example_env (IsoConnection_close self) (message_of [1]) w' = None"
proof -
  obtain self w' where c: "IsoConnection_create example_env 0 0 1 None (Some refuse_all) () (0 :: nat) True ([], []) = Some (self, w')"
    using create_run [of example_env 0 0 1 None "Some refuse_all" "()" "0 :: nat" True "([], [])"] plain_bytebuffer_ok by auto
  have "IsoConnection_sendMessage example_env (IsoConnection_close self) (message_of [1]) w' = None"
    using send_after_close [OF create_inv [OF c], of example_env "message_of [1]" w'] by (rule conjunct1)
  with c show ?thesis by (intro exI conjI)
qed

theorem data_before_association_witness:
  "\<exists>self l w1 self' w'. IsoConnection_create example_env 0 0 1 None (Some refuse_all) () (0 :: nat) True ([], []) = Some (self, w1) \<and>
    ic_layers self = Some l \<and> authenticator (il_acse l) = Some refuse_all \<and>
    handle_message example_env (IsoConnection_installListener self (Some echo_handler) None 7)
      (server_received l (message_of (data_octets 0 [1, 2]))) ([], []) = Some (self', w') \<and>
    answered fst 13 self l ([], []) (Suc 7) (if [1, 2 :: byte] = [] then [] else data_octets 0 [1, 2]) self' w'"
proof -
  have "length (data_octets 0 [1, 2]) = 15" by (simp add: data_octets_def dataSpdu_def user_data_def pdv_def tlv_short)
  then show ?thesis
    by (intro data_before_association [OF example_env(1,2) _ echo_implements]) (simp_all add: fragment_count_def)
qed

end
