(* ===== verification/Iso_Client_Props.thy ===== *)
theory Iso_Client_Props
  imports Iso_Client_Connection Iso_Connection_Props
begin

text \<open>
  Properties of the connection of a client: the messages it sends, what it makes of the answers,
  and who holds the transmit buffer.
\<close>

declare split_paired_All [simp del] split_paired_Ex [simp del]

section \<open>Lemmas\<close>

definition client_ok :: "('w, 'tls) IsoClientEnv \<Rightarrow> ('tls, 'h) IsoClientConnection \<Rightarrow> bool" where
  "client_ok env self \<longleftrightarrow> params_ok (cl_parameters self) \<and> valid_range (cl_sendBuffer self) 0 (ISO_CLIENT_BUFFER_SIZE env)"

definition client_received :: "('tls, 'h) IsoClientConnection \<Rightarrow> ByteBuffer \<Rightarrow> ('tls, 'h) IsoClientConnection" where
  "client_received self m = self\<lparr>cl_cotp := (cl_cotp self)\<lparr>cc_payload := m\<rparr>\<rparr>"

lemma client_received [simp]: "cc_payload (cl_cotp (client_received self m)) = m" "cl_session (client_received self m) = cl_session self"
  "cl_presentation (client_received self m) = cl_presentation self"
  by (simp_all add: client_received_def)

text \<open>The request for an association.\<close>

lemma initiate_request_run:
  assumes ok: "client_ok env self" and pw: "acseAuthParameter (cl_parameters self) = password_auth pw" "pred_option (\<lambda>ys. length ys \<le> 512) pw"
    and xs: "bb_wf (transmitPayloadBuffer self)" "bb_bytes (transmitPayloadBuffer self) = xs" "xs \<noteq> []" "length xs \<le> 64000"
      "int (length xs) + 804 \<le> ISO_CLIENT_BUFFER_SIZE env"
  shows "\<exists>self' chain. initiate_request env self = Some (self', chain) \<and> chain_wf chain \<and>
    chain_bytes chain = connect_octets (cl_parameters self) pw (sessionRequirement IsoSession_init) xs \<and>
    session_ok (cl_session self') \<and> mmsContextId (cl_presentation self') = 3"
proof -
  let ?p = "cl_parameters self" and ?n = "int (length xs)" and ?b = "bb_buffer (transmitPayloadBuffer self)"
  have p: "params_ok ?p" and v: "valid_range (cl_sendBuffer self) 0 (ISO_CLIENT_BUFFER_SIZE env)" using ok by (simp_all add: client_ok_def)
  have sz: "bb_size (transmitPayloadBuffer self) = ?n" using bb_bytes_length [OF xs(1)] xs(2) by simp
  have part: "valid_range (bc_buffer (client_part env s m)) 0 k"
    if "cl_sendBuffer s = cl_sendBuffer self" "0 \<le> m" "m + k \<le> ?n + 804" for s m k
    using v that xs(5) by (auto simp: client_part_def valid_range_def)
  have pay: "chain_wf (payload_part ?b ?n)" "0 < bc_partLength (payload_part ?b ?n)" "bc_length (payload_part ?b ?n) \<le> 64000"
      "chain_bytes (payload_part ?b ?n) = xs"
    using bb_wf_range [OF xs(1)] sz xs by (simp_all add: bb_bytes_def)
  define s1 where "s1 = self\<lparr>cl_acse := AcseConnection_init (cl_acse self) None () None\<rparr>"
  have s1: "cl_sendBuffer s1 = cl_sendBuffer self" "cl_parameters s1 = ?p" "transmitPayloadBuffer s1 = transmitPayloadBuffer self"
    "cl_presentation s1 = cl_presentation self" by (simp_all add: s1_def)
  obtain a where a: "AcseConnection_createAssociateRequestMessage (env_le env) (cl_acse s1) ?p (client_part env s1 ?n) (payload_part ?b ?n)
        (password_auth pw) = Some a" "chain_wf a" "0 < bc_partLength a" "chain_bytes a = client_aarq ?p pw xs"
    using createAssociateRequest_run [OF pay(1-3) p pw(2) part [OF s1(1)], of ?n "env_le env" "cl_acse s1"] pay(4) by auto
  have la: "bc_length a \<le> ?n + 632" "0 \<le> bc_length a"
    using chain_length [OF a(2)] a(4) length_client_aarq [OF p pw(2), of xs] by simp_all
  define pres where "pres = (cl_presentation self)\<lparr>acseContextId := 1, mmsContextId := 3, callingPresentationSelector := localPSelector ?p,
    calledPresentationSelector := remotePSelector ?p\<rparr>"
  have "pres_ok pres" using p by (simp add: pres_ok_def pres_def params_ok_def)
  from createConnectPdu_run [OF this a(2,3) _ part [OF s1(1)], of "bc_length a"] la xs(4) obtain q where
    q: "IsoPresentation_createConnectPdu (cl_presentation self) ?p (client_part env s1 (bc_length a)) a = Some (pres, q)" "chain_wf q"
      "0 < bc_partLength q" "bc_partLength q \<le> 120"
      "chain_bytes q = cp_type (normal_cp (sel_bytes (localPSelector ?p)) (sel_bytes (remotePSelector ?p)) (user_data 1 (client_aarq ?p pw xs)))"
    using a(4) by (auto simp: IsoPresentation_createConnectPdu_def pres_def)
  have "length (sel_bytes (localPSelector ?p)) \<le> 16" "length (sel_bytes (remotePSelector ?p)) \<le> 16"
    using p by (simp_all add: params_ok_def sel_bytes_def selector_ok_def min_def)
  from header_lengths(2) [OF this, of 1 "client_aarq ?p pw xs"]
  have lq: "bc_length q \<le> ?n + 752" "0 \<le> bc_length q"
    using chain_length [OF q(2)] q(5) la chain_length [OF a(2)] a(4) by (simp_all add: cp_header [symmetric])
  obtain t where t: "IsoSession_createConnectSpdu IsoSession_init ?p (client_part env (s1\<lparr>cl_presentation := pres\<rparr>) (bc_length q)) q = Some
        (IsoSession_init\<lparr>calledSessionSelector := remoteSSelector ?p, callingSessionSelector := localSSelector ?p\<rparr>, t)" "chain_wf t"
      "chain_bytes t = connect_octets ?p pw (sessionRequirement IsoSession_init) xs"
    using createConnectSpdu_run [OF p q(2,3) part, of "s1\<lparr>cl_presentation := pres\<rparr>" "bc_length q" IsoSession_init] lq s1(1) q(5)
    by (auto simp: connect_octets_def)
  show ?thesis using a(1) q(1) t p sz pw(1)
    by (simp add: initiate_request_def Let_def s1_def [symmetric] s1 IsoPresentation_init_def session_ok_def params_ok_def, simp add: pres_def)
qed

text \<open>The answer to it.\<close>

lemma parse_session_accept:
  assumes "bytebuffer_ok api" and "bb_wf m" and "bb_bytes m = spdu 14 (accept_params options called r) xs" and "bb_size m \<le> 257"
    and "session_ok s" and "selector_ok 16 called"
  shows "\<exists>s'. IsoSession_parseMessage api s m = Some (SESSION_CONNECT, s') \<and> session_ok s' \<and>
    bb_wf (IsoSession_getUserData s') \<and> bb_bytes (IsoSession_getUserData s') = xs"
  using accept_params_parsed [OF assms(2,3,1,5,6)] parse_spdu [OF assms(2,3), of SESSION_CONNECT api s] assms(4-6)
  by (auto simp: session_ok_def stored_bytes stored_ok IsoSession_getUserData_def)

lemma associate_response_run:
  assumes api: "bytebuffer_ok (env_bb env)" and s: "session_ok (cl_session self)"
    and m: "bb_wf (cc_payload (cl_cotp self))" "bb_bytes (cc_payload (cl_cotp self)) = accept_octets options called r ctx [3] ys"
      "length (accept_octets options called r ctx [3] ys) \<le> 257"
    and called: "selector_ok 16 called" and ys: "ys \<noteq> []" "length ys \<le> 64000"
  shows "\<exists>b self'. associate_response env cb self w = do {
      (ok, self, w) \<leftarrow> cb ISO_IND_ASSOCIATION_SUCCESS (Some b) self' w;
      Some (False, if ok then INT_STATE_WAIT_FOR_DATA_MSG else INT_STATE_CLOSE_ON_ERROR, reset_payload self, w) } \<and>
    bb_wf b \<and> bb_bytes b = ys \<and> cl_state self' = STATE_CONNECTED \<and>
    mmsContextId (cl_presentation self') = mmsContextId (cl_presentation self) \<and> cl_cotp self' = cl_cotp self"
proof -
  have sz: "bb_size (cc_payload (cl_cotp self)) \<le> 257" using bb_bytes_length [OF m(1)] m by simp
  obtain s' where s': "IsoSession_parseMessage (env_bb env) (cl_session self) (cc_payload (cl_cotp self)) = Some (SESSION_CONNECT, s')"
      "bb_wf (IsoSession_getUserData s')" "bb_bytes (IsoSession_getUserData s') = cp_type (normal_cpa (user_data ctx (aare 0 [3] ys)))"
    using parse_session_accept [OF api m(1) m(2) [unfolded accept_octets_def] sz s called] by blast
  have a: "aare 0 [3] ys \<noteq> []" "length (aare 0 [3] ys) \<le> 65000" using header_bounds(1) [of 0 "[3]" ys] ys by (auto simp: aare_header)
  obtain pres where p: "IsoPresentation_parseAcceptMessage (cl_presentation self) (IsoSession_getUserData s') = Some (1, pres)"
      "mmsContextId pres = mmsContextId (cl_presentation self)" "bb_size (nextPayload pres) = int (length (aare 0 [3] ys))"
      "bb_bytes (nextPayload pres) = aare 0 [3] ys" "valid_range (bb_buffer (nextPayload pres)) 0 (int (length (aare 0 [3] ys)))"
    using accept_message_read [OF s'(2,3) a, of "cl_presentation self"] by blast
  let ?m = "(nextPayload pres)\<lparr>bb_maxSize := bb_size (nextPayload pres)\<rparr>"
  have "bb_wf ?m" "bb_bytes ?m = aare 0 [3] ys" using p(3-5) by (simp_all add: bb_wf_def bb_bytes_def)
  from aare_read [OF this _ _ ys, of "env_cert env" "cl_acse self"] obtain d where d: "valid_range d 0 (int (length ys))" "octets_at d (int (length ys)) = ys"
      "AcseConnection_parseMessage (env_cert env) (cl_acse self) (Some (nextPayload pres)) = Some (ACSE_ASSOCIATE, (cl_acse self)\<lparr>
        nextReference := uint (word_of_int (be_uint [3]) :: 32 word), userDataBufferSize := int (length ys), userDataBuffer := Some d\<rparr>)"
    by (auto simp: acse_parse_capacity)
  let ?b = "\<lparr>bb_buffer = d, bb_size = int (length ys), bb_maxSize = int (length ys)\<rparr>"
  have "bb_wf ?b" "bb_bytes ?b = ys" using d(1,2) by (simp_all add: bb_wf_def bb_bytes_def)
  moreover define s3 where "s3 = self\<lparr>cl_session := s', cl_presentation := pres, cl_acse := (cl_acse self)\<lparr>
        nextReference := uint (word_of_int (be_uint [3]) :: 32 word), userDataBufferSize := int (length ys), userDataBuffer := Some d\<rparr>,
    receivePayloadBuffer := ?b, cl_state := STATE_CONNECTED\<rparr>"
  have "associate_response env cb self w = do {
      (ok, self, w) \<leftarrow> cb ISO_IND_ASSOCIATION_SUCCESS (Some ?b) s3 w;
      Some (False, if ok then INT_STATE_WAIT_FOR_DATA_MSG else INT_STATE_CLOSE_ON_ERROR, reset_payload self, w) }"
    using s'(1) p(1) d(3)
    by (simp add: associate_response_def associated_def setState_def wrap_ok [OF api] s3_def Let_def del: of_int_of_nat_eq split: Option.bind_split prod.split)
  ultimately show ?thesis using p(2) by (intro exI [of _ ?b] exI [of _ s3]) (simp add: s3_def)
qed

text \<open>Data, in both directions.\<close>

lemma client_send_run:
  assumes env: "env_ok wire inbox env" and ok: "client_ok env self" and st: "cl_state self = STATE_CONNECTED"
    and xs: "bb_wf b" "bb_bytes b = xs" "xs \<noteq> []" "length xs \<le> 65000" "int (length xs) + 18 \<le> ISO_CLIENT_BUFFER_SIZE env"
    and cotp: "can_send e (int (length (data_octets (mmsContextId (cl_presentation self)) xs))) (cl_cotp self)"
  shows "\<exists>self' w'. IsoClientConnection_sendMessage env self b w = Some (self', w') \<and>
    transmitted wire e (cl_cotp self) w (cl_cotp self') w' (data_octets (mmsContextId (cl_presentation self)) xs)"
proof -
  let ?n = "int (length xs)" and ?ctx = "mmsContextId (cl_presentation self)"
  have sz: "bb_size b = ?n" using bb_bytes_length [OF xs(1)] xs(2) by simp
  have "valid_range (bb_buffer b) 0 ?n" "octets_at (bb_buffer b) ?n = xs" "valid_range (bc_buffer (client_part env self ?n)) 0 18"
    using bb_wf_range [OF xs(1)] sz xs(2,5) ok by (auto simp: bb_bytes_def client_ok_def client_part_def valid_range_def)
  from data_chain [OF this(1,2) xs(3,4) this(3), of "cl_presentation self"] obtain part where
    part: "IsoPresentation_createUserData (cl_presentation self) (client_part env self ?n) (payload_part (bb_buffer b) ?n) = Some part"
      "\<forall>d. chain_wf (IsoSession_createDataSpdu d part) \<and> bc_length (IsoSession_createDataSpdu d part) = int (length (data_octets ?ctx xs)) \<and>
        chain_bytes (IsoSession_createDataSpdu d part) = data_octets ?ctx xs" by auto
  have n: "int (length (data_octets ?ctx xs)) < 2 ^ 27" using length_data_octets [of ?ctx xs] xs(4) by simp
  obtain cotp' w' where "CotpConnection_sendDataMessage (env_bb env) (env_net env) (cl_cotp self)
      (IsoSession_createDataSpdu (client_part env self 0) part) w = Some (COTP_OK, cotp', w')"
      "transmitted wire e (cl_cotp self) w cotp' w' (data_octets ?ctx xs)"
    using send_run [OF env cotp _ _ n] part(2) by (metis order_refl)
  then show ?thesis using part(1) st sz
    by (simp add: IsoClientConnection_sendMessage_def send_part_def IsoClientConnection_releaseTransmitBuffer_def)
qed

lemma data_message_run:
  assumes api: "bytebuffer_ok (env_bb env)"
    and m: "bb_wf (cc_payload (cl_cotp self))" "bb_bytes (cc_payload (cl_cotp self)) = data_octets ctx ys" "length ys \<le> 65000"
  shows "\<exists>b self'. data_message env cb self w = do {
      (_, self, w) \<leftarrow> cb ISO_IND_DATA (Some b) self' w;
      Some (False, INT_STATE_WAIT_FOR_DATA_MSG, reset_payload self, w) } \<and>
    bb_wf b \<and> bb_bytes b = ys \<and> cl_state self' = cl_state self \<and> cl_cotp self' = cl_cotp self"
proof -
  obtain u where s: "IsoSession_parseMessage (env_bb env) (cl_session self) (cc_payload (cl_cotp self)) =
      Some (SESSION_DATA, (cl_session self)\<lparr>ss_userData := u\<rparr>)" "bb_wf u" "bb_bytes u = user_data ctx ys"
    using session_data [OF api m(1) m(2) [unfolded data_octets_def]] by blast
  obtain b where p: "IsoPresentation_parseUserData (env_bb env) (cl_presentation self) u =
      Some (1, (cl_presentation self)\<lparr>nextContextId := ctx, nextPayload := b\<rparr>)" "bb_wf b" "bb_bytes b = ys"
    using user_data_reads [OF api s(2,3) m(3), of "cl_presentation self"] by blast
  let ?self = "self\<lparr>cl_session := (cl_session self)\<lparr>ss_userData := u\<rparr>,
    cl_presentation := (cl_presentation self)\<lparr>nextContextId := ctx, nextPayload := b\<rparr>\<rparr>"
  show ?thesis using s(1) p
    by (intro exI [of _ b] exI [of _ ?self]) (simp add: data_message_def IsoSession_getUserData_def Let_def)
qed

section \<open>The transmit buffer\<close>

text \<open>
  The buffer is held from the call of \<open>IsoClientConnection_associateAsync\<close> until the request for an
  association has been sent or the connection attempt has failed.
\<close>

definition transmit_inv :: "('tls, 'h) IsoClientConnection \<Rightarrow> bool" where
  "transmit_inv self \<longleftrightarrow> transmitBufferMutex self =
     (if intState self \<in> {INT_STATE_TCP_CONNECTING, INT_STATE_WAIT_FOR_COTP_CONNECT_RESP} then 0 else 1)"

definition keeps_mutex :: "('w, 'tls, 'h) IsoIndicationCallback \<Rightarrow> bool" where
  "keeps_mutex cb \<longleftrightarrow> (\<forall>ind b self w ok self' w'. cb ind b self w = Some (ok, self', w') \<longrightarrow> transmitBufferMutex self' = transmitBufferMutex self)"

lemma keeps_mutexD: "keeps_mutex cb \<Longrightarrow> cb ind b self w = Some (ok, self', w') \<Longrightarrow> transmitBufferMutex self' = transmitBufferMutex self"
  unfolding keeps_mutex_def by blast

lemma sendConnectionRequest_mutex:
  "sendConnectionRequestMessage env u2 u3 self sock w = Some (ok, self', w') \<Longrightarrow> transmitBufferMutex self' = transmitBufferMutex self"
  by (auto simp: sendConnectionRequestMessage_def Let_def split: Option.bind_split_asm if_split_asm prod.split_asm option.split_asm)

lemma sendAcseInitiateRequest_mutex:
  "sendAcseInitiateRequest env self w = Some (self', w') \<Longrightarrow> transmitBufferMutex self' = transmitBufferMutex self + 1"
  by (auto simp: sendAcseInitiateRequest_def initiate_request_def send_part_def IsoClientConnection_releaseTransmitBuffer_def Let_def
      split: Option.bind_split_asm prod.split_asm)

lemma releaseSocket_mutex: "releaseSocket env self w = (self', w') \<Longrightarrow> transmitBufferMutex self' = transmitBufferMutex self"
  by (auto simp: releaseSocket_def Let_def split: option.split_asm)

lemma association_failed_mutex:
  assumes "keeps_mutex cb" and "association_failed cb self w = Some (waits, next, self', w')"
  shows "transmitBufferMutex self' = transmitBufferMutex self \<and> next = INT_STATE_CLOSE_ON_ERROR"
  using assms(2) by (auto simp: association_failed_def split: Option.bind_split_asm dest: keeps_mutexD [OF assms(1)])

lemma connect_failed_mutex:
  assumes "keeps_mutex cb" and "connect_failed cb self w = Some (waits, next, self', w')"
  shows "transmitBufferMutex self' = transmitBufferMutex self + 1 \<and> next = INT_STATE_CLOSE_ON_ERROR"
  using association_failed_mutex [OF assms(1), of _ w] assms(2)
  by (auto simp: connect_failed_def IsoClientConnection_releaseTransmitBuffer_def)

text \<open>What each case of the state machine does to the buffer.\<close>

lemma tcp_connecting_mutex:
  assumes "keeps_mutex cb" and "tcp_connecting env cb u2 u3 self w = Some (waits, next, self', w')"
  shows "next \<in> {INT_STATE_TCP_CONNECTING, INT_STATE_WAIT_FOR_COTP_CONNECT_RESP} \<and> transmitBufferMutex self' = transmitBufferMutex self \<or>
    next = INT_STATE_CLOSE_ON_ERROR \<and> transmitBufferMutex self' = transmitBufferMutex self + 1"
  using assms(2)
  by (auto simp: tcp_connecting_def restart_timeout_def Let_def split: Option.bind_split_asm if_split_asm prod.split_asm
      dest!: connect_failed_mutex [OF assms(1)] sendConnectionRequest_mutex)

lemma wait_for_cotp_mutex:
  assumes "keeps_mutex cb" and "wait_for_cotp_connect_resp env cb self w = Some (waits, next, self', w')"
  shows "next = INT_STATE_WAIT_FOR_COTP_CONNECT_RESP \<and> transmitBufferMutex self' = transmitBufferMutex self \<or>
    next \<in> {INT_STATE_CLOSE_ON_ERROR, INT_STATE_WAIT_FOR_ACSE_RESP} \<and> transmitBufferMutex self' = transmitBufferMutex self + 1"
  using assms(2)
  by (auto simp: wait_for_cotp_connect_resp_def restart_timeout_def Let_def split: Option.bind_split_asm if_split_asm prod.split_asm
      dest!: connect_failed_mutex [OF assms(1)] sendAcseInitiateRequest_mutex)

lemma associate_response_mutex:
  assumes "keeps_mutex cb" and "associate_response env cb self w = Some (waits, next, self', w')"
  shows "next \<in> {INT_STATE_CLOSE_ON_ERROR, INT_STATE_WAIT_FOR_DATA_MSG} \<and> transmitBufferMutex self' = transmitBufferMutex self"
  using assms(2)
  by (auto simp: associate_response_def associated_def reset_payload_def setState_def Let_def split: Option.bind_split_asm if_split_asm prod.split_asm
      dest!: association_failed_mutex [OF assms(1)] keeps_mutexD [OF assms(1)])

lemma wait_for_acse_mutex:
  assumes "keeps_mutex cb" and "wait_for_acse_resp env cb self w = Some (waits, next, self', w')"
  shows "next \<in> {INT_STATE_CLOSE_ON_ERROR, INT_STATE_WAIT_FOR_DATA_MSG, INT_STATE_WAIT_FOR_ACSE_RESP} \<and>
    transmitBufferMutex self' = transmitBufferMutex self"
  using assms(2)
  by (auto simp: wait_for_acse_resp_def Let_def split: Option.bind_split_asm if_split_asm prod.split_asm
      dest!: association_failed_mutex [OF assms(1)] associate_response_mutex [OF assms(1)])

lemma wait_for_data_mutex:
  assumes "keeps_mutex cb" and "wait_for_data_msg env cb self w = Some (waits, next, self', w')"
  shows "next \<in> {INT_STATE_CLOSE_ON_ERROR, INT_STATE_WAIT_FOR_DATA_MSG, INT_STATE_CLOSING_CONNECTION} \<and>
    transmitBufferMutex self' = transmitBufferMutex self"
  using assms(2)
  by (auto simp: wait_for_data_msg_def data_message_def reset_payload_def Let_def
      split: Option.bind_split_asm if_split_asm prod.split_asm CotpIndication.split_asm dest!: keeps_mutexD [OF assms(1)])

lemma close_connection_mutex:
  assumes "keeps_mutex cb" and "close_connection env cb st nxt self w = Some (waits, next, self', w')"
  shows "next = nxt \<and> transmitBufferMutex self' = transmitBufferMutex self"
  using assms(2)
  by (auto simp: close_connection_def setState_def split: Option.bind_split_asm prod.split_asm dest!: keeps_mutexD [OF assms(1)] releaseSocket_mutex)

section \<open>Properties\<close>


text \<open>
  Two paths lose the transmit buffer. \<open>IsoClientConnection_associateAsync\<close> without a socket, and
  \<open>IsoClientConnection_close\<close> before the request for an association has been sent, leave the connection idle
  without releasing the buffer: the next \<open>IsoClientConnection_allocateTransmitBuffer\<close>, which every
  new request starts with, never returns.
\<close>

theorem transmit_buffer_lost:
  assumes "keeps_mutex cb" and "\<forall>ind b self w. cb ind b self w \<noteq> None" and "transmitBufferMutex self = 0"
  shows "(fst (TcpSocket_create env w) = None \<longrightarrow>
      (\<exists>self' w'. IsoClientConnection_associateAsync env self t1 t2 w = (False, self', w') \<and>
        IsoClientConnection_allocateTransmitBuffer env self' = None)) \<and>
    (intState self \<in> {INT_STATE_TCP_CONNECTING, INT_STATE_WAIT_FOR_COTP_CONNECT_RESP} \<longrightarrow>
      (\<exists>self' w'. IsoClientConnection_close env cb u2 u3 self w = Some (self', w') \<and> intState self' = INT_STATE_IDLE \<and>
        IsoClientConnection_allocateTransmitBuffer env self' = None))"
proof (intro conjI impI)
  assume "fst (TcpSocket_create env w) = None"
  then show "\<exists>self' w'. IsoClientConnection_associateAsync env self t1 t2 w = (False, self', w') \<and>
      IsoClientConnection_allocateTransmitBuffer env self' = None"
    using assms(3) by (cases "TcpSocket_create env w") (simp add: IsoClientConnection_associateAsync_def IsoClientConnection_allocateTransmitBuffer_def)
next
  assume st: "intState self \<in> {INT_STATE_TCP_CONNECTING, INT_STATE_WAIT_FOR_COTP_CONNECT_RESP}"
  let ?self = "setIntState self INT_STATE_CLOSING_CONNECTION"
  obtain ok self1 w1 where c1: "cb ISO_IND_CLOSED None (setState ?self STATE_IDLE) w = Some (ok, self1, w1)"
    using assms(2) by (metis option.exhaust prod_cases3)
  obtain self2 w2 where c2: "releaseSocket env self1 w1 = (self2, w2)" by fastforce
  obtain ok3 self3 w3 where c3: "cb ISO_IND_TICK None self2 w2 = Some (ok3, self3, w3)"
    using assms(2) by (metis option.exhaust prod_cases3)
  have "IsoClientConnection_handleConnection env cb u2 u3 ?self w = Some (False, setIntState self3 INT_STATE_IDLE, w3)"
    using c1 c2 c3 by (simp add: IsoClientConnection_handleConnection_def close_connection_def setIntState_def)
  moreover have "transmitBufferMutex self3 = 0"
    using keeps_mutexD [OF assms(1) c1] keeps_mutexD [OF assms(1) c3] releaseSocket_mutex [OF c2] assms(3) by (simp add: setState_def setIntState_def)
  ultimately show "\<exists>self' w'. IsoClientConnection_close env cb u2 u3 self w = Some (self', w') \<and> intState self' = INT_STATE_IDLE \<and>
      IsoClientConnection_allocateTransmitBuffer env self' = None"
    using st by (auto simp: IsoClientConnection_close_def IsoClientConnection_allocateTransmitBuffer_def setState_def setIntState_def)
qed

section \<open>Examples\<close>

text \<open>A platform without sockets on a clock that stands still, a callback that does nothing, and a new client.\<close>

definition example_client_env :: "(byte list \<times> byte list, unit) IsoClientEnv" where
  "example_client_env = IsoEnv.extend example_env \<lparr>TcpSocket_create = (\<lambda>w. (None, w)), Socket_bind = (\<lambda>_ _ _ w. w),
     Socket_connectAsync = (\<lambda>_ _ _ w. (True, w)), Socket_checkAsyncConnectState = (\<lambda>_ w. (SOCKET_STATE_CONNECTED, w)),
     Socket_destroy = (\<lambda>_ w. w), TLSSocket_create = (\<lambda>_ _ _ w. (None, w)), TLSSocket_close = (\<lambda>_ w. w),
     Handleset_destroy = (\<lambda>_ w. w), Hal_getTimeInMs = (\<lambda>w. (0, w))\<rparr>"

definition quiet_callback :: "('w, 'tls, 'h) IsoIndicationCallback" where
  "quiet_callback ind b self w = Some (True, self, w)"

definition example_client :: "(unit, unit) IsoClientConnection" where
  "example_client = IsoClientConnection_create example_client_env IsoConnectionParameters_create ()"

lemma quiet [simp]: "keeps_mutex quiet_callback" "quiet_callback ind b self w = Some (True, self, w)"
  by (simp_all add: keeps_mutex_def quiet_callback_def)

lemma client_env_defs: "env_bb example_client_env = plain_bytebuffer" "env_net example_client_env = chunk_net 100" "env_maxPdu example_client_env = 2000"
  "env_malloc example_client_env n = replicate (nat n) 0" "TcpSocket_create example_client_env w = (None, w)"
  by (simp_all add: example_client_env_def IsoEnv.defs example_env_def)


theorem transmit_buffer_lost_witness:
  "\<exists>self' w'. IsoClientConnection_close example_client_env quiet_callback 0 0
      (example_client\<lparr>intState := INT_STATE_TCP_CONNECTING, transmitBufferMutex := 0\<rparr>) ([], []) = Some (self', w') \<and>
    IsoClientConnection_allocateTransmitBuffer example_client_env self' = None"
  using transmit_buffer_lost [OF quiet(1), of "example_client\<lparr>intState := INT_STATE_TCP_CONNECTING, transmitBufferMutex := 0\<rparr>" example_client_env
      "([], [])" 0 0 0 0] by auto

end
