(* ===== verification/Mms_Value.thy ===== *)
theory Mms_Value
  imports Ber_Integer
begin

text \<open>
  The values of the MMS type system, \<^verbatim>\<open>src/sources/mms/iso_mms/common/mms_value.c\<close> and
  \<^verbatim>\<open>inc_private/mms_value_internal.h\<close>: their construction, comparison, copying and updating, and
  the operations on bit strings, octet strings, strings, times and components.

  A value is a tag and a union. The constructor of \<open>MmsValue\<close> is the member of the union in
  use; a member that serves two types carries the tag \<open>type\<close> as well. The first octet of every
  constructor is the field \<open>deleteValue\<close>. A function that reads a member of a value of another
  type has no defined result. Memory is allocated successfully throughout; the contents of memory
  that is not cleared is a parameter.
\<close>

datatype MmsType = MMS_ARRAY | MMS_STRUCTURE | MMS_BOOLEAN | MMS_BIT_STRING | MMS_INTEGER | MMS_UNSIGNED
  | MMS_FLOAT | MMS_OCTET_STRING | MMS_VISIBLE_STRING | MMS_GENERALIZED_TIME | MMS_BINARY_TIME | MMS_BCD
  | MMS_OBJ_ID | MMS_STRING | MMS_UTC_TIME | MMS_DATA_ACCESS_ERROR

text \<open>
  \<open>V_floatingPoint\<close>: exponent width, format width, the eight octets of the image in memory.
  \<open>V_octetString\<close>: size, maximum size, octets. \<open>V_bitString\<close>: number of bits, octets.
  \<open>V_visibleString\<close>: the array with the terminated string (or \<open>NULL\<close>) and the \<open>int16_t\<close> size.
  \<open>V_binaryTime\<close>: size and six octets.
\<close>

datatype MmsValue =
    V_structure MmsType byte "MmsValue option list"
  | V_boolean byte bool
  | V_integer MmsType byte Asn1PrimitiveValue
  | V_floatingPoint byte byte byte "byte list"
  | V_octetString byte "16 word" int "byte list"
  | V_bitString byte int "byte list"
  | V_visibleString MmsType byte "byte list option" "16 word"
  | V_utcTime byte "byte list"
  | V_binaryTime byte byte "byte list"
  | V_dataAccessError byte "32 word"

text \<open>
  What the file uses of the platform layer: the byte order, the contents of a new block of memory,
  and three functions on octets and strings. A string is an array with a terminating NUL.
\<close>

record HalApi =
  hal_le :: bool
  hal_malloc :: "int \<Rightarrow> byte list"
  memcpyReverseByteOrder :: "byte list \<Rightarrow> byte list"
  copyStringMax :: "byte list \<Rightarrow> int \<Rightarrow> byte list \<Rightarrow> byte list option"
  createStringFromBuffer :: "byte list \<Rightarrow> byte list"

text \<open>The characters of a terminated string; reading on behind the array is undefined.\<close>

definition c_string :: "byte list \<Rightarrow> byte list option" where
  "c_string buf = (if 0 \<in> set buf then Some (takeWhile (\<lambda>c. c \<noteq> 0) buf) else None)"

text \<open>
  What the platform layer promises: a block has the size asked for, \<open>memcpyReverseByteOrder\<close>
  reverses, \<open>StringUtils_copyStringMax\<close> copies at most one character less than it is allowed to
  and terminates, \<open>StringUtils_createStringFromBuffer\<close> appends the NUL.
\<close>

definition hal_ok :: "HalApi \<Rightarrow> bool" where
  "hal_ok h \<longleftrightarrow> (\<forall>n. 0 \<le> n \<longrightarrow> length (hal_malloc h n) = nat n) \<and>
     (\<forall>xs. memcpyReverseByteOrder h xs = rev xs) \<and>
     (\<forall>dst n buf s. 0 < n \<longrightarrow> n \<le> int (length dst) \<longrightarrow> c_string buf = Some s \<longrightarrow>
        copyStringMax h dst n buf = (let t = take (nat n - 1) s in Some (t @ 0 # drop (length t + 1) dst))) \<and>
     (\<forall>xs. createStringFromBuffer h xs = xs @ [0])"

fun MmsValue_getType :: "MmsValue \<Rightarrow> MmsType" where
  "MmsValue_getType (V_structure t _ _) = t"
| "MmsValue_getType (V_boolean _ _) = MMS_BOOLEAN"
| "MmsValue_getType (V_integer t _ _) = t"
| "MmsValue_getType (V_floatingPoint _ _ _ _) = MMS_FLOAT"
| "MmsValue_getType (V_octetString _ _ _ _) = MMS_OCTET_STRING"
| "MmsValue_getType (V_bitString _ _ _) = MMS_BIT_STRING"
| "MmsValue_getType (V_visibleString t _ _ _) = t"
| "MmsValue_getType (V_utcTime _ _) = MMS_UTC_TIME"
| "MmsValue_getType (V_binaryTime _ _ _) = MMS_BINARY_TIME"
| "MmsValue_getType (V_dataAccessError _ _) = MMS_DATA_ACCESS_ERROR"

section \<open>Bit strings\<close>

text \<open>\<open>bitStringByteSize\<close> and \<open>getBitStringByteSize\<close>, on the number of bits.\<close>

definition bitStringByteSize :: "int \<Rightarrow> int" where
  "bitStringByteSize bitSize = bitSize sdiv 8 + (if bitSize smod 8 > 0 then 1 else 0)"

definition getBitStringByteSize :: "int \<Rightarrow> int" where
  "getBitStringByteSize bitSize = (if bitSize smod 8 \<noteq> 0 then bitSize sdiv 8 + 1 else bitSize sdiv 8)"

fun MmsValue_getBitStringByteSize :: "MmsValue \<Rightarrow> int option" where
  "MmsValue_getBitStringByteSize (V_bitString d n buf) = Some (bitStringByteSize n)"
| "MmsValue_getBitStringByteSize _ = None"

definition MmsValue_newBitString :: "int \<Rightarrow> MmsValue" where
  "MmsValue_newBitString bitSize = V_bitString 0 \<bar>bitSize\<bar> (replicate (nat (bitStringByteSize \<bar>bitSize\<bar>)) 0)"

fun MmsValue_getBitStringSize :: "MmsValue \<Rightarrow> int option" where
  "MmsValue_getBitStringSize (V_bitString d n buf) = Some n"
| "MmsValue_getBitStringSize _ = None"

text \<open>\<open>for (i = 0; i < n; i++) buf[i] = x;\<close>\<close>

definition fill_bytes :: "int \<Rightarrow> byte \<Rightarrow> byte list \<Rightarrow> byte list option" where
  "fill_bytes n x buf = do { p \<leftarrow> for_range 0 n (\<lambda>i p. wr p i x) (buf, 0); Some (fst p) }"

text \<open>\<open>for (i = 0; i < padding; i++) mask += (1 << i); mask = ~mask;\<close> on a \<open>uint8_t\<close>\<close>

definition padding_mask_of :: "int \<Rightarrow> byte option" where
  "padding_mask_of padding = do {
     m \<leftarrow> for_range 0 padding (\<lambda>i m. do { x \<leftarrow> shl1 i; Some (m + word_of_int x) }) (0 :: byte);
     Some (NOT m) }"

fun MmsValue_deleteAllBitStringBits :: "MmsValue \<Rightarrow> MmsValue option" where
  "MmsValue_deleteAllBitStringBits (V_bitString d n buf) = do {
     buf \<leftarrow> fill_bytes (getBitStringByteSize n) 0 buf;
     Some (V_bitString d n buf) }"
| "MmsValue_deleteAllBitStringBits _ = None"

fun MmsValue_setAllBitStringBits :: "MmsValue \<Rightarrow> MmsValue option" where
  "MmsValue_setAllBitStringBits (V_bitString d n buf) = do {
     let byteSize = getBitStringByteSize n;
     buf \<leftarrow> fill_bytes byteSize 0xff buf;
     paddingMask \<leftarrow> padding_mask_of (byteSize * 8 - n);
     x \<leftarrow> rd (buf, 0) (byteSize - 1);
     b \<leftarrow> wr (buf, 0) (byteSize - 1) (x AND paddingMask);
     Some (V_bitString d n (fst b)) }"
| "MmsValue_setAllBitStringBits _ = None"

text \<open>\<open>while (currentByte != 0) { if ((currentByte & 1) == 1) setBitsCount++; currentByte >>= 1; }\<close>\<close>

function count_bits :: "byte \<Rightarrow> int" where
  "count_bits currentByte = (if currentByte \<noteq> 0
     then (if currentByte AND 1 = 1 then 1 else 0) + count_bits (drop_bit 1 currentByte) else 0)"
  by pat_completeness auto
termination
proof (relation "measure unat")
  fix b :: byte assume "b \<noteq> 0"
  then have "0 < unat b" by (simp add: unat_gt_0)
  then show "(drop_bit 1 b, b) \<in> measure unat" by (simp add: drop_bit_eq_div unat_div)
qed simp

declare count_bits.simps [simp del]

fun MmsValue_getNumberOfSetBits :: "MmsValue \<Rightarrow> (int \<times> MmsValue) option" where
  "MmsValue_getNumberOfSetBits (V_bitString d n buf) = do {
     let byteSize = getBitStringByteSize n;
     (c, buf) \<leftarrow> for_range 0 byteSize (\<lambda>i (c, buf). do {
         buf \<leftarrow> (if i = byteSize - 1 then do {
             mask \<leftarrow> padding_mask_of (byteSize * 8 - n);
             x \<leftarrow> rd buf i;
             wr buf i (x AND mask) }
           else Some buf);
         x \<leftarrow> rd buf i;
         Some (c + count_bits x, buf) }) (0, (buf, 0));
     Some (c, V_bitString d n (fst buf)) }"
| "MmsValue_getNumberOfSetBits _ = None"

fun MmsValue_setBitStringBit :: "MmsValue \<Rightarrow> int \<Rightarrow> bool \<Rightarrow> MmsValue option" where
  "MmsValue_setBitStringBit (V_bitString d n buf) bitPos v =
     (if bitPos < n then do {
        let bytePos = bitPos sdiv 8;
        let bitPosInByte = 7 - bitPos smod 8;
        bitMask \<leftarrow> shl1 bitPosInByte;
        x \<leftarrow> rd (buf, 0) bytePos;
        b \<leftarrow> wr (buf, 0) bytePos (if v then x OR word_of_int bitMask else x AND NOT (word_of_int bitMask));
        Some (V_bitString d n (fst b)) }
      else Some (V_bitString d n buf))"
| "MmsValue_setBitStringBit _ _ _ = None"

fun MmsValue_getBitStringBit :: "MmsValue \<Rightarrow> int \<Rightarrow> bool option" where
  "MmsValue_getBitStringBit (V_bitString d n buf) bitPos =
     (if bitPos < n then do {
        let bytePos = bitPos sdiv 8;
        let bitPosInByte = 7 - bitPos smod 8;
        bitMask \<leftarrow> shl1 bitPosInByte;
        x \<leftarrow> rd (buf, 0) bytePos;
        Some (uint x AND bitMask > 0) }
      else Some False)"
| "MmsValue_getBitStringBit _ _ = None"

definition MmsValue_getBitStringAsInteger :: "MmsValue \<Rightarrow> 32 word option" where
  "MmsValue_getBitStringAsInteger self = do {
     n \<leftarrow> MmsValue_getBitStringSize self;
     for_range 0 n (\<lambda>bitPos v. do {
       b \<leftarrow> MmsValue_getBitStringBit self bitPos;
       if b then do { x \<leftarrow> shl1 bitPos; Some (v + word_of_int x) } else Some v }) 0 }"

definition MmsValue_setBitStringFromInteger :: "MmsValue \<Rightarrow> 32 word \<Rightarrow> MmsValue option" where
  "MmsValue_setBitStringFromInteger self intValue = do {
     n \<leftarrow> MmsValue_getBitStringSize self;
     (self, _) \<leftarrow> for_range 0 n (\<lambda>bitPos (self, intValue). do {
       self \<leftarrow> MmsValue_setBitStringBit self bitPos (intValue AND 1 = 1);
       Some (self, drop_bit 1 intValue) }) (self, intValue);
     Some self }"

text \<open>The loops \<open>for (bitPos = size - 1; bitPos >= 0; bitPos--)\<close>; the \<open>i\<close>-th round has \<open>bitPos = size - 1 - i\<close>.\<close>

definition MmsValue_getBitStringAsIntegerBigEndian :: "MmsValue \<Rightarrow> 32 word option" where
  "MmsValue_getBitStringAsIntegerBigEndian self = do {
     n \<leftarrow> MmsValue_getBitStringSize self;
     for_range 0 n (\<lambda>i v. do {
       b \<leftarrow> MmsValue_getBitStringBit self (n - 1 - i);
       if b then do { x \<leftarrow> shl1 i; Some (v + word_of_int x) } else Some v }) 0 }"

definition MmsValue_setBitStringFromIntegerBigEndian :: "MmsValue \<Rightarrow> 32 word \<Rightarrow> MmsValue option" where
  "MmsValue_setBitStringFromIntegerBigEndian self intValue = do {
     n \<leftarrow> MmsValue_getBitStringSize self;
     (self, _) \<leftarrow> for_range 0 n (\<lambda>i (self, intValue). do {
       self \<leftarrow> MmsValue_setBitStringBit self (n - 1 - i) (intValue AND 1 = 1);
       Some (self, drop_bit 1 intValue) }) (self, intValue);
     Some self }"

section \<open>Numbers\<close>

text \<open>The result of a function that allocates, given that its allocations succeed.\<close>

definition allocated :: "'a option option \<Rightarrow> 'a option" where
  "allocated r = (case r of Some (Some x) \<Rightarrow> Some x | _ \<Rightarrow> None)"

definition MmsValue_newIntegerFromBerInteger :: "Asn1PrimitiveValue \<Rightarrow> MmsValue" where
  "MmsValue_newIntegerFromBerInteger berInteger = V_integer MMS_INTEGER 0 berInteger"

definition MmsValue_newUnsignedFromBerInteger :: "Asn1PrimitiveValue \<Rightarrow> MmsValue" where
  "MmsValue_newUnsignedFromBerInteger berInteger = V_integer MMS_UNSIGNED 0 berInteger"

definition MmsValue_newIntegerFromInt8 :: "HalApi \<Rightarrow> 8 word \<Rightarrow> MmsValue option" where
  "MmsValue_newIntegerFromInt8 h integer = do {
     i \<leftarrow> allocated (BerInteger_createFromInt32 (hal_le h) True True (scast integer));
     Some (V_integer MMS_INTEGER 0 i) }"

definition MmsValue_newIntegerFromInt16 :: "HalApi \<Rightarrow> 16 word \<Rightarrow> MmsValue option" where
  "MmsValue_newIntegerFromInt16 h integer = do {
     i \<leftarrow> allocated (BerInteger_createFromInt32 (hal_le h) True True (scast integer));
     Some (V_integer MMS_INTEGER 0 i) }"

definition MmsValue_newIntegerFromInt32 :: "HalApi \<Rightarrow> 32 word \<Rightarrow> MmsValue option" where
  "MmsValue_newIntegerFromInt32 h integer = do {
     i \<leftarrow> allocated (BerInteger_createFromInt32 (hal_le h) True True integer);
     Some (V_integer MMS_INTEGER 0 i) }"

definition MmsValue_newUnsignedFromUint32 :: "HalApi \<Rightarrow> 32 word \<Rightarrow> MmsValue option" where
  "MmsValue_newUnsignedFromUint32 h integer = do {
     i \<leftarrow> allocated (BerInteger_createFromUint32 (hal_le h) True True integer);
     Some (V_integer MMS_UNSIGNED 0 i) }"

definition MmsValue_newIntegerFromInt64 :: "HalApi \<Rightarrow> 64 word \<Rightarrow> MmsValue option" where
  "MmsValue_newIntegerFromInt64 h integer = do {
     i \<leftarrow> allocated (BerInteger_createFromInt64 (hal_le h) True True integer);
     Some (V_integer MMS_INTEGER 0 i) }"

definition MmsValue_newInteger :: "int \<Rightarrow> MmsValue option" where
  "MmsValue_newInteger n = do {
     i \<leftarrow> (if n \<le> 32 then BerInteger_createInt32 True True else BerInteger_createInt64 True True);
     Some (V_integer MMS_INTEGER 0 i) }"

definition MmsValue_newUnsigned :: "int \<Rightarrow> MmsValue option" where
  "MmsValue_newUnsigned n = do {
     i \<leftarrow> (if n \<le> 32 then BerInteger_createInt32 True True else BerInteger_createInt64 True True);
     Some (V_integer MMS_UNSIGNED 0 i) }"

text \<open>
  The setters: nothing happens when the type is not \<open>t\<close> or the integer has fewer than \<open>width\<close>
  octets; the result of \<open>setter\<close> is ignored.
\<close>

definition set_integer ::
  "MmsType \<Rightarrow> int \<Rightarrow> (Asn1PrimitiveValue \<Rightarrow> (Asn1PrimitiveValue \<times> bool) option) \<Rightarrow> MmsValue \<Rightarrow> MmsValue option" where
  "set_integer t width setter self = (case self of
     V_integer t' d i \<Rightarrow>
       if t' = t \<and> uint (pv_maxSize i) \<ge> width then do { (i, _) \<leftarrow> setter i; Some (V_integer t' d i) } else Some self
   | _ \<Rightarrow> Some self)"

definition MmsValue_setInt8 :: "HalApi \<Rightarrow> MmsValue \<Rightarrow> 8 word \<Rightarrow> MmsValue option" where
  "MmsValue_setInt8 h self integer = set_integer MMS_INTEGER 1 (\<lambda>i. BerInteger_setInt32 (hal_le h) i (scast integer)) self"

definition MmsValue_setInt16 :: "HalApi \<Rightarrow> MmsValue \<Rightarrow> 16 word \<Rightarrow> MmsValue option" where
  "MmsValue_setInt16 h self integer = set_integer MMS_INTEGER 2 (\<lambda>i. BerInteger_setInt32 (hal_le h) i (scast integer)) self"

definition MmsValue_setInt32 :: "HalApi \<Rightarrow> MmsValue \<Rightarrow> 32 word \<Rightarrow> MmsValue option" where
  "MmsValue_setInt32 h self integer = set_integer MMS_INTEGER 4 (\<lambda>i. BerInteger_setInt32 (hal_le h) i integer) self"

definition MmsValue_setInt64 :: "HalApi \<Rightarrow> MmsValue \<Rightarrow> 64 word \<Rightarrow> MmsValue option" where
  "MmsValue_setInt64 h self integer = set_integer MMS_INTEGER 8 (\<lambda>i. BerInteger_setInt64 (hal_le h) i integer) self"

definition MmsValue_setUint32 :: "HalApi \<Rightarrow> MmsValue \<Rightarrow> 32 word \<Rightarrow> MmsValue option" where
  "MmsValue_setUint32 h self integer = set_integer MMS_UNSIGNED 4 (\<lambda>i. BerInteger_setUint32 (hal_le h) i integer) self"

definition MmsValue_setUint16 :: "HalApi \<Rightarrow> MmsValue \<Rightarrow> 16 word \<Rightarrow> MmsValue option" where
  "MmsValue_setUint16 h self integer = set_integer MMS_UNSIGNED 2 (\<lambda>i. BerInteger_setUint16 (hal_le h) i integer) self"

definition MmsValue_setUint8 :: "HalApi \<Rightarrow> MmsValue \<Rightarrow> 8 word \<Rightarrow> MmsValue option" where
  "MmsValue_setUint8 h self integer = set_integer MMS_UNSIGNED 1 (\<lambda>i. BerInteger_setUint8 (hal_le h) i integer) self"

fun MmsValue_toInt32 :: "MmsValue \<Rightarrow> 32 word option" where
  "MmsValue_toInt32 (V_integer t d i) = BerInteger_toInt32 i"
| "MmsValue_toInt32 _ = Some 0"

fun MmsValue_toUint32 :: "MmsValue \<Rightarrow> 32 word option" where
  "MmsValue_toUint32 (V_integer t d i) = BerInteger_toUint32 i"
| "MmsValue_toUint32 _ = Some 0"

fun MmsValue_toInt64 :: "MmsValue \<Rightarrow> 64 word option" where
  "MmsValue_toInt64 (V_integer t d i) = BerInteger_toInt64 i"
| "MmsValue_toInt64 _ = Some 0"

text \<open>
  A \<open>float\<close> or \<open>double\<close> is its image in memory. \<open>MmsValue_newFloat\<close> does not clear the new
  value: \<open>d\<close> and \<open>buf\<close> are what \<open>deleteValue\<close> and the eight octets held before.
\<close>

definition MmsValue_newFloat :: "byte \<Rightarrow> byte list \<Rightarrow> byte list \<Rightarrow> MmsValue option" where
  "MmsValue_newFloat d buf v = do { buf \<leftarrow> set_octets buf v; Some (V_floatingPoint d 8 32 buf) }"

definition MmsValue_newDouble :: "byte list \<Rightarrow> MmsValue option" where
  "MmsValue_newDouble v = do { buf \<leftarrow> set_octets (replicate 8 0) v; Some (V_floatingPoint 0 11 64 buf) }"

definition MmsValue_newBoolean :: "bool \<Rightarrow> MmsValue" where
  "MmsValue_newBoolean boolean = V_boolean 0 boolean"

fun MmsValue_setBoolean :: "MmsValue \<Rightarrow> bool \<Rightarrow> MmsValue option" where
  "MmsValue_setBoolean (V_boolean d b) boolValue = Some (V_boolean d boolValue)"
| "MmsValue_setBoolean _ _ = None"

fun MmsValue_getBoolean :: "MmsValue \<Rightarrow> bool option" where
  "MmsValue_getBoolean (V_boolean d b) = Some b"
| "MmsValue_getBoolean _ = None"

definition MmsValue_newDataAccessError :: "32 word \<Rightarrow> MmsValue" where
  "MmsValue_newDataAccessError accessError = V_dataAccessError 0 accessError"

fun MmsValue_getDataAccessError :: "MmsValue \<Rightarrow> 32 word option" where
  "MmsValue_getDataAccessError (V_dataAccessError d e) = Some e"
| "MmsValue_getDataAccessError _ = None"

section \<open>Times\<close>

text \<open>The number with a given image in memory.\<close>

definition native_word :: "bool \<Rightarrow> byte list \<Rightarrow> 'a::len word" where
  "native_word le xs = word_of_int (be_uint (if le then rev xs else xs))"

text \<open>The octets of a number most significant first, by \<open>memcpyReverseByteOrder\<close> or \<open>memcpy\<close>, and back.\<close>

definition to_big_endian :: "HalApi \<Rightarrow> byte list \<Rightarrow> byte list" where
  "to_big_endian h xs = (if hal_le h then memcpyReverseByteOrder h xs else xs)"

fun MmsValue_setUtcTime :: "HalApi \<Rightarrow> MmsValue \<Rightarrow> 32 word \<Rightarrow> MmsValue option" where
  "MmsValue_setUtcTime h (V_utcTime d buf) timeval = do {
     buf \<leftarrow> set_octets buf (to_big_endian h (native_bytes (hal_le h) 4 timeval));
     Some (V_utcTime d buf) }"
| "MmsValue_setUtcTime _ _ _ = None"

fun setUtcTimeMs :: "HalApi \<Rightarrow> MmsValue \<Rightarrow> 64 word \<Rightarrow> byte \<Rightarrow> MmsValue option" where
  "setUtcTimeMs h (V_utcTime d buf) timeval timeQuality = do {
     let timeval32 = (ucast (timeval div 1000) :: 32 word);
     buf \<leftarrow> set_octets buf (to_big_endian h (native_bytes (hal_le h) 4 timeval32));
     let remainder = (ucast (timeval mod 1000) :: 32 word);
     let fractionOfSecond = remainder * 16777 + (remainder * 216) div 1000;
     p \<leftarrow> wr (buf, 0) 4 (ucast (drop_bit 16 fractionOfSecond AND 0xff));
     p \<leftarrow> wr p 5 (ucast (drop_bit 8 fractionOfSecond AND 0xff));
     p \<leftarrow> wr p 6 (ucast (fractionOfSecond AND 0xff));
     p \<leftarrow> wr p 7 timeQuality;
     Some (V_utcTime d (fst p)) }"
| "setUtcTimeMs _ _ _ _ = None"

definition MmsValue_setUtcTimeMs :: "HalApi \<Rightarrow> MmsValue \<Rightarrow> 64 word \<Rightarrow> MmsValue option" where
  "MmsValue_setUtcTimeMs h self timeval = setUtcTimeMs h self timeval 0x0a"

definition MmsValue_setUtcTimeMsEx :: "HalApi \<Rightarrow> MmsValue \<Rightarrow> 64 word \<Rightarrow> byte \<Rightarrow> MmsValue option" where
  "MmsValue_setUtcTimeMsEx h self timeval timeQuality = setUtcTimeMs h self timeval timeQuality"

fun MmsValue_setUtcTimeQuality :: "MmsValue \<Rightarrow> byte \<Rightarrow> MmsValue option" where
  "MmsValue_setUtcTimeQuality (V_utcTime d buf) timeQuality = do {
     p \<leftarrow> wr (buf, 0) 7 timeQuality;
     Some (V_utcTime d (fst p)) }"
| "MmsValue_setUtcTimeQuality _ _ = None"

fun MmsValue_getUtcTimeQuality :: "MmsValue \<Rightarrow> byte option" where
  "MmsValue_getUtcTimeQuality (V_utcTime d buf) = rd (buf, 0) 7"
| "MmsValue_getUtcTimeQuality _ = None"

fun MmsValue_setUtcTimeByBuffer :: "MmsValue \<Rightarrow> ptr option \<Rightarrow> MmsValue option" where
  "MmsValue_setUtcTimeByBuffer (V_utcTime d buf) buffer = (case buffer of
     None \<Rightarrow> Some (V_utcTime d buf)
   | Some buffer \<Rightarrow> do {
       xs \<leftarrow> rdn buffer 0 8;
       buf \<leftarrow> set_octets buf xs;
       Some (V_utcTime d buf) })"
| "MmsValue_setUtcTimeByBuffer _ _ = None"

definition utcTime_fraction :: "byte list \<Rightarrow> 32 word option" where
  "utcTime_fraction buf = do {
     b4 \<leftarrow> rd (buf, 0) 4;
     b5 \<leftarrow> rd (buf, 0) 5;
     b6 \<leftarrow> rd (buf, 0) 6;
     Some (push_bit 16 (ucast b4) + push_bit 8 (ucast b5) + ucast b6) }"

fun MmsValue_getUtcTimeInMs :: "HalApi \<Rightarrow> MmsValue \<Rightarrow> 64 word option" where
  "MmsValue_getUtcTimeInMs h (V_utcTime d buf) = do {
     xs \<leftarrow> rdn (buf, 0) 0 4;
     let timeval32 = (native_word (hal_le h) (to_big_endian h xs) :: 32 word);
     fractionOfSecond \<leftarrow> utcTime_fraction buf;
     let remainder = fractionOfSecond div 16777;
     Some (ucast timeval32 * 1000 + ucast remainder) }"
| "MmsValue_getUtcTimeInMs _ _ = None"

text \<open>The result and \<open>*usec\<close>.\<close>

fun MmsValue_getUtcTimeInMsWithUs :: "HalApi \<Rightarrow> MmsValue \<Rightarrow> (64 word \<times> 32 word) option" where
  "MmsValue_getUtcTimeInMsWithUs h (V_utcTime d buf) = do {
     xs \<leftarrow> rdn (buf, 0) 0 4;
     let timeval32 = (native_word (hal_le h) (to_big_endian h xs) :: 32 word);
     fractionOfSecond \<leftarrow> utcTime_fraction buf;
     let remainder = ((ucast fractionOfSecond * 1000000) div 0x1000000 :: 64 word);
     Some (ucast timeval32 * 1000 + remainder div 1000, ucast (remainder mod 1000)) }"
| "MmsValue_getUtcTimeInMsWithUs _ _ = None"

text \<open>\<open>MmsValue_toUnixTimestamp\<close> and \<open>MmsValue_newUtcTime\<close> place the octets one by one.\<close>

fun MmsValue_toUnixTimestamp :: "HalApi \<Rightarrow> MmsValue \<Rightarrow> 32 word option" where
  "MmsValue_toUnixTimestamp h (V_utcTime d buf) = do {
     xs \<leftarrow> rdn (buf, 0) 0 4;
     Some (native_word (hal_le h) (if hal_le h then rev xs else xs)) }"
| "MmsValue_toUnixTimestamp _ _ = None"

definition MmsValue_newUtcTime :: "HalApi \<Rightarrow> 32 word \<Rightarrow> MmsValue" where
  "MmsValue_newUtcTime h timeval = (let timeArray = native_bytes (hal_le h) 4 timeval in
     V_utcTime 0 ((if hal_le h then rev timeArray else timeArray) @ replicate 4 0))"

definition MmsValue_newUtcTimeByMsTime :: "HalApi \<Rightarrow> 64 word \<Rightarrow> MmsValue option" where
  "MmsValue_newUtcTimeByMsTime h timeval = MmsValue_setUtcTimeMs h (V_utcTime 0 (replicate 8 0)) timeval"

definition MmsValue_newBinaryTime :: "bool \<Rightarrow> MmsValue" where
  "MmsValue_newBinaryTime timeOfDay = V_binaryTime 0 (if timeOfDay then 4 else 6) (replicate 6 0)"

fun MmsValue_setBinaryTime :: "HalApi \<Rightarrow> MmsValue \<Rightarrow> 64 word \<Rightarrow> MmsValue option" where
  "MmsValue_setBinaryTime h (V_binaryTime d n buf) timestamp = do {
     let mmsTime = (if timestamp > 441763200000 then timestamp - 441763200000 else 0);
     p \<leftarrow> (if n = 6 then do {
         let daysDiffBuf = native_bytes (hal_le h) 2 (ucast (mmsTime div 86400000) :: 16 word);
         p \<leftarrow> wr (buf, 0) 4 (if hal_le h then daysDiffBuf ! 1 else daysDiffBuf ! 0);
         wr p 5 (if hal_le h then daysDiffBuf ! 0 else daysDiffBuf ! 1) }
       else Some (buf, 0));
     let ms = native_bytes (hal_le h) 4 (ucast (mmsTime mod 86400000) :: 32 word);
     buf \<leftarrow> set_octets (fst p) (if hal_le h then [ms ! 3, ms ! 2, ms ! 1, ms ! 0] else [ms ! 0, ms ! 1, ms ! 2, ms ! 3]);
     Some (V_binaryTime d n buf) }"
| "MmsValue_setBinaryTime _ _ _ = None"

text \<open>\<open>x << 24\<close> on an octet promoted to \<open>int\<close>.\<close>

definition shl24 :: "byte \<Rightarrow> int option" where
  "shl24 x = i32 (uint x * 0x1000000)"

fun MmsValue_getBinaryTimeAsUtcMs :: "MmsValue \<Rightarrow> 64 word option" where
  "MmsValue_getBinaryTimeAsUtcMs (V_binaryTime d n buf) = do {
     timestamp \<leftarrow> (if n = 6 then do {
         b4 \<leftarrow> rd (buf, 0) 4;
         b5 \<leftarrow> rd (buf, 0) 5;
         let daysDiff = (word_of_int (uint b4 * 256) :: 16 word) + ucast b5;
         Some (ucast daysDiff * 86400000 + 441763200000) }
       else Some 0);
     b0 \<leftarrow> rd (buf, 0) 0;
     b1 \<leftarrow> rd (buf, 0) 1;
     b2 \<leftarrow> rd (buf, 0) 2;
     b3 \<leftarrow> rd (buf, 0) 3;
     x \<leftarrow> shl24 b0;
     let msSinceMidnight = (word_of_int x :: 32 word) + push_bit 16 (ucast b1) + push_bit 8 (ucast b2) + ucast b3;
     Some (timestamp + ucast msSinceMidnight) }"
| "MmsValue_getBinaryTimeAsUtcMs _ = None"

section \<open>Octet strings and strings\<close>

definition MmsValue_newOctetString :: "int \<Rightarrow> int \<Rightarrow> MmsValue" where
  "MmsValue_newOctetString n maxSize = V_octetString 0 (word_of_int n) maxSize (replicate (nat \<bar>maxSize\<bar>) 0)"

fun MmsValue_setOctetString :: "MmsValue \<Rightarrow> ptr \<Rightarrow> int \<Rightarrow> MmsValue option" where
  "MmsValue_setOctetString (V_octetString d m maxSize octets) buf n =
     (if n \<le> \<bar>maxSize\<bar> then
        if n < 0 then None
        else do {
          xs \<leftarrow> rdn buf 0 (nat n);
          octets \<leftarrow> set_octets octets xs;
          Some (V_octetString d (word_of_int n) maxSize octets) }
      else Some (V_octetString d m maxSize octets))"
| "MmsValue_setOctetString _ _ _ = None"

fun MmsValue_setOctetStringOctet :: "MmsValue \<Rightarrow> int \<Rightarrow> byte \<Rightarrow> MmsValue option" where
  "MmsValue_setOctetStringOctet (V_octetString d m maxSize octets) octetPos x =
     (if octetPos \<ge> 0 \<and> octetPos < \<bar>maxSize\<bar> then do {
        p \<leftarrow> wr (octets, 0) octetPos x;
        Some (V_octetString d (if octetPos \<ge> uint m then word_of_int (octetPos + 1) else m) maxSize (fst p)) }
      else Some (V_octetString d m maxSize octets))"
| "MmsValue_setOctetStringOctet _ _ _ = None"

fun MmsValue_getOctetStringSize :: "MmsValue \<Rightarrow> 16 word option" where
  "MmsValue_getOctetStringSize (V_octetString d m maxSize octets) = Some m"
| "MmsValue_getOctetStringSize _ = None"

fun MmsValue_getOctetStringMaxSize :: "MmsValue \<Rightarrow> 16 word option" where
  "MmsValue_getOctetStringMaxSize (V_octetString d m maxSize octets) = Some (word_of_int \<bar>maxSize\<bar>)"
| "MmsValue_getOctetStringMaxSize _ = None"

fun MmsValue_getOctetStringOctet :: "MmsValue \<Rightarrow> int \<Rightarrow> byte option" where
  "MmsValue_getOctetStringOctet (V_octetString d m maxSize octets) octetPos =
     (if octetPos \<ge> 0 \<and> octetPos < uint m then rd (octets, 0) octetPos else Some 0)"
| "MmsValue_getOctetStringOctet _ _ = None"

fun setVisibleStringValue :: "HalApi \<Rightarrow> MmsValue \<Rightarrow> byte list option \<Rightarrow> MmsValue option" where
  "setVisibleStringValue h (V_visibleString t d buf n) string = (case buf of
     None \<Rightarrow> Some (V_visibleString t d buf n)
   | Some b \<Rightarrow> (case string of
       None \<Rightarrow> do { p \<leftarrow> wr (b, 0) 0 0; Some (V_visibleString t d (Some (fst p)) n) }
     | Some s \<Rightarrow> do {
         cs \<leftarrow> c_string s;
         let newStringSize = int (length cs);
         let (b, n) = (if newStringSize > sint n then (hal_malloc h (newStringSize + 1), word_of_int newStringSize) else (b, n));
         b \<leftarrow> copyStringMax h b (sint n + 1) s;
         Some (V_visibleString t d (Some b) n) }))"
| "setVisibleStringValue _ _ _ = None"

definition MmsValue_newString :: "HalApi \<Rightarrow> byte list option \<Rightarrow> MmsType \<Rightarrow> MmsValue option" where
  "MmsValue_newString h string type = (case string of
     None \<Rightarrow> Some (V_visibleString type 0 None 0)
   | Some s \<Rightarrow> do {
       cs \<leftarrow> c_string s;
       let stringSize = int (length cs);
       setVisibleStringValue h (V_visibleString type 0 (Some (hal_malloc h (stringSize + 1))) (word_of_int stringSize)) string })"

definition MmsValue_newVisibleString :: "HalApi \<Rightarrow> byte list option \<Rightarrow> MmsValue option" where
  "MmsValue_newVisibleString h string = MmsValue_newString h string MMS_VISIBLE_STRING"

definition MmsValue_newMmsString :: "HalApi \<Rightarrow> byte list option \<Rightarrow> MmsValue option" where
  "MmsValue_newMmsString h string = MmsValue_newString h string MMS_STRING"

definition MmsValue_newStringWithSize :: "HalApi \<Rightarrow> int \<Rightarrow> MmsType \<Rightarrow> MmsValue option" where
  "MmsValue_newStringWithSize h n type = do {
     p \<leftarrow> wr (hal_malloc h (n + 1), 0) 0 0;
     Some (V_visibleString type 0 (Some (fst p)) (word_of_int n)) }"

definition MmsValue_newVisibleStringWithSize :: "HalApi \<Rightarrow> int \<Rightarrow> MmsValue option" where
  "MmsValue_newVisibleStringWithSize h n = MmsValue_newStringWithSize h n MMS_VISIBLE_STRING"

definition MmsValue_newMmsStringWithSize :: "HalApi \<Rightarrow> int \<Rightarrow> MmsValue option" where
  "MmsValue_newMmsStringWithSize h n = MmsValue_newStringWithSize h n MMS_STRING"

definition MmsValue_newStringFromByteArray :: "HalApi \<Rightarrow> ptr \<Rightarrow> int \<Rightarrow> MmsType \<Rightarrow> MmsValue option" where
  "MmsValue_newStringFromByteArray h byteArray n type =
     (if n < 0 then None
      else do {
        xs \<leftarrow> rdn byteArray 0 (nat n);
        Some (V_visibleString type 0 (Some (createStringFromBuffer h xs)) (word_of_int n)) })"

definition MmsValue_newVisibleStringFromByteArray :: "HalApi \<Rightarrow> ptr \<Rightarrow> int \<Rightarrow> MmsValue option" where
  "MmsValue_newVisibleStringFromByteArray h byteArray n = MmsValue_newStringFromByteArray h byteArray n MMS_VISIBLE_STRING"

definition MmsValue_newMmsStringFromByteArray :: "HalApi \<Rightarrow> ptr \<Rightarrow> int \<Rightarrow> MmsValue option" where
  "MmsValue_newMmsStringFromByteArray h byteArray n = MmsValue_newStringFromByteArray h byteArray n MMS_STRING"

definition MmsValue_setVisibleString :: "HalApi \<Rightarrow> MmsValue \<Rightarrow> byte list option \<Rightarrow> MmsValue option" where
  "MmsValue_setVisibleString h self string =
     (if MmsValue_getType self = MMS_VISIBLE_STRING then setVisibleStringValue h self string else Some self)"

definition MmsValue_setMmsString :: "HalApi \<Rightarrow> MmsValue \<Rightarrow> byte list option \<Rightarrow> MmsValue option" where
  "MmsValue_setMmsString h self string =
     (if MmsValue_getType self = MMS_STRING then setVisibleStringValue h self string else Some self)"

fun MmsValue_toString :: "MmsValue \<Rightarrow> byte list option" where
  "MmsValue_toString (V_visibleString t d buf n) = buf"
| "MmsValue_toString _ = None"

fun MmsValue_getStringSize :: "MmsValue \<Rightarrow> int" where
  "MmsValue_getStringSize (V_visibleString t d buf n) = sint n"
| "MmsValue_getStringSize _ = 0"

section \<open>Components\<close>

definition MmsValue_createEmptyArray :: "int \<Rightarrow> MmsValue" where
  "MmsValue_createEmptyArray n = V_structure MMS_ARRAY 0 (replicate (nat n) None)"

definition MmsValue_createEmptyStructure :: "int \<Rightarrow> MmsValue" where
  "MmsValue_createEmptyStructure n = V_structure MMS_STRUCTURE 0 (replicate (nat n) None)"

fun MmsValue_getArraySize :: "MmsValue \<Rightarrow> int option" where
  "MmsValue_getArraySize (V_structure t d xs) = Some (int (length xs))"
| "MmsValue_getArraySize _ = None"

fun MmsValue_setElement :: "MmsValue \<Rightarrow> int \<Rightarrow> MmsValue option \<Rightarrow> MmsValue" where
  "MmsValue_setElement (V_structure t d xs) index elementValue =
     (if index < 0 \<or> index \<ge> int (length xs) then V_structure t d xs else V_structure t d (xs[nat index := elementValue]))"
| "MmsValue_setElement complexValue _ _ = complexValue"

fun MmsValue_getElement :: "MmsValue \<Rightarrow> int \<Rightarrow> MmsValue option" where
  "MmsValue_getElement (V_structure t d xs) index =
     (if index < 0 \<or> index \<ge> int (length xs) then None else xs ! nat index)"
| "MmsValue_getElement _ _ = None"

fun MmsValue_setDeletable :: "MmsValue \<Rightarrow> MmsValue" where
  "MmsValue_setDeletable (V_structure t _ xs) = V_structure t 1 xs"
| "MmsValue_setDeletable (V_boolean _ b) = V_boolean 1 b"
| "MmsValue_setDeletable (V_integer t _ i) = V_integer t 1 i"
| "MmsValue_setDeletable (V_floatingPoint _ ew fw buf) = V_floatingPoint 1 ew fw buf"
| "MmsValue_setDeletable (V_octetString _ n m buf) = V_octetString 1 n m buf"
| "MmsValue_setDeletable (V_bitString _ n buf) = V_bitString 1 n buf"
| "MmsValue_setDeletable (V_visibleString t _ buf n) = V_visibleString t 1 buf n"
| "MmsValue_setDeletable (V_utcTime _ buf) = V_utcTime 1 buf"
| "MmsValue_setDeletable (V_binaryTime _ n buf) = V_binaryTime 1 n buf"
| "MmsValue_setDeletable (V_dataAccessError _ e) = V_dataAccessError 1 e"

fun MmsValue_isDeletable :: "MmsValue \<Rightarrow> byte" where
  "MmsValue_isDeletable (V_structure _ d _) = d"
| "MmsValue_isDeletable (V_boolean d _) = d"
| "MmsValue_isDeletable (V_integer _ d _) = d"
| "MmsValue_isDeletable (V_floatingPoint d _ _ _) = d"
| "MmsValue_isDeletable (V_octetString d _ _ _) = d"
| "MmsValue_isDeletable (V_bitString d _ _) = d"
| "MmsValue_isDeletable (V_visibleString _ d _ _) = d"
| "MmsValue_isDeletable (V_utcTime d _) = d"
| "MmsValue_isDeletable (V_binaryTime d _ _) = d"
| "MmsValue_isDeletable (V_dataAccessError d _) = d"

fun MmsValue_setDeletableRecursive :: "MmsValue option \<Rightarrow> MmsValue option" and
  setDeletable_components :: "MmsValue option list \<Rightarrow> MmsValue option list" where
  "MmsValue_setDeletableRecursive None = None"
| "MmsValue_setDeletableRecursive (Some v) = Some (MmsValue_setDeletable
     (case v of V_structure t d xs \<Rightarrow> V_structure t d (setDeletable_components xs) | _ \<Rightarrow> v))"
| "setDeletable_components [] = []"
| "setDeletable_components (x # xs) = MmsValue_setDeletableRecursive x # setDeletable_components xs"

section \<open>Comparison\<close>

text \<open>\<open>memcmp(p, q, n) == 0\<close>\<close>

definition same_bytes :: "byte list \<Rightarrow> byte list \<Rightarrow> int \<Rightarrow> bool option" where
  "same_bytes p q n = do { xs \<leftarrow> rdn (p, 0) 0 (nat n); ys \<leftarrow> rdn (q, 0) 0 (nat n); Some (xs = ys) }"

text \<open>The cases of the \<open>switch\<close> for two values of the same type that have no components.\<close>

definition equals_leaf :: "MmsValue \<Rightarrow> MmsValue \<Rightarrow> bool option" where
  "equals_leaf v w = (case (v, w) of
     (V_boolean _ b, V_boolean _ b') \<Rightarrow> Some (b = b')
   | (V_floatingPoint _ _ fw buf, V_floatingPoint _ _ _ buf') \<Rightarrow> same_bytes buf buf' (uint fw div 8)
   | (V_integer _ _ i, V_integer _ _ i') \<Rightarrow> Asn1PrimitivaValue_compare i i'
   | (V_utcTime _ buf, V_utcTime _ buf') \<Rightarrow> same_bytes buf buf' 8
   | (V_bitString _ n buf, V_bitString _ n' buf') \<Rightarrow>
       if n = n' then same_bytes buf buf' (bitStringByteSize n) else Some False
   | (V_binaryTime _ n buf, V_binaryTime _ n' buf') \<Rightarrow> if n = n' then same_bytes buf buf' (uint n) else Some False
   | (V_octetString _ n _ buf, V_octetString _ n' _ buf') \<Rightarrow> if n = n' then same_bytes buf buf' (uint n) else Some False
   | (V_visibleString _ _ buf _, V_visibleString _ _ buf' _) \<Rightarrow> (case (buf, buf') of
       (Some s, Some s') \<Rightarrow> do { cs \<leftarrow> c_string s; cs' \<leftarrow> c_string s'; Some (cs = cs') }
     | (None, None) \<Rightarrow> Some True
     | _ \<Rightarrow> Some False)
   | (V_dataAccessError _ e, V_dataAccessError _ e') \<Rightarrow> Some (e = e')
   | _ \<Rightarrow> None)"

fun MmsValue_equals :: "MmsValue option \<Rightarrow> MmsValue option \<Rightarrow> bool option" and
  equals_components :: "MmsValue option list \<Rightarrow> MmsValue option list \<Rightarrow> bool option" where
  "MmsValue_equals None otherValue = Some False"
| "MmsValue_equals (Some v) None = Some False"
| "MmsValue_equals (Some v) (Some w) =
     (if MmsValue_getType v = MmsValue_getType w then
        (case (v, w) of
           (V_structure _ _ xs, V_structure _ _ ys) \<Rightarrow> if length xs = length ys then equals_components xs ys else Some False
         | _ \<Rightarrow> equals_leaf v w)
      else Some False)"
| "equals_components (x # xs) (y # ys) = do {
     b \<leftarrow> MmsValue_equals x y;
     if \<not> b then Some False else equals_components xs ys }"
| "equals_components _ _ = Some True"

fun MmsValue_equalTypes :: "MmsValue option \<Rightarrow> MmsValue option \<Rightarrow> bool" and
  equalTypes_components :: "MmsValue option list \<Rightarrow> MmsValue option list \<Rightarrow> bool" where
  "MmsValue_equalTypes None otherValue = False"
| "MmsValue_equalTypes (Some v) None = False"
| "MmsValue_equalTypes (Some v) (Some w) =
     (if MmsValue_getType v = MmsValue_getType w then
        (case (v, w) of
           (V_structure _ _ xs, V_structure _ _ ys) \<Rightarrow> if length xs = length ys then equalTypes_components xs ys else False
         | _ \<Rightarrow> True)
      else False)"
| "equalTypes_components (x # xs) (y # ys) = (MmsValue_equalTypes x y \<and> equalTypes_components xs ys)"
| "equalTypes_components _ _ = True"

section \<open>Updating and copying\<close>

text \<open>
  The cases of \<open>MmsValue_update\<close> without components: the flag returned and the value afterwards.
\<close>

definition update_leaf :: "HalApi \<Rightarrow> MmsValue \<Rightarrow> MmsValue \<Rightarrow> (bool \<times> MmsValue) option" where
  "update_leaf h v u = (case (v, u) of
     (V_boolean d _, V_boolean _ b) \<Rightarrow> Some (True, V_boolean d b)
   | (V_floatingPoint d ew fw buf, V_floatingPoint _ ew' fw' buf') \<Rightarrow>
       if fw = fw' then do {
         xs \<leftarrow> rdn (buf', 0) 0 (nat (uint fw div 8));
         buf \<leftarrow> set_octets buf xs;
         Some (True, V_floatingPoint d ew' fw buf) }
       else Some (False, v)
   | (V_integer t d i, V_integer _ _ i') \<Rightarrow> do {
       (i, ok) \<leftarrow> BerInteger_setFromBerInteger i i';
       Some (ok, V_integer t d i) }
   | (V_utcTime d buf, V_utcTime _ buf') \<Rightarrow> do {
       xs \<leftarrow> rdn (buf', 0) 0 8;
       buf \<leftarrow> set_octets buf xs;
       Some (True, V_utcTime d buf) }
   | (V_bitString d n buf, V_bitString _ n' buf') \<Rightarrow>
       if n = n' then do {
         xs \<leftarrow> rdn (buf', 0) 0 (nat (bitStringByteSize n));
         buf \<leftarrow> set_octets buf xs;
         Some (True, V_bitString d n buf) }
       else do {
         v \<leftarrow> for_range 0 (min n n') (\<lambda>i v. do { b \<leftarrow> MmsValue_getBitStringBit u i; MmsValue_setBitStringBit v i b }) v;
         Some (True, v) }
   | (V_octetString d n maxSize buf, V_octetString _ n' _ buf') \<Rightarrow> do {
       let (maxSize, buf) = (if maxSize < 0 \<and> uint n' > \<bar>maxSize\<bar> then (- uint n', hal_malloc h (uint n')) else (maxSize, buf));
       if uint n' \<le> \<bar>maxSize\<bar> then do {
         xs \<leftarrow> rdn (buf', 0) 0 (unat n');
         buf \<leftarrow> set_octets buf xs;
         Some (True, V_octetString d n' maxSize buf) }
       else Some (False, V_octetString d n maxSize buf) }
   | (V_visibleString t _ _ _, V_visibleString _ _ buf' _) \<Rightarrow> do {
       v \<leftarrow> (if t = MMS_VISIBLE_STRING then MmsValue_setVisibleString h v buf' else MmsValue_setMmsString h v buf');
       Some (True, v) }
   | (V_binaryTime d _ buf, V_binaryTime _ n' buf') \<Rightarrow> do {
       xs \<leftarrow> rdn (buf', 0) 0 (unat n');
       buf \<leftarrow> set_octets buf xs;
       Some (True, V_binaryTime d n' buf) }
   | (V_dataAccessError _ _, V_dataAccessError _ _) \<Rightarrow> Some (False, v)
   | _ \<Rightarrow> None)"

fun MmsValue_update :: "HalApi \<Rightarrow> MmsValue option \<Rightarrow> MmsValue option \<Rightarrow> (bool \<times> MmsValue option) option" and
  updateStructuredComponent :: "HalApi \<Rightarrow> MmsValue option list \<Rightarrow> MmsValue option list \<Rightarrow> (bool \<times> MmsValue option list) option" where
  "MmsValue_update h None upd = Some (False, None)"
| "MmsValue_update h (Some v) None = Some (False, Some v)"
| "MmsValue_update h (Some v) (Some u) =
     (if MmsValue_getType v = MmsValue_getType u then
        (case (v, u) of
           (V_structure t d xs, V_structure _ _ ys) \<Rightarrow>
             if length xs \<noteq> length ys then Some (False, Some v)
             else do {
               (ok, xs) \<leftarrow> updateStructuredComponent h xs ys;
               Some (ok, Some (V_structure t d xs)) }
         | _ \<Rightarrow> do { (ok, v) \<leftarrow> update_leaf h v u; Some (ok, Some v) })
      else Some (False, Some v))"
| "updateStructuredComponent h (x # xs) (y # ys) = do {
     (ok, x) \<leftarrow> MmsValue_update h x y;
     if \<not> ok then Some (False, x # xs)
     else do {
       (ok, xs) \<leftarrow> updateStructuredComponent h xs ys;
       Some (ok, x # xs) } }"
| "updateStructuredComponent h xs _ = Some (True, xs)"

text \<open>
  The copy of the octets that are in use; the rest of a new block is what \<open>malloc\<close> left there.
  The copy of \<open>NULL\<close> is \<open>NULL\<close>, which only matters for a component that is \<open>NULL\<close>.
\<close>

fun MmsValue_clone :: "HalApi \<Rightarrow> MmsValue \<Rightarrow> MmsValue option" and
  clone_components :: "HalApi \<Rightarrow> MmsValue option list \<Rightarrow> MmsValue option list option" where
  "MmsValue_clone h (V_structure t d xs) = do {
     xs \<leftarrow> clone_components h xs;
     Some (V_structure t d xs) }"
| "MmsValue_clone h (V_integer t d i) = do {
     i \<leftarrow> allocated (Asn1PrimitiveValue_clone True True i);
     Some (V_integer t d i) }"
| "MmsValue_clone h (V_floatingPoint d ew fw buf) = do {
     xs \<leftarrow> rdn (buf, 0) 0 (nat (uint fw div 8));
     buf \<leftarrow> set_octets (replicate 8 0) xs;
     Some (V_floatingPoint d ew fw buf) }"
| "MmsValue_clone h (V_bitString d n buf) = do {
     xs \<leftarrow> rdn (buf, 0) 0 (nat (bitStringByteSize n));
     buf \<leftarrow> set_octets (hal_malloc h (bitStringByteSize n)) xs;
     Some (V_bitString d n buf) }"
| "MmsValue_clone h (V_boolean d b) = Some (V_boolean d b)"
| "MmsValue_clone h (V_octetString d n maxSize buf) = do {
     xs \<leftarrow> rdn (buf, 0) 0 (unat n);
     buf \<leftarrow> set_octets (hal_malloc h \<bar>maxSize\<bar>) xs;
     Some (V_octetString d n maxSize buf) }"
| "MmsValue_clone h (V_utcTime d buf) = do {
     xs \<leftarrow> rdn (buf, 0) 0 8;
     Some (V_utcTime d xs) }"
| "MmsValue_clone h (V_binaryTime d n buf) = do {
     xs \<leftarrow> rdn (buf, 0) 0 6;
     Some (V_binaryTime d n xs) }"
| "MmsValue_clone h (V_visibleString t d buf n) = do {
     src \<leftarrow> buf;
     b \<leftarrow> copyStringMax h (hal_malloc h (sint n + 1)) (sint n + 1) src;
     Some (V_visibleString t d (Some b) n) }"
| "MmsValue_clone h (V_dataAccessError d e) = Some (V_dataAccessError d e)"
| "clone_components h [] = Some []"
| "clone_components h (x # xs) = do {
     x \<leftarrow> (case x of None \<Rightarrow> Some None | Some v \<Rightarrow> do { v \<leftarrow> MmsValue_clone h v; Some (Some v) });
     xs \<leftarrow> clone_components h xs;
     Some (x # xs) }"

section \<open>Well-formed values\<close>

text \<open>
  The shape every constructor gives a value: arrays have the size the fields say, and a string is
  terminated inside its array. A well-formed value has no component that is \<open>NULL\<close>, and no string
  whose array is \<open>NULL\<close>.
\<close>

fun leaf_wf :: "MmsValue \<Rightarrow> bool" where
  "leaf_wf (V_integer t d i) \<longleftrightarrow> t \<in> {MMS_INTEGER, MMS_UNSIGNED} \<and> pv_wf i"
| "leaf_wf (V_floatingPoint d ew fw buf) \<longleftrightarrow> (fw = 32 \<or> fw = 64) \<and> length buf = 8"
| "leaf_wf (V_octetString d n maxSize buf) \<longleftrightarrow> uint n \<le> \<bar>maxSize\<bar> \<and> int (length buf) = \<bar>maxSize\<bar>"
| "leaf_wf (V_bitString d n buf) \<longleftrightarrow> 0 \<le> n \<and> n < 2 ^ 31 - 8 \<and> int (length buf) = bitStringByteSize n"
| "leaf_wf (V_visibleString t d buf n) \<longleftrightarrow> t \<in> {MMS_VISIBLE_STRING, MMS_STRING} \<and>
     (case buf of None \<Rightarrow> False | Some b \<Rightarrow> 0 \<in> set b \<and> int (length b) = sint n + 1)"
| "leaf_wf (V_utcTime d buf) \<longleftrightarrow> length buf = 8"
| "leaf_wf (V_binaryTime d n buf) \<longleftrightarrow> (n = 4 \<or> n = 6) \<and> length buf = 6"
| "leaf_wf _ \<longleftrightarrow> True"

fun value_wf :: "MmsValue \<Rightarrow> bool" and components_wf :: "MmsValue option list \<Rightarrow> bool" where
  "value_wf (V_structure t d xs) \<longleftrightarrow> t \<in> {MMS_ARRAY, MMS_STRUCTURE} \<and> components_wf xs"
| "value_wf v \<longleftrightarrow> leaf_wf v"
| "components_wf [] \<longleftrightarrow> True"
| "components_wf (x # xs) \<longleftrightarrow> (case x of None \<Rightarrow> False | Some v \<Rightarrow> value_wf v) \<and> components_wf xs"

end
