(* ===== verification/Mms_Value_Props.thy ===== *)
theory Mms_Value_Props
  imports Mms_Value
begin

text \<open>
  Properties of the values: a copy equals its original, an update that succeeds makes a value equal
  to its source, bits are stored where they are read, and the two representations of time give back
  what was stored in them.
\<close>

declare split_paired_All [simp del] split_paired_Ex [simp del]

section \<open>Arrays of octets\<close>

lemma rdn_take: "n \<le> length xs \<Longrightarrow> rdn (xs, 0) 0 n = Some (take n xs)"
  using rdn_prefix [of "take n xs" "drop n xs"] by simp

lemma set_octets_fits: "length xs \<le> length dst \<Longrightarrow> set_octets dst xs = Some (xs @ drop (length xs) dst)"
  by (simp add: set_octets_def)

lemma same_bytes_take: "nat n \<le> length p \<Longrightarrow> nat n \<le> length q \<Longrightarrow> same_bytes p q n = Some (take (nat n) p = take (nat n) q)"
  by (simp add: same_bytes_def rdn_take)

lemma bitStringByteSize_nonneg:
  assumes "0 \<le> n"
  shows "0 \<le> bitStringByteSize n" "bitStringByteSize n = (n + 7) div 8" "getBitStringByteSize n = bitStringByteSize n"
  using assms by (simp_all add: bitStringByteSize_def getBitStringByteSize_def sdiv_nonneg smod_nonneg) presburger+

lemma c_string_SomeD: "c_string b = Some cs \<Longrightarrow> length cs < length b \<and> 0 \<notin> set cs \<and> (\<exists>r. b = cs @ 0 # r)"
proof (induction b arbitrary: cs)
  case (Cons c b)
  show ?case
  proof (cases "c = 0")
    case True
    with Cons.prems show ?thesis by (simp add: c_string_def)
  next
    case False
    then have c: "c_string (c # b) = map_option ((#) c) (c_string b)" by (auto simp: c_string_def)
    then obtain ds where "c_string b = Some ds" "cs = c # ds" using Cons.prems by (cases "c_string b") auto
    with Cons.IH [of ds] False show ?thesis by simp
  qed
qed (simp add: c_string_def)

lemma c_string_append [simp]: "0 \<notin> set cs \<Longrightarrow> c_string (cs @ 0 # r) = Some cs"
  by (auto simp: c_string_def takeWhile_append)

lemma sint16: "0 \<le> k \<Longrightarrow> k < 2 ^ 15 \<Longrightarrow> sint (word_of_int k :: 16 word) = k"
  by (simp add: signed_of_int signed_take_bit_int_eq_self)

lemma sint16_nat: "k < 2 ^ 15 \<Longrightarrow> sint (word_of_nat k :: 16 word) = int k"
  using sint16 [of "int k"] by simp

lemma malloc_length: "hal_ok h \<Longrightarrow> 0 \<le> n \<Longrightarrow> length (hal_malloc h n) = nat n"
  by (simp add: hal_ok_def)

lemma copyStringMax_fits:
  assumes "hal_ok h" and "c_string buf = Some s" and "int (length s) < n" and "n \<le> int (length dst)"
  shows "copyStringMax h dst n buf = Some (s @ 0 # drop (length s + 1) dst)"
proof -
  have "take (nat n - 1) s = s" using assms(3) by simp
  with assms show ?thesis by (auto simp: hal_ok_def Let_def)
qed

section \<open>Copies\<close>

fun is_leaf :: "MmsValue \<Rightarrow> bool" where
  "is_leaf (V_structure t d xs) = False"
| "is_leaf v = True"

lemma equals_leafI:
  assumes "MmsValue_getType v = MmsValue_getType w" and "equals_leaf v w = Some b" and "is_leaf v"
  shows "MmsValue_equals (Some v) (Some w) = Some b"
  using assms by (cases v) simp_all

lemma value_leaf_wf: "is_leaf v \<Longrightarrow> value_wf v = leaf_wf v"
  by (cases v) simp_all

lemma clone_pv: "pv_wf i \<Longrightarrow> allocated (Asn1PrimitiveValue_clone True True i) = Some i"
  by (simp add: allocated_def Asn1PrimitiveValue_clone_def pv_wf_def rdn_take)

lemma compare_pv:
  assumes "pv_wf i" and "pv_wf j"
  shows "Asn1PrimitivaValue_compare i j = Some (pv_bytes i = pv_bytes j)"
proof -
  have "pv_size i = pv_size j" if "pv_bytes i = pv_bytes j"
    using that pv_wf_bytes [OF assms(1)] pv_wf_bytes [OF assms(2)] by (simp add: word_unat_eq_iff)
  then show ?thesis
    using pv_wf_rdn [OF assms(1)] pv_wf_rdn [OF assms(2)] by (auto simp: Asn1PrimitivaValue_compare_def)
qed

lemma clone_leaf:
  assumes "hal_ok h" and "leaf_wf v" and "is_leaf v"
  shows "\<exists>v'. MmsValue_clone h v = Some v' \<and> MmsValue_getType v' = MmsValue_getType v \<and> equals_leaf v v' = Some True \<and> leaf_wf v'"
proof (cases v)
  case (V_visibleString t d buf n)
  with assms(2) obtain b cs where b: "buf = Some b" "c_string b = Some cs" "int (length b) = sint n + 1"
    by (auto simp: c_string_def split: option.splits)
  then have "int (length cs) < sint n + 1" using c_string_SomeD [OF b(2)] by linarith
  moreover have "int (length (hal_malloc h (sint n + 1))) = sint n + 1" using b(3) assms(1) by (simp add: malloc_length)
  ultimately show ?thesis
    using V_visibleString assms(1,2) b c_string_SomeD [OF b(2)] copyStringMax_fits [OF assms(1) b(2), of "sint n + 1" "hal_malloc h (sint n + 1)"]
    by (simp add: equals_leaf_def)
next
  case (V_integer t d i)
  with assms show ?thesis by (simp add: clone_pv compare_pv equals_leaf_def)
next
  case (V_floatingPoint d ew fw buf)
  with assms(2) show ?thesis by (auto simp: equals_leaf_def rdn_take set_octets_fits same_bytes_take)
next
  case (V_octetString d n m buf)
  have "length (hal_malloc h \<bar>m\<bar>) = nat \<bar>m\<bar>" using assms(1) by (simp add: malloc_length)
  moreover have "uint n \<le> \<bar>m\<bar>" "int (length buf) = \<bar>m\<bar>" using V_octetString assms(2) by simp_all
  then have "unat n \<le> nat \<bar>m\<bar>" "length buf = nat \<bar>m\<bar>" by (auto simp: le_nat_iff)
  ultimately show ?thesis using V_octetString assms(2) by (simp add: equals_leaf_def rdn_take set_octets_fits same_bytes_take)
next
  case (V_bitString d n buf)
  then have n: "0 \<le> bitStringByteSize n" "int (length buf) = bitStringByteSize n" using assms(2) bitStringByteSize_nonneg by auto
  then have "length (hal_malloc h (bitStringByteSize n)) = nat (bitStringByteSize n)" "length buf = nat (bitStringByteSize n)"
    using assms(1) by (auto simp: malloc_length)
  then show ?thesis using V_bitString assms(2) n by (simp add: equals_leaf_def rdn_take set_octets_fits same_bytes_take)
qed (use assms in \<open>auto simp: equals_leaf_def rdn_take same_bytes_take\<close>)

lemma clone_value:
  assumes "hal_ok h" and "is_leaf v" and "value_wf v"
  shows "\<exists>v'. MmsValue_clone h v = Some v' \<and> MmsValue_equals (Some v) (Some v') = Some True \<and> value_wf v'"
proof -
  obtain v' where v': "MmsValue_clone h v = Some v'" "MmsValue_getType v' = MmsValue_getType v" "equals_leaf v v' = Some True" "leaf_wf v'"
    using clone_leaf assms value_leaf_wf by blast
  then have "is_leaf v'" using assms(2) by (cases v; cases v') (auto simp: equals_leaf_def)
  with v' assms(2) show ?thesis by (simp add: value_leaf_wf equals_leafI del: MmsValue_equals.simps)
qed

lemma clone_equal_value:
  "hal_ok h \<Longrightarrow> value_wf v \<Longrightarrow> \<exists>v'. MmsValue_clone h v = Some v' \<and> MmsValue_equals (Some v) (Some v') = Some True \<and> value_wf v'"
  and clone_equal_components: "hal_ok h \<Longrightarrow> components_wf xs \<Longrightarrow> \<exists>xs'. clone_components h xs = Some xs' \<and> length xs' = length xs \<and>
      equals_components xs xs' = Some True \<and> components_wf xs'"
proof (induction h v and h xs rule: MmsValue_clone_clone_components.induct)
  case (1 h t d xs)
  then obtain xs' where "clone_components h xs = Some xs'" "length xs' = length xs" "equals_components xs xs' = Some True" "components_wf xs'"
    by auto
  with 1 show ?case by (intro exI [of _ "V_structure t d xs'"]) simp
next
  case (12 h x xs)
  then obtain v where v: "x = Some v" "value_wf v" "components_wf xs" by (auto split: option.splits)
  obtain v' where v': "MmsValue_clone h v = Some v'" "MmsValue_equals (Some v) (Some v') = Some True" "value_wf v'"
    using "12.IH"(1) [OF v(1) "12.prems"(1) v(2)] by blast
  moreover obtain xs' where "clone_components h xs = Some xs'" "length xs' = length xs" "equals_components xs xs' = Some True" "components_wf xs'"
    using "12.IH"(2) [of "Some v'"] "12.prems"(1) v(1,3) v'(1) by auto
  ultimately show ?case using v(1) by (simp del: MmsValue_equals.simps)
qed (simp_all del: MmsValue_equals.simps MmsValue_clone.simps add: clone_value)

section \<open>Updates\<close>

text \<open>
  An update stores a bit string of another size bit by bit, as far as both reach: there only the
  common bits agree afterwards.
\<close>

fun same_bit_sizes :: "MmsValue option \<Rightarrow> MmsValue option \<Rightarrow> bool" and
  same_bit_sizes_components :: "MmsValue option list \<Rightarrow> MmsValue option list \<Rightarrow> bool" where
  "same_bit_sizes (Some (V_bitString d n buf)) (Some (V_bitString d' n' buf')) \<longleftrightarrow> n = n'"
| "same_bit_sizes (Some (V_structure t d xs)) (Some (V_structure t' d' ys)) \<longleftrightarrow> same_bit_sizes_components xs ys"
| "same_bit_sizes _ _ \<longleftrightarrow> True"
| "same_bit_sizes_components (x # xs) (y # ys) \<longleftrightarrow> same_bit_sizes x y \<and> same_bit_sizes_components xs ys"
| "same_bit_sizes_components _ _ \<longleftrightarrow> True"

text \<open>Where a bit lies.\<close>

definition bit_at :: "byte list \<Rightarrow> int \<Rightarrow> bool" where
  "bit_at buf i = bit (buf ! nat (i div 8)) (nat (7 - i mod 8))"

lemma bit_index:
  assumes "leaf_wf (V_bitString d n buf)" and "0 \<le> i" and "i < n"
  shows "nat (i div 8) < length buf" "i div 8 < int (length buf)" "nat (7 - i mod 8) < 8" "shl1 (7 - i mod 8) = Some (2 ^ nat (7 - i mod 8))"
proof -
  have "int (length buf) = (n + 7) div 8" using assms bitStringByteSize_nonneg(2) [of n] by simp
  then show "i div 8 < int (length buf)" using assms by presburger
  then show "nat (i div 8) < length buf" using assms(2) by (simp add: nat_less_iff pos_imp_zdiv_nonneg_iff)
  have "i mod 8 \<le> 7" "0 \<le> i mod 8" by presburger+
  then show "nat (7 - i mod 8) < 8" "shl1 (7 - i mod 8) = Some (2 ^ nat (7 - i mod 8))" by (auto simp: shl1_def)
qed

lemma mask_bit:
  fixes x :: byte
  assumes "k < 8"
  shows "0 < uint x AND 2 ^ k \<longleftrightarrow> bit x k"
proof -
  have "uint x AND 2 ^ k \<noteq> 0 \<longleftrightarrow> bit x k" using assms by (simp add: and_exp_eq_0_iff_not_bit bit_uint_iff)
  moreover have "0 \<le> uint x AND 2 ^ k" by simp
  ultimately show ?thesis by linarith
qed

lemma getBit_eq:
  assumes "leaf_wf (V_bitString d n buf)" and "0 \<le> i"
  shows "MmsValue_getBitStringBit (V_bitString d n buf) i = Some (i < n \<and> bit_at buf i)"
proof (cases "i < n")
  case True
  note ix = bit_index [OF assms True]
  have "rd (buf, 0) (i div 8) = Some (buf ! nat (i div 8))" using ix assms(2) by (simp add: rd_def pos_imp_zdiv_nonneg_iff)
  with True ix assms(2) show ?thesis by (simp add: bit_at_def mask_bit)
qed simp

lemma setBit_wf:
  assumes "leaf_wf (V_bitString d n buf)" and "0 \<le> i" and "i < n"
  shows "\<exists>buf'. MmsValue_setBitStringBit (V_bitString d n buf) i b = Some (V_bitString d n buf') \<and> length buf' = length buf \<and>
    (\<forall>j. 0 \<le> j \<longrightarrow> j < n \<longrightarrow> bit_at buf' j = (if j = i then b else bit_at buf j))"
proof -
  note ix = bit_index [OF assms]
  let ?k = "nat (7 - i mod 8)" and ?p = "nat (i div 8)"
  let ?x = "if b then buf ! ?p OR 2 ^ ?k else buf ! ?p AND NOT (2 ^ ?k)"
  have bitx: "bit ?x m = (if m = ?k then b else bit (buf ! ?p) m)" if "m < 8" for m
    using that ix(3) by (auto simp: bit_simps)
  have "bit_at (buf[?p := ?x]) j = (if j = i then b else bit_at buf j)" if j: "0 \<le> j" "j < n" for j
  proof (cases "nat (j div 8) = ?p")
    case True
    then have "j div 8 = i div 8" using j assms(2) by (simp add: nat_eq_iff pos_imp_zdiv_nonneg_iff)
    then have "j mod 8 = i mod 8 \<longleftrightarrow> j = i" by (metis mult_div_mod_eq)
    moreover have "0 \<le> 7 - j mod 8" "0 \<le> 7 - i mod 8" by presburger+
    ultimately have "nat (7 - j mod 8) = ?k \<longleftrightarrow> j = i" by (simp add: nat_eq_iff)
    with True bitx [OF bit_index(3) [OF assms(1) j]] ix(1) show ?thesis by (auto simp: bit_at_def)
  next
    case False
    then have "j \<noteq> i" by auto
    with False show ?thesis by (simp add: bit_at_def)
  qed
  moreover have "MmsValue_setBitStringBit (V_bitString d n buf) i b = Some (V_bitString d n (buf[?p := ?x]))"
    using ix assms(2,3) by (simp add: rd_def wr_def Let_def pos_imp_zdiv_nonneg_iff)
  ultimately show ?thesis by simp
qed

lemma getBit_total:
  assumes "leaf_wf (V_bitString d n buf)" and "0 \<le> i"
  shows "\<exists>b. MmsValue_getBitStringBit (V_bitString d n buf) i = Some b"
  using getBit_eq [OF assms] by blast

lemma update_bits:
  assumes "leaf_wf (V_bitString d n buf)" and "leaf_wf (V_bitString d' n' buf')"
  shows "\<exists>buf''. for_range 0 (min n n') (\<lambda>i v. do { b \<leftarrow> MmsValue_getBitStringBit (V_bitString d' n' buf') i; MmsValue_setBitStringBit v i b })
      (V_bitString d n buf) = Some (V_bitString d n buf'') \<and> leaf_wf (V_bitString d n buf'')"
proof -
  let ?P = "\<lambda>i v. \<exists>buf''. v = V_bitString d n buf'' \<and> leaf_wf v"
  have "\<exists>v. for_range 0 (min n n') (\<lambda>i v. do { b \<leftarrow> MmsValue_getBitStringBit (V_bitString d' n' buf') i; MmsValue_setBitStringBit v i b })
      (V_bitString d n buf) = Some v \<and> ?P (min n n') v"
  proof (rule for_range_rule)
    fix i v assume i: "0 \<le> i" "i < min n n'" and "?P i v"
    then obtain bf where bf: "v = V_bitString d n bf" "leaf_wf (V_bitString d n bf)" by blast
    obtain b where "MmsValue_getBitStringBit (V_bitString d' n' buf') i = Some b" using getBit_total [OF assms(2) i(1)] by blast
    moreover obtain bf' where "MmsValue_setBitStringBit (V_bitString d n bf) i b = Some (V_bitString d n bf')" "length bf' = length bf"
      using setBit_wf [OF bf(2) i(1), of b] i(2) by auto
    ultimately show "\<exists>v'. do { b \<leftarrow> MmsValue_getBitStringBit (V_bitString d' n' buf') i; MmsValue_setBitStringBit v i b } = Some v' \<and> ?P (i + 1) v'"
      using bf by (simp del: MmsValue_getBitStringBit.simps MmsValue_setBitStringBit.simps)
  qed (use assms in auto)
  then show ?thesis by blast
qed

lemma set_pv:
  assumes "pv_wf i" and "pv_wf j"
  shows "\<exists>i' ok. BerInteger_setFromBerInteger i j = Some (i', ok) \<and> pv_wf i' \<and> (ok \<longrightarrow> pv_bytes i' = pv_bytes j)"
  using assms pv_wf_rdn [OF assms(2)] pv_wf_bytes [OF assms(2)]
  by (auto simp: BerInteger_setFromBerInteger_def set_octets_fits pv_wf_def pv_bytes_def word_le_nat_alt)

definition updated :: "HalApi \<Rightarrow> MmsValue \<Rightarrow> MmsValue \<Rightarrow> bool" where
  "updated h v u \<longleftrightarrow> (\<exists>ok v'. update_leaf h v u = Some (ok, v') \<and> MmsValue_getType v' = MmsValue_getType v \<and> leaf_wf v' \<and> is_leaf v' \<and>
     (ok \<longrightarrow> same_bit_sizes (Some v) (Some u) \<longrightarrow> equals_leaf v' u = Some True))"

lemma updated_string:
  assumes "hal_ok h" and "leaf_wf (V_visibleString t d buf n)" and "leaf_wf (V_visibleString t d' buf' n')"
  shows "updated h (V_visibleString t d buf n) (V_visibleString t d' buf' n')"
proof -
  obtain b where b: "buf = Some b" "int (length b) = sint n + 1" using assms(2) by (auto split: option.splits)
  obtain b' cs where b': "buf' = Some b'" "c_string b' = Some cs" "int (length b') = sint n' + 1"
    using assms(3) by (auto simp: c_string_def split: option.splits)
  have "sint n' < 2 ^ 15" using sint_lt [of n'] by simp
  then have l: "int (length cs) < 2 ^ 15" using c_string_SomeD [OF b'(2)] b'(3) by linarith
  let ?new = "int (length cs) > sint n"
  let ?b = "if ?new then hal_malloc h (int (length cs) + 1) else b" and ?n = "if ?new then word_of_int (int (length cs)) else n"
  have n: "int (length cs) < sint ?n + 1" "sint ?n + 1 = int (length ?b)"
    using b l assms(1) by (auto simp: malloc_length [OF assms(1)] sint16_nat)
  have "setVisibleStringValue h (V_visibleString t d buf n) buf' = Some (V_visibleString t d (Some (cs @ 0 # drop (length cs + 1) ?b)) ?n)"
    using copyStringMax_fits [OF assms(1) b'(2) n(1) eq_refl [OF n(2)]] b b' by (auto simp: Let_def)
  moreover have "int (length (cs @ 0 # drop (length cs + 1) ?b)) = sint ?n + 1" using n by (simp del: of_nat_Suc)
  ultimately show ?thesis
    using assms(2) c_string_SomeD [OF b'(2)] b'(1,2)
    by (auto simp: updated_def update_leaf_def MmsValue_setVisibleString_def MmsValue_setMmsString_def equals_leaf_def)
qed

lemma update_leaf_wf:
  assumes "hal_ok h" and "leaf_wf v" and "leaf_wf u" and "is_leaf v" and "MmsValue_getType v = MmsValue_getType u" and "is_leaf u"
  shows "updated h v u"
proof (cases v)
  case (V_integer t d i)
  with assms(2,3,5,6) obtain d' j where u: "u = V_integer t d' j" "pv_wf i" "pv_wf j" by (cases u) auto
  obtain i' ok where "BerInteger_setFromBerInteger i j = Some (i', ok)" "pv_wf i'" "ok \<longrightarrow> pv_bytes i' = pv_bytes j"
    using set_pv [OF u(2,3)] by blast
  with V_integer u assms(2) show ?thesis by (auto simp: updated_def update_leaf_def equals_leaf_def compare_pv)
next
  case (V_visibleString t d buf n)
  with assms(2,3,5,6) obtain d' buf' n' where "u = V_visibleString t d' buf' n'" by (cases u) auto
  with V_visibleString assms(1-3) show ?thesis by (simp only: updated_string)
next
  case (V_floatingPoint d ew fw buf)
  with assms(3,5,6) obtain d' ew' fw' buf' where "u = V_floatingPoint d' ew' fw' buf'" by (cases u) auto
  with V_floatingPoint assms(2,3) show ?thesis
    by (auto simp: updated_def update_leaf_def equals_leaf_def rdn_take set_octets_fits same_bytes_take)
next
  case (V_octetString d n m buf)
  with assms(3,5,6) obtain d' n' m' buf' where u: "u = V_octetString d' n' m' buf'" by (cases u) auto
  have l: "length (hal_malloc h (uint n')) = unat n'" using assms(1) by (simp add: malloc_length)
  have "uint n \<le> \<bar>m\<bar>" "int (length buf) = \<bar>m\<bar>" "uint n' \<le> \<bar>m'\<bar>" "int (length buf') = \<bar>m'\<bar>" using V_octetString u assms(2,3) by simp_all
  then have "unat n' \<le> length buf'" "uint n' \<le> \<bar>m\<bar> \<Longrightarrow> unat n' \<le> length buf" by (simp_all add: nat_le_iff [symmetric] flip: of_nat_le_iff [where 'a = int])
  with V_octetString u assms(2) l show ?thesis
    by (auto simp: updated_def update_leaf_def equals_leaf_def rdn_take set_octets_fits same_bytes_take Let_def)
next
  case (V_bitString d n buf)
  with assms(3,5,6) obtain d' n' buf' where u: "u = V_bitString d' n' buf'" by (cases u) auto
  have wf: "leaf_wf (V_bitString d n buf)" "leaf_wf (V_bitString d' n' buf')" using assms(2,3) V_bitString u by simp_all
  show ?thesis
  proof (cases "n = n'")
    case True
    have "length buf = nat (bitStringByteSize n)" "length buf' = nat (bitStringByteSize n)" using wf True by auto
    with True V_bitString u wf show ?thesis
      by (auto simp: updated_def update_leaf_def equals_leaf_def rdn_take set_octets_fits same_bytes_take)
  next
    case False
    with V_bitString u update_bits [OF wf] show ?thesis by (auto simp: updated_def update_leaf_def)
  qed
next
  case (V_utcTime d buf)
  with assms(3,5,6) obtain d' buf' where "u = V_utcTime d' buf'" by (cases u) auto
  with V_utcTime assms(2,3) show ?thesis
    by (auto simp: updated_def update_leaf_def equals_leaf_def rdn_take set_octets_fits same_bytes_take)
next
  case (V_binaryTime d n buf)
  with assms(3,5,6) obtain d' n' buf' where "u = V_binaryTime d' n' buf'" by (cases u) auto
  with V_binaryTime assms(2,3) show ?thesis
    by (auto simp: updated_def update_leaf_def equals_leaf_def rdn_take set_octets_fits same_bytes_take)
next
  case (V_boolean d b)
  with assms(3,5,6) obtain d' b' where "u = V_boolean d' b'" by (cases u) auto
  with V_boolean show ?thesis by (auto simp: updated_def update_leaf_def equals_leaf_def)
next
  case (V_dataAccessError d e)
  with assms(3,5,6) obtain d' e' where "u = V_dataAccessError d' e'" by (cases u) auto
  with V_dataAccessError show ?thesis by (auto simp: updated_def update_leaf_def)
qed (use assms in simp)

text \<open>What an update of one value, or of a list of components, by another one ends in.\<close>

definition value_updated :: "HalApi \<Rightarrow> MmsValue \<Rightarrow> MmsValue \<Rightarrow> bool" where
  "value_updated h v u \<longleftrightarrow> (\<exists>ok v'. MmsValue_update h (Some v) (Some u) = Some (ok, Some v') \<and> value_wf v' \<and>
     MmsValue_getType v' = MmsValue_getType v \<and>
     (ok \<longrightarrow> same_bit_sizes (Some v) (Some u) \<longrightarrow> MmsValue_equals (Some v') (Some u) = Some True))"

definition components_updated :: "HalApi \<Rightarrow> MmsValue option list \<Rightarrow> MmsValue option list \<Rightarrow> bool" where
  "components_updated h xs ys \<longleftrightarrow> (\<exists>ok xs'. updateStructuredComponent h xs ys = Some (ok, xs') \<and> components_wf xs' \<and> length xs' = length xs \<and>
     (ok \<longrightarrow> same_bit_sizes_components xs ys \<longrightarrow> equals_components xs' ys = Some True))"

lemma value_updated_leaf:
  assumes "hal_ok h" and "value_wf v" and "value_wf u" and "is_leaf v" and "MmsValue_getType v = MmsValue_getType u"
  shows "value_updated h v u"
proof -
  have l: "is_leaf u" using assms(2-5) by (cases u; cases v) auto
  obtain ok v' where v': "update_leaf h v u = Some (ok, v')" "MmsValue_getType v' = MmsValue_getType v" "leaf_wf v'" "is_leaf v'"
      "ok \<longrightarrow> same_bit_sizes (Some v) (Some u) \<longrightarrow> equals_leaf v' u = Some True"
    using update_leaf_wf [of h v u] assms l unfolding updated_def by (auto simp: value_leaf_wf)
  have "MmsValue_update h (Some v) (Some u) = Some (ok, Some v')" using v'(1) assms(4,5) by (cases v) simp_all
  moreover have "value_wf v'" using v'(3,4) by (simp add: value_leaf_wf)
  ultimately show ?thesis
    using v' assms(5) equals_leafI [of v' u True] unfolding value_updated_def by auto
qed

lemma value_updated_any:
  assumes "hal_ok h" and "value_wf v" and "value_wf u" and "is_leaf v"
  shows "value_updated h v u"
proof (cases "MmsValue_getType v = MmsValue_getType u")
  case False
  with assms(2) show ?thesis unfolding value_updated_def by auto
qed (rule value_updated_leaf [OF assms])

lemma value_updated_structure:
  assumes "components_updated h xs ys" and "length xs = length ys" and "t \<in> {MMS_ARRAY, MMS_STRUCTURE}"
  shows "value_updated h (V_structure t d xs) (V_structure t d' ys)"
proof -
  obtain ok xs' where "updateStructuredComponent h xs ys = Some (ok, xs')" "components_wf xs'" "length xs' = length xs"
     "ok \<longrightarrow> same_bit_sizes_components xs ys \<longrightarrow> equals_components xs' ys = Some True"
    using assms(1) unfolding components_updated_def by blast
  with assms(2,3) show ?thesis unfolding value_updated_def
    by (intro exI [of _ ok] exI [of _ "V_structure t d xs'"]) auto
qed

lemma components_updated_Cons:
  assumes "value_updated h v u" and "components_updated h xs ys" and "components_wf xs"
  shows "components_updated h (Some v # xs) (Some u # ys)"
proof -
  obtain ok v' where v: "MmsValue_update h (Some v) (Some u) = Some (ok, Some v')" "value_wf v'"
      "ok \<longrightarrow> same_bit_sizes (Some v) (Some u) \<longrightarrow> MmsValue_equals (Some v') (Some u) = Some True"
    using assms(1) unfolding value_updated_def by blast
  obtain ok' xs' where "updateStructuredComponent h xs ys = Some (ok', xs')" "components_wf xs'" "length xs' = length xs"
     "ok' \<longrightarrow> same_bit_sizes_components xs ys \<longrightarrow> equals_components xs' ys = Some True"
    using assms(2) unfolding components_updated_def by blast
  with v assms(3) show ?thesis unfolding components_updated_def
    by (cases ok) (auto simp del: MmsValue_update.simps MmsValue_equals.simps)
qed

lemma update_ok_value: "hal_ok h \<Longrightarrow> value_wf v \<Longrightarrow> value_wf u \<Longrightarrow> value_updated h v u"
  and update_ok_components: "hal_ok h \<Longrightarrow> components_wf xs \<Longrightarrow> components_wf ys \<Longrightarrow> length xs = length ys \<Longrightarrow> components_updated h xs ys"
proof (induction v and xs arbitrary: u and ys rule: value_wf_components_wf.induct)
  case (1 t d xs)
  show ?case
  proof (cases "MmsValue_getType u = t")
    case True
    then obtain d' ys where u: "u = V_structure t d' ys" "components_wf ys" using 1 by (cases u) auto
    show ?thesis
    proof (cases "length xs = length ys")
      case True
      then show ?thesis using 1 u by (auto intro!: value_updated_structure)
    next
      case False
      then show ?thesis using 1 u unfolding value_updated_def by auto
    qed
  next
    case False
    then show ?thesis using 1 unfolding value_updated_def by auto
  qed
next
  case 3
  then show ?case unfolding components_updated_def by (intro exI [of _ True]) simp
next
  case (4 x xs)
  then obtain v u ys' where "x = Some v" "value_wf v" "components_wf xs" "ys = Some u # ys'" "value_wf u" "components_wf ys'" "length xs = length ys'"
    by (cases ys) (auto split: option.splits)
  then show ?case using 4 by (auto intro!: components_updated_Cons)
qed (simp_all add: value_updated_any)

section \<open>Bit strings as integers\<close>

text \<open>The loops over the bits, the bit of weight \<open>i\<close> at the position \<open>pos i\<close>.\<close>

lemma set_bits_loop:
  fixes x :: "32 word"
  assumes wf: "leaf_wf (V_bitString d n buf)" and pos: "\<And>i. 0 \<le> i \<Longrightarrow> i < n \<Longrightarrow> 0 \<le> pos i \<and> pos i < n"
    and inj: "\<And>i j. 0 \<le> i \<Longrightarrow> i < n \<Longrightarrow> 0 \<le> j \<Longrightarrow> j < n \<Longrightarrow> pos i = pos j \<Longrightarrow> i = j"
  shows "\<exists>buf' y. for_range 0 n (\<lambda>i (self, intValue). do {
       self \<leftarrow> MmsValue_setBitStringBit self (pos i) (intValue AND 1 = 1);
       Some (self, drop_bit 1 intValue) }) (V_bitString d n buf, x) = Some (V_bitString d n buf', y) \<and>
     leaf_wf (V_bitString d n buf') \<and> (\<forall>i. 0 \<le> i \<longrightarrow> i < n \<longrightarrow> bit_at buf' (pos i) = bit x (nat i))"
proof -
  let ?P = "\<lambda>k s. \<exists>buf'. s = (V_bitString d n buf', drop_bit (nat k) x) \<and> length buf' = length buf \<and>
    (\<forall>i. 0 \<le> i \<longrightarrow> i < k \<longrightarrow> bit_at buf' (pos i) = bit x (nat i))"
  have "\<exists>s. for_range 0 n (\<lambda>i (self, intValue). do {
       self \<leftarrow> MmsValue_setBitStringBit self (pos i) (intValue AND 1 = 1);
       Some (self, drop_bit 1 intValue) }) (V_bitString d n buf, x) = Some s \<and> ?P n s"
  proof (rule for_range_rule [where P = ?P])
    fix k s assume k: "0 \<le> k" "k < n" and "?P k s"
    then obtain b where b: "s = (V_bitString d n b, drop_bit (nat k) x)" "length b = length buf"
      "\<And>i. 0 \<le> i \<Longrightarrow> i < k \<Longrightarrow> bit_at b (pos i) = bit x (nat i)" by auto
    have odd: "drop_bit (nat k) x AND 1 = 1 \<longleftrightarrow> bit x (nat k)"
      by (simp add: and_one_eq odd_iff_mod_2_eq_one [symmetric] bit_iff_odd_drop_bit)
    obtain b' where b': "MmsValue_setBitStringBit (V_bitString d n b) (pos k) (bit x (nat k)) = Some (V_bitString d n b')"
      "length b' = length b" "\<And>j. 0 \<le> j \<Longrightarrow> j < n \<Longrightarrow> bit_at b' j = (if j = pos k then bit x (nat k) else bit_at b j)"
      using setBit_wf [of d n b "pos k" "bit x (nat k)"] pos [OF k] b(2) wf by auto
    have "bit_at b' (pos i) = bit x (nat i)" if "0 \<le> i" "i < k + 1" for i
      using that b'(3) [of "pos i"] b(3) [of i] pos [of i] inj [of i k] k by (cases "i = k") auto
    with b b'(1,2) k show "\<exists>s'. (case s of (self, intValue) \<Rightarrow> do {
        self \<leftarrow> MmsValue_setBitStringBit self (pos k) (intValue AND 1 = 1);
        Some (self, drop_bit 1 intValue) }) = Some s' \<and> ?P (k + 1) s'"
      by (simp add: odd nat_add_distrib drop_bit_drop_bit del: MmsValue_setBitStringBit.simps)
  qed (use wf in auto)
  with wf show ?thesis by auto
qed

lemma take_bit_step: "take_bit (Suc k) x = take_bit k x + (if bit x k then 2 ^ k else 0 :: 'a::len word)"
proof -
  have "take_bit k x + (if bit x k then 2 ^ k else 0) = take_bit k x OR (if bit x k then 2 ^ k else 0)"
    by (rule disjunctive_add) (auto simp: bit_simps)
  also have "\<dots> = take_bit (Suc k) x"
    by (rule bit_eqI) (auto simp: bit_simps less_Suc_eq dest: bit_imp_le_length)
  finally show ?thesis by simp
qed

lemma get_bits_loop:
  fixes x :: "32 word"
  assumes wf: "leaf_wf (V_bitString d n buf)" and pos: "\<And>i. 0 \<le> i \<Longrightarrow> i < n \<Longrightarrow> 0 \<le> pos i \<and> pos i < n"
    and bits: "\<And>i. 0 \<le> i \<Longrightarrow> i < n \<Longrightarrow> bit_at buf (pos i) = bit x (nat i)" and "n \<le> 31"
  shows "for_range 0 n (\<lambda>i v. do {
       b \<leftarrow> MmsValue_getBitStringBit (V_bitString d n buf) (pos i);
       if b then do { x \<leftarrow> shl1 i; Some (v + word_of_int x) } else Some v }) (0 :: 32 word) = Some (take_bit (nat n) x)"
proof -
  have "for_range 0 n (\<lambda>i v. do {
       b \<leftarrow> MmsValue_getBitStringBit (V_bitString d n buf) (pos i);
       if b then do { x \<leftarrow> shl1 i; Some (v + word_of_int x) } else Some v }) (take_bit (nat 0) x) = Some (take_bit (nat n) x)"
  proof (rule for_range_det [where g = "\<lambda>i. take_bit (nat i) x"])
    fix i assume i: "0 \<le> i" "i < n"
    have "MmsValue_getBitStringBit (V_bitString d n buf) (pos i) = Some (bit x (nat i))"
      using getBit_eq [OF wf, of "pos i"] pos [OF i] bits [OF i] by simp
    moreover have "take_bit (nat (i + 1)) x = take_bit (nat i) x + (if bit x (nat i) then 2 ^ nat i else 0)"
      using i take_bit_step [of "nat i" x] by (simp add: nat_add_distrib)
    ultimately show "(do { b \<leftarrow> MmsValue_getBitStringBit (V_bitString d n buf) (pos i);
        if b then do { y \<leftarrow> shl1 i; Some (take_bit (nat i) x + word_of_int y) } else Some (take_bit (nat i) x) }) = Some (take_bit (nat (i + 1)) x)"
      using i assms(4) by (simp add: shl1_def del: MmsValue_getBitStringBit.simps)
  qed (use wf in simp)
  then show ?thesis by simp
qed

lemma bits_stored:
  fixes x :: "32 word"
  assumes "leaf_wf (V_bitString d n buf)" and "n \<le> 31"
  shows "\<exists>v'. MmsValue_setBitStringFromInteger (V_bitString d n buf) x = Some v' \<and> leaf_wf v' \<and>
     MmsValue_getBitStringAsInteger v' = Some (take_bit (nat n) x)"
    and "\<exists>v'. MmsValue_setBitStringFromIntegerBigEndian (V_bitString d n buf) x = Some v' \<and> leaf_wf v' \<and>
     MmsValue_getBitStringAsIntegerBigEndian v' = Some (take_bit (nat n) x)"
proof -
  obtain b y where "for_range 0 n (\<lambda>i (self, intValue). do {
       self \<leftarrow> MmsValue_setBitStringBit self i (intValue AND 1 = 1);
       Some (self, drop_bit 1 intValue) }) (V_bitString d n buf, x) = Some (V_bitString d n b, y)"
     "leaf_wf (V_bitString d n b)" "\<forall>i. 0 \<le> i \<longrightarrow> i < n \<longrightarrow> bit_at b i = bit x (nat i)"
    using set_bits_loop [OF assms(1), of "\<lambda>i. i" x] by auto
  then show "\<exists>v'. MmsValue_setBitStringFromInteger (V_bitString d n buf) x = Some v' \<and> leaf_wf v' \<and>
     MmsValue_getBitStringAsInteger v' = Some (take_bit (nat n) x)"
    using get_bits_loop [of d n b "\<lambda>i. i" x] assms(2)
    by (simp add: MmsValue_setBitStringFromInteger_def MmsValue_getBitStringAsInteger_def del: leaf_wf.simps)
  obtain b y where "for_range 0 n (\<lambda>i (self, intValue). do {
       self \<leftarrow> MmsValue_setBitStringBit self (n - 1 - i) (intValue AND 1 = 1);
       Some (self, drop_bit 1 intValue) }) (V_bitString d n buf, x) = Some (V_bitString d n b, y)"
     "leaf_wf (V_bitString d n b)" "\<forall>i. 0 \<le> i \<longrightarrow> i < n \<longrightarrow> bit_at b (n - 1 - i) = bit x (nat i)"
    using set_bits_loop [OF assms(1), of "\<lambda>i. n - 1 - i" x] by auto
  then show "\<exists>v'. MmsValue_setBitStringFromIntegerBigEndian (V_bitString d n buf) x = Some v' \<and> leaf_wf v' \<and>
     MmsValue_getBitStringAsIntegerBigEndian v' = Some (take_bit (nat n) x)"
    using get_bits_loop [of d n b "\<lambda>i. n - 1 - i" x] assms(2)
    by (simp add: MmsValue_setBitStringFromIntegerBigEndian_def MmsValue_getBitStringAsIntegerBigEndian_def del: leaf_wf.simps)
qed

section \<open>Times\<close>

lemma big_endian_read:
  fixes w :: "32 word"
  assumes "hal_ok h"
  shows "to_big_endian h (native_bytes (hal_le h) 4 w) = rev (le_bytes 4 w)"
    and "native_word (hal_le h) (to_big_endian h (rev (le_bytes 4 w))) = w"
proof -
  have r: "memcpyReverseByteOrder h xs = rev xs" for xs using assms by (simp add: hal_ok_def)
  show "to_big_endian h (native_bytes (hal_le h) 4 w) = rev (le_bytes 4 w)"
    by (simp add: to_big_endian_def r native_bytes_def)
  have "be_uint (rev (le_bytes 4 w)) = uint w" using be_uint_le_bytes [of 4 w] uint_lt2p [of w] by simp
  then show "native_word (hal_le h) (to_big_endian h (rev (le_bytes 4 w))) = w"
    by (simp add: to_big_endian_def r native_word_def)
qed

lemma uint_octet: "uint (ucast (drop_bit k f AND 0xff) :: byte) = uint (f :: 32 word) div 2 ^ k mod 256"
proof -
  have m: "drop_bit k f AND 0xff = take_bit 8 (drop_bit k f)" by (simp add: take_bit_eq_mask mask_eq_exp_minus_1)
  have "uint (drop_bit k f) = uint f div 2 ^ k"
    by (simp only: unsigned_drop_bit_eq take_bit_uint) (simp add: drop_bit_eq_div)
  then show ?thesis unfolding m by (simp only: unsigned_ucast_eq unsigned_take_bit_eq) (simp add: take_bit_eq_mod)
qed

lemma three_octets:
  fixes f :: "32 word"
  assumes "uint f < 2 ^ 24"
  shows "push_bit 16 (ucast (ucast (drop_bit 16 f AND 0xff) :: byte)) + push_bit 8 (ucast (ucast (drop_bit 8 f AND 0xff) :: byte)) +
    ucast (ucast (f AND 0xff) :: byte) = f"
proof -
  have o: "(ucast (ucast (drop_bit k f AND 0xff) :: byte) :: 32 word) = word_of_int (uint f div 2 ^ k mod 256)" for k
    using uint_octet [of k f] by (simp only: ucast_eq)
  have "uint f = uint f div 65536 mod 256 * 65536 + uint f div 256 mod 256 * 256 + uint f mod 256"
  proof -
    have "uint f div 65536 = uint f div 256 div 256" using zdiv_zmult2_eq [of 256 "uint f" 256] by simp
    moreover have "uint f div 65536 mod 256 = uint f div 65536" using assms by (intro mod_pos_pos_trivial) (simp_all add: pos_imp_zdiv_nonneg_iff)
    ultimately show ?thesis
      using div_mult_mod_eq [of "uint f" 256] div_mult_mod_eq [of "uint f div 256" 256] by linarith
  qed
  from arg_cong [OF this, of "word_of_int :: int \<Rightarrow> 32 word"]
  have "f = word_of_int (uint f div 65536 mod 256) * 65536 + word_of_int (uint f div 256 mod 256) * 256 + word_of_int (uint f mod 256)"
    by (simp only: word_of_int_uint of_int_add of_int_mult of_int_numeral)
  with o [of 16] o [of 8] o [of 0] show ?thesis by (simp add: push_bit_eq_mult)
qed

text \<open>The octets a time in milliseconds is stored as.\<close>

definition utc_fraction :: "64 word \<Rightarrow> 32 word" where
  "utc_fraction t = (ucast (t mod 1000) :: 32 word) * 16777 + (ucast (t mod 1000) * 216) div 1000"

definition utc_octets :: "64 word \<Rightarrow> byte \<Rightarrow> byte list" where
  "utc_octets t q = rev (le_bytes 4 (ucast (t div 1000) :: 32 word)) @
     [ucast (drop_bit 16 (utc_fraction t) AND 0xff), ucast (drop_bit 8 (utc_fraction t) AND 0xff), ucast (utc_fraction t AND 0xff), q]"

lemma fraction_bounds:
  assumes "0 \<le> r" and "r < 1000"
  shows "0 \<le> r * 16777" "r * 16777 \<le> (16760223 :: int)" "0 \<le> r * 216 div 1000" "r * 216 div 1000 < 216"
  using assms by (simp_all add: pos_imp_zdiv_nonneg_iff div_less_iff_less_mult)

lemma utc_fraction_value:
  "uint (utc_fraction t) = uint t mod 1000 * 16777 + uint t mod 1000 * 216 div 1000" "uint (utc_fraction t) < 2 ^ 24"
proof -
  let ?r = "ucast (t mod 1000) :: 32 word"
  have r: "uint ?r = uint t mod 1000"
    using pos_mod_bound [of 1000 "uint t"] by (simp add: unsigned_ucast_eq uint_mod take_bit_int_eq_self)
  have b: "0 \<le> uint t mod 1000" "uint t mod 1000 < 1000" by simp_all
  have m: "uint (?r * 216) = uint t mod 1000 * 216" "uint (?r * 16777) = uint t mod 1000 * 16777"
    using b r by (simp_all add: uint_word_ariths)
  have d: "uint (?r * 216 div 1000) = uint t mod 1000 * 216 div 1000" using m by (simp add: uint_div)
  have l: "0 \<le> uint t mod 1000 * 16777" "uint t mod 1000 * 16777 \<le> 16760223" "0 \<le> uint t mod 1000 * 216 div 1000" "uint t mod 1000 * 216 div 1000 < 216"
    using fraction_bounds [OF b] by simp_all
  have "uint (utc_fraction t) = (uint (?r * 16777) + uint (?r * 216 div 1000)) mod 4294967296"
    unfolding utc_fraction_def uint_word_ariths(1) [of "?r * 16777"] by simp
  also have "\<dots> = uint t mod 1000 * 16777 + uint t mod 1000 * 216 div 1000"
    unfolding m d using l by (intro mod_pos_pos_trivial) linarith+
  finally show "uint (utc_fraction t) = uint t mod 1000 * 16777 + uint t mod 1000 * 216 div 1000" .
  then have "uint (utc_fraction t) < 16777216" using l by linarith
  then show "uint (utc_fraction t) < 2 ^ 24" by simp
qed

lemma setUtcTimeMs_eq:
  assumes "hal_ok h" and "length buf = 8"
  shows "setUtcTimeMs h (V_utcTime d buf) t q = Some (V_utcTime d (utc_octets t q))"
proof -
  obtain a b c e where "drop 4 buf = [a, b, c, e]" using assms(2) by (auto simp: length_Suc_conv eval_nat_numeral)
  then show ?thesis
    using assms(2) by (simp add: big_endian_read(1) [OF assms(1)] set_octets_def wr_def Let_def utc_octets_def utc_fraction_def list_update_append)
qed

lemma utc_read:
  assumes "hal_ok h"
  shows "rdn (utc_octets t q, 0) 0 4 = Some (rev (le_bytes 4 (ucast (t div 1000) :: 32 word)))"
    and "utcTime_fraction (utc_octets t q) = Some (utc_fraction t)"
    and "rd (utc_octets t q, 0) 7 = Some q"
  using three_octets [OF utc_fraction_value(2) [of t]]
  by (simp_all add: rdn_take utcTime_fraction_def utc_octets_def rd_def nth_append)

lemma micro_seconds:
  fixes r :: int
  assumes "0 \<le> r" and "r < 1000"
  shows "(r * 16777 + r * 216 div 1000) div 16777 = r"
    and "(r * 16777 + r * 216 div 1000) * 1000000 div 16777216 \<in> {1000 * r - 1, 1000 * r}"
proof -
  define q e where "q = r * 216 div 1000" and "e = r * 216 mod 1000"
  have qe: "q * 1000 + e = r * 216" "0 \<le> e" "e < 1000" unfolding q_def e_def by (rule div_mult_mod_eq) simp_all
  have q: "0 \<le> q" "q < 216" using fraction_bounds [OF assms] by (simp_all add: q_def)
  show "(r * 16777 + r * 216 div 1000) div 16777 = r" using q by (simp flip: q_def)
  have F: "(r * 16777 + q) * 1000000 = 16777216 * (1000 * r) + - (1000 * e)"
    using arg_cong [OF qe(1), of "\<lambda>x. 1000 * x"] by (simp add: algebra_simps)
  have "(16777216 * (1000 * r) + - (1000 * e)) div 16777216 = 1000 * r + (- (1000 * e)) div 16777216"
    by (simp only: div_mult_self4 ac_simps)
  moreover have "(- (1000 * e)) div 16777216 \<in> {- 1, 0}"
  proof (cases "e = 0")
    case False
    with qe(2,3) have "(- (1000 * e)) div 16777216 = - 1" by (intro int_div_pos_eq [where r = "16777216 - 1000 * e"]) simp_all
    then show ?thesis by simp
  qed simp
  ultimately show "(r * 16777 + r * 216 div 1000) * 1000000 div 16777216 \<in> {1000 * r - 1, 1000 * r}"
    unfolding q_def [symmetric] F by auto
qed

lemma utc_seconds:
  assumes "uint t < 4294967296000"
  shows "uint (ucast (t div 1000 :: 64 word) :: 32 word) = uint t div 1000"
proof -
  have "uint t div 1000 < 4294967296" "0 \<le> uint t div 1000" using assms by (simp_all add: div_less_iff_less_mult pos_imp_zdiv_nonneg_iff)
  then show ?thesis by (simp add: unsigned_ucast_eq uint_div take_bit_int_eq_self)
qed

lemma uint_widen [simp]: "uint (ucast (w :: 32 word) :: 64 word) = uint w"
  using uint_lt2p [of w] by (simp add: unsigned_ucast_eq take_bit_int_eq_self)

lemma utc_sum:
  fixes s :: "32 word" and r :: "64 word"
  assumes "uint r < 2 ^ 32"
  shows "uint (ucast s * 1000 + r :: 64 word) = uint s * 1000 + uint r"
proof -
  have b: "0 \<le> uint s" "uint s < 4294967296" using uint_lt2p [of s] by simp_all
  have "uint (ucast s * 1000 :: 64 word) = uint s * 1000" using b by (simp add: uint_word_ariths)
  with b assms show ?thesis by (simp add: uint_word_ariths(1))
qed

lemma utc_ms:
  assumes "hal_ok h" and "uint t < 4294967296000"
  shows "MmsValue_getUtcTimeInMs h (V_utcTime d (utc_octets t q)) = Some t"
    and "\<exists>ms us. MmsValue_getUtcTimeInMsWithUs h (V_utcTime d (utc_octets t q)) = Some (ms, us) \<and>
      uint ms * 1000 + uint us \<in> {uint t * 1000 - 1, uint t * 1000}"
proof -
  let ?f = "utc_fraction t" and ?s = "ucast (t div 1000) :: 32 word" and ?r = "uint t mod 1000"
  have b: "0 \<le> ?r" "?r < 1000" by simp_all
  have "uint (ucast (?f div 16777) :: 64 word) = ?r"
    using micro_seconds(1) [OF b] by (simp add: uint_div utc_fraction_value(1))
  then have "uint (ucast ?s * 1000 + ucast (?f div 16777) :: 64 word) = uint t"
    using b(2) by (subst utc_sum) (simp_all add: utc_seconds [OF assms(2)])
  then show "MmsValue_getUtcTimeInMs h (V_utcTime d (utc_octets t q)) = Some t"
    by (simp add: utc_read [OF assms(1)] big_endian_read(2) [OF assms(1)] word_uint_eq_iff)
  let ?R = "(ucast ?f * 1000000) div 0x1000000 :: 64 word"
  have "uint (ucast ?f * 1000000 :: 64 word) = uint ?f * 1000000"
    using utc_fraction_value(2) [of t] by (simp add: uint_word_ariths)
  then have R: "uint ?R \<in> {1000 * ?r - 1, 1000 * ?r}"
    using micro_seconds(2) [OF b] by (simp add: uint_div utc_fraction_value(1))
  let ?ms = "ucast ?s * 1000 + ?R div 1000" and ?us = "ucast (?R mod 1000) :: 32 word"
  have us: "uint ?us = uint ?R mod 1000" by (simp add: unsigned_ucast_eq uint_mod take_bit_int_eq_self)
  have d: "uint (?R div 1000) = uint ?R div 1000" by (simp add: uint_div)
  have "uint ?R div 1000 < 2 ^ 32" using R b by auto
  then have "uint ?ms = uint t div 1000 * 1000 + uint ?R div 1000"
    by (subst utc_sum) (simp_all only: d utc_seconds [OF assms(2)])
  then have "uint ?ms * 1000 + uint ?us = uint t div 1000 * 1000000 + uint ?R"
    unfolding us using div_mult_mod_eq [of "uint ?R" 1000] by linarith
  moreover have "uint t div 1000 * 1000000 + 1000 * ?r = uint t * 1000" using div_mult_mod_eq [of "uint t" 1000] by linarith
  ultimately have "uint ?ms * 1000 + uint ?us \<in> {uint t * 1000 - 1, uint t * 1000}" using R by auto
  then show "\<exists>ms us. MmsValue_getUtcTimeInMsWithUs h (V_utcTime d (utc_octets t q)) = Some (ms, us) \<and>
      uint ms * 1000 + uint us \<in> {uint t * 1000 - 1, uint t * 1000}"
    by (simp add: utc_read [OF assms(1)] big_endian_read(2) [OF assms(1)] Let_def)
qed

lemma setBinaryTime_eq:
  assumes "length buf = 6"
  shows "MmsValue_setBinaryTime h (V_binaryTime d 6 buf) t = (let m = if t > 441763200000 then t - 441763200000 else 0 in
    Some (V_binaryTime d 6 (rev (le_bytes 4 (ucast (m mod 86400000) :: 32 word)) @ rev (le_bytes 2 (ucast (m div 86400000) :: 16 word)))))"
proof -
  have n4: "(if le then [ms ! 3, ms ! 2, ms ! 1, ms ! 0] else [ms ! 0, ms ! 1, ms ! 2, ms ! 3]) = rev (le_bytes 4 w)"
    if "ms = native_bytes le 4 w" for le ms and w :: "32 word"
    using that by (simp add: native_bytes_def eval_nat_numeral)
  have n2: "[if le then ds ! 1 else ds ! 0, if le then ds ! 0 else ds ! 1] = rev (le_bytes 2 w)"
    if "ds = native_bytes le 2 w" for le ds and w :: "16 word"
    using that by (simp add: native_bytes_def eval_nat_numeral)
  obtain b0 b1 b2 b3 b4 b5 where buf: "buf = [b0, b1, b2, b3, b4, b5]" using assms by (auto simp: length_Suc_conv eval_nat_numeral)
  show ?thesis
    unfolding MmsValue_setBinaryTime.simps Let_def n4 [OF refl] n2 [OF refl, symmetric]
    by (simp add: buf wr_def set_octets_def native_bytes_def eval_nat_numeral)
qed

lemma getBinaryTime_eq:
  fixes w :: "32 word" and dw :: "16 word"
  assumes "uint w < 2 ^ 31"
  shows "MmsValue_getBinaryTimeAsUtcMs (V_binaryTime d 6 (rev (le_bytes 4 w) @ rev (le_bytes 2 dw))) =
    Some (ucast dw * 86400000 + 441763200000 + ucast w)"
proof -
  obtain b0 b1 b2 b3 where b: "rev (le_bytes 4 w) = [b0, b1, b2, b3]" by (simp add: eval_nat_numeral)
  obtain b4 b5 where e: "rev (le_bytes 2 dw) = [b4, b5]" by (simp add: eval_nat_numeral)
  have w: "uint b0 * 16777216 + uint b1 * 65536 + uint b2 * 256 + uint b3 = uint w"
    using be_uint_full [of 4 w] by (simp add: b be_uint_Cons)
  have dw: "uint b4 * 256 + uint b5 = uint dw" using be_uint_full [of 2 dw] by (simp add: e be_uint_Cons)
  have "uint b0 * 16777216 \<le> uint w"
    using w uint_ge_0 [of b1] uint_ge_0 [of b2] uint_ge_0 [of b3] by linarith
  then have "uint b0 * 16777216 < 2 ^ 31" using assms by linarith
  then have "shl24 b0 = Some (uint b0 * 16777216)"
    unfolding shl24_def by (intro i32_Some order_trans [of "- (2 ^ 31)" 0 "uint b0 * 16777216"]) simp_all
  moreover have "push_bit 16 (ucast b1 :: 32 word) = word_of_int (uint b1 * 65536)" "push_bit 8 (ucast b2 :: 32 word) = word_of_int (uint b2 * 256)"
    by (simp_all add: push_bit_eq_mult)
  then have "word_of_int (uint b0 * 16777216) + push_bit 16 (ucast b1) + push_bit 8 (ucast b2) + ucast b3 = w"
    by (simp only: ucast_eq [of b3] of_int_add [symmetric] w word_of_int_uint)
  moreover have "word_of_int (uint b4 * 256) + ucast b5 = dw"
    by (simp only: ucast_eq [of b5] of_int_add [symmetric] dw word_of_int_uint)
  ultimately show ?thesis unfolding b e by (simp add: rd_def)
qed

lemma binary_time_value:
  assumes "length buf = 6" and "441763200000 \<le> uint t" and "uint t < 441763200000 + 65536 * 86400000"
  shows "\<exists>v. MmsValue_setBinaryTime h (V_binaryTime d 6 buf) t = Some v \<and> MmsValue_getBinaryTimeAsUtcMs v = Some t"
proof -
  define m where "m = (if t > 441763200000 then t - 441763200000 else 0)"
  have m: "uint m = uint t - 441763200000"
    using assms(2) by (auto simp: m_def word_less_def uint_sub_if')
  let ?w = "ucast (m mod 86400000) :: 32 word" and ?dw = "ucast (m div 86400000) :: 16 word"
  have b: "0 \<le> uint m mod 86400000" "uint m mod 86400000 < 86400000" "0 \<le> uint m div 86400000" "uint m div 86400000 < 65536"
    using m assms by (simp_all add: pos_imp_zdiv_nonneg_iff div_less_iff_less_mult)
  have w: "uint ?w = uint m mod 86400000" "uint ?dw = uint m div 86400000"
    using b by (simp_all add: unsigned_ucast_eq uint_mod uint_div take_bit_int_eq_self)
  have "uint ?dw * 86400000 + 441763200000 + uint ?w = uint t"
    unfolding w using m div_mult_mod_eq [of "uint m" 86400000] by linarith
  from arg_cong [OF this, of "word_of_int :: int \<Rightarrow> 64 word"]
  have "ucast ?dw * 86400000 + 441763200000 + ucast ?w = t"
    by (simp only: of_int_add of_int_mult of_int_numeral ucast_eq [of ?w] ucast_eq [of ?dw] word_of_int_uint)
  moreover have "uint ?w < 2 ^ 31" unfolding w(1) using b(2) by simp
  ultimately show ?thesis
    using setBinaryTime_eq [OF assms(1), of h d t] getBinaryTime_eq [of ?w d ?dw] unfolding m_def [symmetric] Let_def by simp
qed

section \<open>A platform layer and a value\<close>

definition plain_hal :: HalApi where
  "plain_hal = \<lparr>hal_le = True, hal_malloc = (\<lambda>n. replicate (nat n) 0), memcpyReverseByteOrder = rev,
     copyStringMax = (\<lambda>dst n buf. case c_string buf of None \<Rightarrow> None
       | Some s \<Rightarrow> (let t = take (nat n - 1) s in Some (t @ 0 # drop (length t + 1) dst))),
     createStringFromBuffer = (\<lambda>xs. xs @ [0])\<rparr>"

lemma plain_hal_ok: "hal_ok plain_hal"
  by (simp add: hal_ok_def plain_hal_def)

definition example_value :: MmsValue where
  "example_value = V_structure MMS_STRUCTURE 0
     [Some (V_boolean 0 True), Some (V_bitString 0 3 [0xa0]), Some (V_visibleString MMS_VISIBLE_STRING 0 (Some [0x61, 0x62, 0]) 2)]"

definition other_value :: MmsValue where
  "other_value = V_structure MMS_STRUCTURE 0
     [Some (V_boolean 0 False), Some (V_bitString 0 3 [0x40]), Some (V_visibleString MMS_VISIBLE_STRING 0 (Some [0x63, 0]) 1)]"

lemma example_values_wf: "value_wf example_value" "value_wf other_value"
  by (simp_all add: example_value_def other_value_def bitStringByteSize_def)

section \<open>Properties\<close>

text \<open>
  C35: A copy of a value is well-formed and equal to the original, by the comparison of the library
  itself, down through all components.
\<close>

theorem clone_is_equal:
  assumes "hal_ok h" and "value_wf v"
  shows "\<exists>v'. MmsValue_clone h v = Some v' \<and> value_wf v' \<and> MmsValue_equals (Some v) (Some v') = Some True"
  using clone_equal_value [OF assms] by blast

theorem clone_is_equal_witness:
  "\<exists>v'. MmsValue_clone plain_hal example_value = Some v' \<and> value_wf v' \<and> MmsValue_equals (Some example_value) (Some v') = Some True"
  using clone_is_equal [OF plain_hal_ok example_values_wf(1)] .

text \<open>
  C36: Updating a well-formed value from another one always has a defined result and leaves a
  well-formed value of the same type. When it reports success, and the bit strings have the same
  sizes, the value is equal to the one it was updated from.
\<close>

theorem update_makes_equal:
  assumes "hal_ok h" and "value_wf self" and "value_wf upd"
  shows "\<exists>ok self'. MmsValue_update h (Some self) (Some upd) = Some (ok, Some self') \<and> value_wf self' \<and>
    MmsValue_getType self' = MmsValue_getType self \<and>
    (ok \<longrightarrow> same_bit_sizes (Some self) (Some upd) \<longrightarrow> MmsValue_equals (Some self') (Some upd) = Some True)"
  using update_ok_value [OF assms] unfolding value_updated_def by blast

theorem update_makes_equal_witness:
  "\<exists>v'. MmsValue_update plain_hal (Some example_value) (Some other_value) = Some (True, Some v') \<and>
    MmsValue_equals (Some v') (Some other_value) = Some True"
proof -
  have "\<exists>r. MmsValue_update plain_hal (Some example_value) (Some other_value) = Some (True, r)"
    by (simp add: example_value_def other_value_def update_leaf_def plain_hal_def MmsValue_setVisibleString_def c_string_def Let_def
        bitStringByteSize_def rd_def set_octets_def)
  moreover have "same_bit_sizes (Some example_value) (Some other_value)" by (simp add: example_value_def other_value_def)
  ultimately show ?thesis
    using update_makes_equal [OF plain_hal_ok example_values_wf] by fastforce
qed

text \<open>
  C37: A bit string of at most 31 bits gives back the integer stored in it, reduced to its number of
  bits, in both bit orders.
\<close>

theorem bit_string_integers:
  fixes x :: "32 word"
  assumes "leaf_wf (V_bitString d n buf)" and "n \<le> 31"
  shows "(\<exists>v. MmsValue_setBitStringFromInteger (V_bitString d n buf) x = Some v \<and> leaf_wf v \<and>
       MmsValue_getBitStringAsInteger v = Some (take_bit (nat n) x)) \<and>
     (\<exists>v. MmsValue_setBitStringFromIntegerBigEndian (V_bitString d n buf) x = Some v \<and> leaf_wf v \<and>
       MmsValue_getBitStringAsIntegerBigEndian v = Some (take_bit (nat n) x))"
  using bits_stored [OF assms] by blast

theorem bit_string_integers_witness:
  "(\<exists>v. MmsValue_setBitStringFromInteger (V_bitString 0 3 [0]) 13 = Some v \<and> MmsValue_getBitStringAsInteger v = Some 5) \<and>
   (\<exists>v. MmsValue_setBitStringFromIntegerBigEndian (V_bitString 0 3 [0]) 13 = Some v \<and> MmsValue_getBitStringAsIntegerBigEndian v = Some 5)"
proof -
  have "leaf_wf (V_bitString 0 3 [0])" by (simp add: bitStringByteSize_def)
  moreover have "take_bit (nat 3) (13 :: 32 word) = 5" by simp
  ultimately show ?thesis using bit_string_integers [of 0 3 "[0]" 13] by auto
qed

text \<open>
  C38: A UTC time stores a time in milliseconds exactly as long as its seconds fit in 32 bits:
  \<open>MmsValue_getUtcTimeInMs\<close> and the quality give back what was stored, and the reading in
  microseconds falls short by at most one microsecond. A binary time of six octets stores every
  millisecond of the 65536 days that follow 1 January 1984.
\<close>

theorem times_are_kept:
  assumes "hal_ok h" and "length buf = 8" and "uint t < 2 ^ 32 * 1000" and "length bbuf = 6"
    and "441763200000 \<le> uint t'" and "uint t' < 441763200000 + 65536 * 86400000"
  shows "(\<exists>v. setUtcTimeMs h (V_utcTime d buf) t q = Some v \<and> MmsValue_getUtcTimeInMs h v = Some t \<and> MmsValue_getUtcTimeQuality v = Some q \<and>
      (\<exists>ms us. MmsValue_getUtcTimeInMsWithUs h v = Some (ms, us) \<and> uint ms * 1000 + uint us \<in> {uint t * 1000 - 1, uint t * 1000})) \<and>
    (\<exists>v. MmsValue_setBinaryTime h (V_binaryTime d 6 bbuf) t' = Some v \<and> MmsValue_getBinaryTimeAsUtcMs v = Some t')"
proof (intro conjI)
  have t: "uint t < 4294967296000" using assms(3) by simp
  show "\<exists>v. setUtcTimeMs h (V_utcTime d buf) t q = Some v \<and> MmsValue_getUtcTimeInMs h v = Some t \<and> MmsValue_getUtcTimeQuality v = Some q \<and>
      (\<exists>ms us. MmsValue_getUtcTimeInMsWithUs h v = Some (ms, us) \<and> uint ms * 1000 + uint us \<in> {uint t * 1000 - 1, uint t * 1000})"
    using utc_ms [OF assms(1) t] setUtcTimeMs_eq [OF assms(1,2), of d t q] utc_read(3) [OF assms(1), of t q]
    by (intro exI [of _ "V_utcTime d (utc_octets t q)"]) (simp del: MmsValue_getUtcTimeInMs.simps MmsValue_getUtcTimeInMsWithUs.simps setUtcTimeMs.simps)
  show "\<exists>v. MmsValue_setBinaryTime h (V_binaryTime d 6 bbuf) t' = Some v \<and> MmsValue_getBinaryTimeAsUtcMs v = Some t'"
    using binary_time_value [OF assms(4-6)] .
qed

theorem times_are_kept_witness:
  "(\<exists>v. setUtcTimeMs plain_hal (V_utcTime 0 (replicate 8 0)) 1700000000123 10 = Some v \<and> MmsValue_getUtcTimeInMs plain_hal v = Some 1700000000123) \<and>
   (\<exists>v. MmsValue_setBinaryTime plain_hal (V_binaryTime 0 6 (replicate 6 0)) 1700000000123 = Some v \<and>
     MmsValue_getBinaryTimeAsUtcMs v = Some 1700000000123)"
proof -
  have "uint (1700000000123 :: 64 word) = 1700000000123" by simp
  then have "uint (1700000000123 :: 64 word) < 2 ^ 32 * 1000" "441763200000 \<le> uint (1700000000123 :: 64 word)"
    "uint (1700000000123 :: 64 word) < 441763200000 + 65536 * 86400000" by simp_all
  from times_are_kept [OF plain_hal_ok length_replicate this(1) length_replicate this(2,3), of 0 0 10 0] show ?thesis by blast
qed

text \<open>
  A binary time whose first octet is 128 or more, as a peer may send it, shifts an \<open>int\<close> out of
  its range when it is read.
\<close>

theorem binary_time_undefined:
  "128 \<le> uint x \<Longrightarrow> length xs = 5 \<Longrightarrow> MmsValue_getBinaryTimeAsUtcMs (V_binaryTime d n (x # xs)) = None"
proof -
  assume "128 \<le> uint x" "length xs = 5"
  then have "shl24 x = None" by (simp add: shl24_def i32_def)
  then show ?thesis by (simp add: rd_def split: Option.bind_split)
qed

text \<open>
  Comparing a floating point value of 32 bits with one of 64 bits looks at the width of the first
  one only: the comparison is not symmetric.
\<close>

theorem equals_ignores_width:
  "MmsValue_equals (Some (V_floatingPoint 0 8 32 [0, 0, 0, 0, 0, 0, 0, 0])) (Some (V_floatingPoint 0 11 64 [0, 0, 0, 0, 0, 0, 0xf0, 0x3f])) = Some True \<and>
   MmsValue_equals (Some (V_floatingPoint 0 11 64 [0, 0, 0, 0, 0, 0, 0xf0, 0x3f])) (Some (V_floatingPoint 0 8 32 [0, 0, 0, 0, 0, 0, 0, 0])) = Some False"
  by (simp add: equals_leaf_def same_bytes_take)

text \<open>Setting all bits of an empty bit string writes in front of its array.\<close>

theorem set_all_empty: "MmsValue_setAllBitStringBits (V_bitString d 0 []) = None"
  by (simp add: getBitStringByteSize_def fill_bytes_def padding_mask_of_def rd_def)

end
