(* ===== verification/Mms_Type_Spec.thy ===== *)
theory Mms_Type_Spec
  imports Mms_Value_Props
begin

text \<open>
  The types of MMS variables, \<^verbatim>\<open>src/sources/mms/iso_mms/common/mms_type_spec.c\<close> and
  \<^verbatim>\<open>inc/mms_types.h\<close>, with the functions of \<^verbatim>\<open>mms_value.c\<close> that build a value from a type. The
  constructor is the member of the union in use: \<open>T_simple\<close> carries the \<open>int\<close> that all members but
  three consist of (a number of bits, of octets, of characters, or a dummy). A name is a string or
  \<open>NULL\<close>; the names of the elements of a structure are never \<open>NULL\<close>.
\<close>

declare split_paired_All [simp del] split_paired_Ex [simp del]

datatype MmsVariableSpecification =
    T_array "string option" int MmsVariableSpecification
  | T_structure "string option" "MmsVariableSpecification list"
  | T_floatingpoint "string option" byte byte
  | T_simple MmsType "string option" int

fun MmsVariableSpecification_getType :: "MmsVariableSpecification \<Rightarrow> MmsType" where
  "MmsVariableSpecification_getType (T_array _ _ _) = MMS_ARRAY"
| "MmsVariableSpecification_getType (T_structure _ _) = MMS_STRUCTURE"
| "MmsVariableSpecification_getType (T_floatingpoint _ _ _) = MMS_FLOAT"
| "MmsVariableSpecification_getType (T_simple t _ _) = t"

fun MmsVariableSpecification_getName :: "MmsVariableSpecification \<Rightarrow> string option" where
  "MmsVariableSpecification_getName (T_array name _ _) = name"
| "MmsVariableSpecification_getName (T_structure name _) = name"
| "MmsVariableSpecification_getName (T_floatingpoint name _ _) = name"
| "MmsVariableSpecification_getName (T_simple _ name _) = name"

section \<open>Looking up components\<close>

definition directChildStrLen :: "string \<Rightarrow> nat" where
  "directChildStrLen childId = length (takeWhile (\<lambda>c. c \<noteq> CHR ''$'' \<and> c \<noteq> CHR ''.'') childId)"

text \<open>
  The result \<open>Some None\<close> is \<open>NULL\<close>. The loop compares the names with the first \<open>childLen\<close>
  characters of the path and descends at the first one that agrees.
\<close>

fun MmsVariableSpecification_getChildValue :: "MmsVariableSpecification \<Rightarrow> MmsValue option \<Rightarrow> string \<Rightarrow> MmsValue option option" and
  getChildValue_loop :: "MmsVariableSpecification list \<Rightarrow> MmsValue option list \<Rightarrow> string \<Rightarrow> MmsValue option option" where
  "MmsVariableSpecification_getChildValue typeSpec self childId = (case self of
     None \<Rightarrow> if MmsVariableSpecification_getType typeSpec = MMS_STRUCTURE then None else Some None
   | Some v \<Rightarrow> (case typeSpec of
       T_structure name elements \<Rightarrow> (case v of
         V_structure t d components \<Rightarrow>
           if t = MMS_STRUCTURE then
             if length elements \<noteq> length components then Some None
             else getChildValue_loop elements components childId
           else Some None
       | _ \<Rightarrow> Some None)
     | _ \<Rightarrow> Some None))"
| "getChildValue_loop (e # es) (c # cs) childId = do {
     name \<leftarrow> MmsVariableSpecification_getName e;
     let childLen = directChildStrLen childId;
     if length name = childLen \<and> name = take childLen childId then
       if childLen = length childId then Some c
       else MmsVariableSpecification_getChildValue e c (drop (childLen + 1) childId)
     else getChildValue_loop es cs childId }"
| "getChildValue_loop _ _ childId = Some None"

definition MmsValue_getSubElement :: "MmsValue option \<Rightarrow> MmsVariableSpecification \<Rightarrow> string \<Rightarrow> MmsValue option option" where
  "MmsValue_getSubElement self varSpec mmsPath = MmsVariableSpecification_getChildValue varSpec self mmsPath"

text \<open>The element of a list with a given name; reading a name that is \<open>NULL\<close> is undefined.\<close>

fun find_named :: "MmsVariableSpecification list \<Rightarrow> string \<Rightarrow> MmsVariableSpecification option option" where
  "find_named [] nameId = Some None"
| "find_named (e # es) nameId = do {
     name \<leftarrow> MmsVariableSpecification_getName e;
     if name = nameId then Some (Some e) else find_named es nameId }"

lemma find_named_mem: "find_named es n = Some (Some v) \<Longrightarrow> v \<in> set es \<and> MmsVariableSpecification_getName v = Some n"
  by (induction es) (auto split: Option.bind_split_asm if_split_asm)

lemma find_named_size: "find_named es n = Some (Some v) \<Longrightarrow> size v < Suc (size_list size es)"
  using find_named_mem [of es n v] size_list_estimation' [of v es "size v" size] by auto

text \<open>
  A path with a separator is looked up among the elements without a look at the type: the members
  of a union that is not a structure are undefined there.
\<close>

function MmsVariableSpecification_getNamedVariableRecursive ::
  "MmsVariableSpecification \<Rightarrow> string \<Rightarrow> MmsVariableSpecification option option" where
  "MmsVariableSpecification_getNamedVariableRecursive variable nameId = (case variable of
     T_array _ _ e \<Rightarrow> MmsVariableSpecification_getNamedVariableRecursive e nameId
   | _ \<Rightarrow> (case strchr nameId (CHR ''$'') of
       None \<Rightarrow> (case variable of T_structure _ elements \<Rightarrow> find_named elements nameId | _ \<Rightarrow> Some None)
     | Some separator \<Rightarrow> (case variable of
         T_structure _ elements \<Rightarrow> do {
           namedVariable \<leftarrow> find_named elements (take (length nameId - length separator) nameId);
           (case namedVariable of
             None \<Rightarrow> Some None
           | Some v \<Rightarrow> (case v of
               T_structure _ _ \<Rightarrow> MmsVariableSpecification_getNamedVariableRecursive v (tl separator)
             | T_array _ _ e \<Rightarrow> MmsVariableSpecification_getNamedVariableRecursive e (tl separator)
             | _ \<Rightarrow> Some None)) }
       | _ \<Rightarrow> None)))"
  by pat_completeness auto
termination
  by (relation "measure (\<lambda>(v, _). size v)") (auto dest!: find_named_size)

declare MmsVariableSpecification_getNamedVariableRecursive.simps [simp del]

text \<open>The variables of a domain (\<^verbatim>\<open>server/mms_domain.c\<close>) and of the device (\<^verbatim>\<open>server/mms_device.c\<close>); \<open>None\<close> is \<open>NULL\<close>.\<close>

definition MmsDomain_getNamedVariable :: "MmsVariableSpecification list option \<Rightarrow> string \<Rightarrow> MmsVariableSpecification option option" where
  "MmsDomain_getNamedVariable namedVariables nameId = (case namedVariables of
     None \<Rightarrow> Some None
   | Some vs \<Rightarrow> (case strchr nameId (CHR ''$'') of
       None \<Rightarrow> find_named vs nameId
     | Some separator \<Rightarrow> do {
         namedVariable \<leftarrow> find_named vs (take (length nameId - length separator) nameId);
         (case namedVariable of
           None \<Rightarrow> Some None
         | Some v \<Rightarrow> MmsVariableSpecification_getNamedVariableRecursive v (tl separator)) }))"

definition MmsDevice_getNamedVariable :: "MmsVariableSpecification list option \<Rightarrow> string \<Rightarrow> MmsVariableSpecification option option" where
  "MmsDevice_getNamedVariable namedVariables variableName = (case namedVariables of
     None \<Rightarrow> Some None
   | Some vs \<Rightarrow> (case strchr variableName (CHR ''$'') of
       None \<Rightarrow> find_named vs variableName
     | Some separator \<Rightarrow> do {
         namedVariable \<leftarrow> find_named vs (take (length variableName - length separator) variableName);
         (case namedVariable of
           None \<Rightarrow> Some None
         | Some v \<Rightarrow> MmsVariableSpecification_getNamedVariableRecursive v (tl separator)) }))"

section \<open>Attributes of a type\<close>

fun MmsVariableSpecification_getStructureElements :: "MmsVariableSpecification \<Rightarrow> string option list option" where
  "MmsVariableSpecification_getStructureElements (T_structure _ elements) = Some (map MmsVariableSpecification_getName elements)"
| "MmsVariableSpecification_getStructureElements _ = None"

fun MmsVariableSpecification_getSize :: "MmsVariableSpecification \<Rightarrow> int" where
  "MmsVariableSpecification_getSize (T_structure _ elements) = int (length elements)"
| "MmsVariableSpecification_getSize (T_array _ elementCount _) = elementCount"
| "MmsVariableSpecification_getSize (T_floatingpoint _ _ formatWidth) = uint formatWidth"
| "MmsVariableSpecification_getSize (T_simple t _ n) =
     (if t \<in> {MMS_INTEGER, MMS_UNSIGNED, MMS_BIT_STRING, MMS_BINARY_TIME, MMS_OCTET_STRING, MMS_VISIBLE_STRING, MMS_STRING} then n else - 1)"

fun MmsVariableSpecification_getChildSpecificationByIndex :: "MmsVariableSpecification \<Rightarrow> int \<Rightarrow> MmsVariableSpecification option" where
  "MmsVariableSpecification_getChildSpecificationByIndex (T_structure _ elements) index =
     (if index \<ge> int (length elements) then None else if index < 0 then None else Some (elements ! nat index))"
| "MmsVariableSpecification_getChildSpecificationByIndex _ _ = None"

text \<open>The result with \<open>*index\<close>; the loop starts at the element number \<open>i\<close>.\<close>

fun find_index :: "MmsVariableSpecification list \<Rightarrow> string \<Rightarrow> int \<Rightarrow> (MmsVariableSpecification \<times> int) option option" where
  "find_index [] name i = Some None"
| "find_index (e # es) name i = do {
     n \<leftarrow> MmsVariableSpecification_getName e;
     if n = name then Some (Some (e, i)) else find_index es name (i + 1) }"

fun MmsVariableSpecification_getChildSpecificationByName ::
  "MmsVariableSpecification \<Rightarrow> string \<Rightarrow> (MmsVariableSpecification \<times> int) option option" where
  "MmsVariableSpecification_getChildSpecificationByName (T_structure _ elements) name = find_index elements name 0"
| "MmsVariableSpecification_getChildSpecificationByName _ _ = Some None"

fun MmsVariableSpecification_getArrayElementSpecification :: "MmsVariableSpecification \<Rightarrow> MmsVariableSpecification option" where
  "MmsVariableSpecification_getArrayElementSpecification (T_array _ _ e) = Some e"
| "MmsVariableSpecification_getArrayElementSpecification _ = None"

fun MmsVariableSpecification_getExponentWidth :: "MmsVariableSpecification \<Rightarrow> int" where
  "MmsVariableSpecification_getExponentWidth (T_floatingpoint _ exponentWidth _) = uint exponentWidth"
| "MmsVariableSpecification_getExponentWidth _ = - 1"

section \<open>Values of a type\<close>

text \<open>The two loops over the components; a component that is \<open>NULL\<close> is dereferenced.\<close>

fun MmsVariableSpecification_isValueOfType :: "MmsVariableSpecification \<Rightarrow> MmsValue option \<Rightarrow> bool option" and
  structure_ofType :: "MmsVariableSpecification list \<Rightarrow> MmsValue option list \<Rightarrow> bool option" and
  array_ofType :: "MmsVariableSpecification \<Rightarrow> MmsValue option list \<Rightarrow> bool option" where
  "MmsVariableSpecification_isValueOfType self None = None"
| "MmsVariableSpecification_isValueOfType self (Some v) =
     (if MmsVariableSpecification_getType self = MmsValue_getType v then (case self of
        T_structure _ elements \<Rightarrow> (case v of
          V_structure t d xs \<Rightarrow> if length elements \<noteq> length xs then Some False else structure_ofType elements xs
        | _ \<Rightarrow> None)
      | T_array _ elementCount e \<Rightarrow> (case v of
          V_structure t d xs \<Rightarrow> if elementCount \<noteq> int (length xs) then Some False else array_ofType e xs
        | _ \<Rightarrow> None)
      | T_floatingpoint _ exponentWidth formatWidth \<Rightarrow> (case v of
          V_floatingPoint d ew fw buf \<Rightarrow> Some (exponentWidth = ew \<and> formatWidth = fw)
        | _ \<Rightarrow> None)
      | T_simple t _ n \<Rightarrow> (case v of
          V_bitString d bits buf \<Rightarrow> Some (n = bits \<or> n < 0)
        | V_binaryTime d m buf \<Rightarrow> Some (n = uint m)
        | _ \<Rightarrow> Some True))
      else Some False)"
| "structure_ofType (e # es) (x # xs) = do {
     ok \<leftarrow> MmsVariableSpecification_isValueOfType e x;
     if \<not> ok then Some False else structure_ofType es xs }"
| "structure_ofType _ _ = Some True"
| "array_ofType e (x # xs) = do {
     ok \<leftarrow> MmsVariableSpecification_isValueOfType e x;
     if \<not> ok then Some False else array_ofType e xs }"
| "array_ofType e [] = Some True"

text \<open>
  \<open>MmsValue_newStructure\<close> and \<open>MmsValue_createArray\<close> build one default value for each component;
  the rounds of the second one all build the same. The result \<open>Some None\<close> is \<open>NULL\<close>: the type has
  no values.
\<close>

fun MmsValue_newDefaultValue :: "HalApi \<Rightarrow> MmsVariableSpecification \<Rightarrow> MmsValue option option" and
  MmsValue_newStructure :: "HalApi \<Rightarrow> MmsVariableSpecification list \<Rightarrow> MmsValue option list option option" where
  "MmsValue_newDefaultValue h (T_structure _ elements) = do {
     r \<leftarrow> MmsValue_newStructure h elements;
     Some (map_option (V_structure MMS_STRUCTURE 0) r) }"
| "MmsValue_newDefaultValue h (T_array _ n e) =
     (if n \<le> 0 then Some (Some (V_structure MMS_ARRAY 0 []))
      else do {
        r \<leftarrow> MmsValue_newDefaultValue h e;
        Some (map_option (\<lambda>v. V_structure MMS_ARRAY 0 (replicate (nat n) (Some v))) r) })"
| "MmsValue_newDefaultValue h (T_floatingpoint _ ew fw) = Some (Some (V_floatingPoint 0 ew fw (replicate 8 0)))"
| "MmsValue_newDefaultValue h (T_simple t _ n) = (case t of
     MMS_INTEGER \<Rightarrow> map_option Some (MmsValue_newInteger n)
   | MMS_UNSIGNED \<Rightarrow> map_option Some (MmsValue_newUnsigned n)
   | MMS_BIT_STRING \<Rightarrow> (let bitSize = \<bar>n\<bar> in
       Some (Some (V_bitString 0 bitSize (replicate (nat (bitSize sdiv 8 + (if bitSize smod 8 > 0 then 1 else 0))) 0))))
   | MMS_OCTET_STRING \<Rightarrow> Some (Some (V_octetString 0 (if n < 0 then 0 else word_of_int n) \<bar>n\<bar> (replicate (nat \<bar>n\<bar>) 0)))
   | MMS_VISIBLE_STRING \<Rightarrow> map_option Some (MmsValue_newVisibleStringWithSize h \<bar>n\<bar>)
   | MMS_BOOLEAN \<Rightarrow> Some (Some (MmsValue_newBoolean False))
   | MMS_UTC_TIME \<Rightarrow> Some (Some (V_utcTime 0 (replicate 8 0)))
   | MMS_STRING \<Rightarrow> map_option Some (MmsValue_newMmsStringWithSize h \<bar>n\<bar>)
   | MMS_BINARY_TIME \<Rightarrow> Some (Some (MmsValue_newBinaryTime (n = 4)))
   | _ \<Rightarrow> Some None)"
| "MmsValue_newStructure h [] = Some (Some [])"
| "MmsValue_newStructure h (e # es) = do {
     v \<leftarrow> MmsValue_newDefaultValue h e;
     (case v of
       None \<Rightarrow> Some None
     | Some v \<Rightarrow> do {
         vs \<leftarrow> MmsValue_newStructure h es;
         Some (map_option ((#) (Some v)) vs) }) }"

definition MmsValue_createArray :: "HalApi \<Rightarrow> MmsVariableSpecification \<Rightarrow> int \<Rightarrow> MmsValue option option" where
  "MmsValue_createArray h elementType n = MmsValue_newDefaultValue h (T_array None n elementType)"

section \<open>Default values\<close>

text \<open>A type whose sizes fit the fields of a value.\<close>

fun spec_ok :: "MmsVariableSpecification \<Rightarrow> bool" and specs_ok :: "MmsVariableSpecification list \<Rightarrow> bool" where
  "spec_ok (T_structure _ elements) \<longleftrightarrow> specs_ok elements"
| "spec_ok (T_array _ n e) \<longleftrightarrow> 0 \<le> n \<and> spec_ok e"
| "spec_ok (T_floatingpoint _ ew fw) \<longleftrightarrow> fw = 32 \<or> fw = 64"
| "spec_ok (T_simple t _ n) \<longleftrightarrow> (case t of
     MMS_INTEGER \<Rightarrow> True | MMS_UNSIGNED \<Rightarrow> True | MMS_BOOLEAN \<Rightarrow> True | MMS_UTC_TIME \<Rightarrow> True
   | MMS_BIT_STRING \<Rightarrow> \<bar>n\<bar> < 2 ^ 31 - 8
   | MMS_OCTET_STRING \<Rightarrow> \<bar>n\<bar> < 2 ^ 16
   | MMS_VISIBLE_STRING \<Rightarrow> \<bar>n\<bar> < 2 ^ 15
   | MMS_STRING \<Rightarrow> \<bar>n\<bar> < 2 ^ 15
   | MMS_BINARY_TIME \<Rightarrow> n = 4 \<or> n = 6
   | _ \<Rightarrow> False)"
| "specs_ok [] \<longleftrightarrow> True"
| "specs_ok (e # es) \<longleftrightarrow> spec_ok e \<and> specs_ok es"

definition default_of_type :: "HalApi \<Rightarrow> MmsVariableSpecification \<Rightarrow> bool" where
  "default_of_type h s \<longleftrightarrow> (\<exists>v. MmsValue_newDefaultValue h s = Some (Some v) \<and> value_wf v \<and> MmsVariableSpecification_isValueOfType s (Some v) = Some True)"

lemma new_string_wf:
  assumes "hal_ok h" and "0 \<le> n" and "n < 2 ^ 15" and "t \<in> {MMS_VISIBLE_STRING, MMS_STRING}"
  shows "\<exists>b. MmsValue_newStringWithSize h n t = Some (V_visibleString t 0 (Some b) (word_of_int n)) \<and> leaf_wf (V_visibleString t 0 (Some b) (word_of_int n))"
proof -
  have l: "length (hal_malloc h (n + 1)) = nat (n + 1)" using assms by (simp add: malloc_length)
  then obtain x xs where x: "hal_malloc h (n + 1) = x # xs" using assms(2) by (cases "hal_malloc h (n + 1)") auto
  with l have "wr (hal_malloc h (n + 1), 0) 0 0 = Some (0 # xs, 0)" "int (length (0 # xs)) = n + 1" using assms(2) by (auto simp: wr_def)
  with assms show ?thesis by (simp add: MmsValue_newStringWithSize_def sint16 del: of_nat_Suc)
qed

lemma default_of_simple:
  assumes "hal_ok h" and "spec_ok (T_simple t name n)"
  shows "default_of_type h (T_simple t name n)"
proof (cases t)
  case MMS_INTEGER
  then show ?thesis by (simp add: default_of_type_def MmsValue_newInteger_def BerInteger_createInt32_def BerInteger_createInt64_def Asn1PrimitiveValue_create_def pv_wf_def)
next
  case MMS_UNSIGNED
  then show ?thesis by (simp add: default_of_type_def MmsValue_newUnsigned_def BerInteger_createInt32_def BerInteger_createInt64_def Asn1PrimitiveValue_create_def pv_wf_def)
next
  case MMS_VISIBLE_STRING
  then show ?thesis using new_string_wf [OF assms(1), of "\<bar>n\<bar>" t] assms(2)
    by (auto simp: default_of_type_def MmsValue_newVisibleStringWithSize_def)
next
  case MMS_STRING
  then show ?thesis using new_string_wf [OF assms(1), of "\<bar>n\<bar>" t] assms(2)
    by (auto simp: default_of_type_def MmsValue_newMmsStringWithSize_def)
next
  case MMS_BIT_STRING
  have "bitStringByteSize \<bar>n\<bar> = \<bar>n\<bar> sdiv 8 + (if \<bar>n\<bar> smod 8 > 0 then 1 else 0)" "0 \<le> bitStringByteSize \<bar>n\<bar>"
    using bitStringByteSize_nonneg(1) [of "\<bar>n\<bar>"] by (simp_all add: bitStringByteSize_def)
  with MMS_BIT_STRING assms(2) show ?thesis by (auto simp: default_of_type_def Let_def simp del: sdiv_nonneg smod_nonneg)
next
  case MMS_OCTET_STRING
  with assms(2) show ?thesis by (auto simp: default_of_type_def uint_word_of_int)
qed (use assms(2) in \<open>auto simp: default_of_type_def MmsValue_newBoolean_def MmsValue_newBinaryTime_def\<close>)

lemma array_ofType_replicate:
  "MmsVariableSpecification_isValueOfType e (Some v) = Some True \<Longrightarrow> array_ofType e (replicate k (Some v)) = Some True"
  by (induction k) (simp_all del: MmsVariableSpecification_isValueOfType.simps)

lemma components_wf_replicate: "value_wf v \<Longrightarrow> components_wf (replicate k (Some v))"
  by (induction k) simp_all

lemma default_of_spec: "hal_ok h \<Longrightarrow> spec_ok s \<Longrightarrow> default_of_type h s"
  and default_of_specs: "hal_ok h \<Longrightarrow> specs_ok ss \<Longrightarrow>
    \<exists>vs. MmsValue_newStructure h ss = Some (Some vs) \<and> length vs = length ss \<and> components_wf vs \<and> structure_ofType ss vs = Some True"
proof (induction s and ss rule: spec_ok_specs_ok.induct)
  case (1 name elements)
  then obtain vs where "MmsValue_newStructure h elements = Some (Some vs)" "length vs = length elements" "components_wf vs"
      "structure_ofType elements vs = Some True" by auto
  then show ?case by (simp add: default_of_type_def)
next
  case (2 name n e)
  then obtain v where v: "MmsValue_newDefaultValue h e = Some (Some v)" "value_wf v" "MmsVariableSpecification_isValueOfType e (Some v) = Some True"
    by (auto simp: default_of_type_def)
  with 2 array_ofType_replicate [OF v(3), of "nat n"] components_wf_replicate [OF v(2), of "nat n"] show ?case
    by (cases "n \<le> 0") (simp_all add: default_of_type_def)
next
  case (4 t name n)
  then show ?case by (simp only: default_of_simple)
next
  case (6 e es)
  then show ?case by (auto simp: default_of_type_def simp del: MmsVariableSpecification_isValueOfType.simps)
qed (auto simp: default_of_type_def)

text \<open>
  C39: The default value of a type exists, is well-formed, and is a value of that type by the check
  of the library, for every type that nests structures and arrays over the basic types.
\<close>

theorem default_value_has_type:
  assumes "hal_ok h" and "spec_ok s"
  shows "\<exists>v. MmsValue_newDefaultValue h s = Some (Some v) \<and> value_wf v \<and> MmsVariableSpecification_isValueOfType s (Some v) = Some True"
  using default_of_spec [OF assms] by (simp only: default_of_type_def)

definition example_type :: MmsVariableSpecification where
  "example_type = T_structure (Some ''st'') [T_simple MMS_BOOLEAN (Some ''a'') 0,
     T_array (Some ''b'') 2 (T_simple MMS_BIT_STRING None (- 13)), T_simple MMS_VISIBLE_STRING (Some ''c'') (- 129)]"

theorem default_value_has_type_witness:
  "\<exists>v. MmsValue_newDefaultValue plain_hal example_type = Some (Some v) \<and> value_wf v \<and>
     MmsVariableSpecification_isValueOfType example_type (Some v) = Some True"
  using default_value_has_type [OF plain_hal_ok, of example_type] by (simp add: example_type_def)

section \<open>The two lookups agree\<close>

definition path_head :: "string \<Rightarrow> string" where
  "path_head path = takeWhile (\<lambda>c. c \<noteq> CHR ''$'') path"

lemma path_facts:
  assumes "CHR ''.'' \<notin> set path"
  shows "take (directChildStrLen path) path = path_head path" "directChildStrLen path = length (path_head path)"
    "strchr path (CHR ''$'') = None \<longleftrightarrow> directChildStrLen path = length path"
    "strchr path (CHR ''$'') = Some sep \<Longrightarrow> take (length path - length sep) path = path_head path \<and> tl sep = drop (directChildStrLen path + 1) path"
proof -
  let ?P = "\<lambda>c. c \<noteq> CHR ''$''"
  have "takeWhile (\<lambda>c. c \<noteq> CHR ''$'' \<and> c \<noteq> CHR ''.'') path = path_head path"
    unfolding path_head_def using assms by (intro takeWhile_cong) auto
  then show l: "directChildStrLen path = length (path_head path)" by (simp add: directChildStrLen_def)
  have p: "path_head path @ dropWhile ?P path = path" by (simp add: path_head_def)
  then have t: "take (length (path_head path)) path = path_head path" "drop (length (path_head path)) path = dropWhile ?P path"
    by (metis append_eq_conv_conj)+
  then show "take (directChildStrLen path) path = path_head path" by (simp add: l)
  have len: "length (path_head path) + length (dropWhile ?P path) = length path" using arg_cong [OF p, of length] by simp
  have c: "strchr path (CHR ''$'') = (if dropWhile ?P path = [] then None else Some (dropWhile ?P path))"
    unfolding strchr_def by (cases "dropWhile ?P path") (simp_all only: list.case if_True if_False list.distinct refl)
  show "strchr path (CHR ''$'') = None \<longleftrightarrow> directChildStrLen path = length path"
    unfolding c l using len by (cases "dropWhile ?P path = []") auto
  show "take (length path - length sep) path = path_head path \<and> tl sep = drop (directChildStrLen path + 1) path"
    if "strchr path (CHR ''$'') = Some sep"
  proof -
    have sep: "sep = dropWhile ?P path" using that unfolding c by (auto split: if_split_asm)
    then have "length path - length sep = length (path_head path)" using len by simp
    moreover have "tl sep = drop (length (path_head path) + 1) path" unfolding sep t(2) [symmetric] by (simp add: drop_Suc tl_drop)
    ultimately show ?thesis using t(1) l by simp
  qed
qed

text \<open>What the lookup of a type finds for a path, starting among the elements of a structure.\<close>

definition named :: "MmsVariableSpecification list \<Rightarrow> string \<Rightarrow> MmsVariableSpecification \<Rightarrow> bool" where
  "named es path s \<longleftrightarrow> (case strchr path (CHR ''$'') of
     None \<Rightarrow> find_named es path = Some (Some s)
   | Some sep \<Rightarrow> \<exists>name elements. find_named es (path_head path) = Some (Some (T_structure name elements)) \<and>
       MmsVariableSpecification_getNamedVariableRecursive (T_structure name elements) (tl sep) = Some (Some s))"

lemma named_structure:
  assumes "CHR ''.'' \<notin> set path" and "named es path s"
  shows "MmsVariableSpecification_getNamedVariableRecursive (T_structure name es) path = Some (Some s)"
  using assms(2) path_facts(4) [OF assms(1)]
  by (subst MmsVariableSpecification_getNamedVariableRecursive.simps) (auto simp: named_def split: option.splits)

lemma child_of_type:
  "MmsVariableSpecification_getChildValue e v path = Some (Some c) \<Longrightarrow> MmsVariableSpecification_isValueOfType e v = Some True \<Longrightarrow>
     CHR ''.'' \<notin> set path \<Longrightarrow> \<exists>s name es. e = T_structure name es \<and> named es path s \<and> MmsVariableSpecification_isValueOfType s (Some c) = Some True"
  and child_of_types:
  "getChildValue_loop es cs path = Some (Some c) \<Longrightarrow> structure_ofType es cs = Some True \<Longrightarrow> CHR ''.'' \<notin> set path \<Longrightarrow>
     \<exists>s. named es path s \<and> MmsVariableSpecification_isValueOfType s (Some c) = Some True"
proof (induction e v path and es cs path rule: MmsVariableSpecification_getChildValue_getChildValue_loop.induct)
  case (1 e v path)
  from "1.prems"(1) obtain name es d cs where e: "v = Some (V_structure MMS_STRUCTURE d cs)" "e = T_structure name es" "length es = length cs"
      "getChildValue_loop es cs path = Some (Some c)"
    by (auto split: option.splits MmsVariableSpecification.splits MmsValue.splits if_splits)
  moreover have "structure_ofType es cs = Some True" using "1.prems"(2) e by simp
  ultimately show ?case using "1.IH" "1.prems"(3) by auto
next
  case (2 e es c' cs path)
  note pf = path_facts [OF "2.prems"(3)]
  obtain name where name: "MmsVariableSpecification_getName e = Some name" using "2.prems"(1) by (auto split: Option.bind_splits)
  have ty: "MmsVariableSpecification_isValueOfType e c' = Some True" "structure_ofType es cs = Some True"
    using "2.prems"(2) by (auto split: Option.bind_split_asm if_split_asm)
  have loop: "getChildValue_loop (e # es) (c' # cs) path = (if name = path_head path
      then if directChildStrLen path = length path then Some c'
        else MmsVariableSpecification_getChildValue e c' (drop (directChildStrLen path + 1) path)
      else getChildValue_loop es cs path)"
    using name pf(1,2) by (auto simp: Let_def)
  show ?case
  proof (cases "name = path_head path")
    case False
    then have "\<exists>s. named es path s \<and> MmsVariableSpecification_isValueOfType s (Some c) = Some True"
      using "2.prems" loop ty name pf(1,2) by (intro "2.IH"(2) [OF name refl]) auto
    moreover have "named (e # es) path s" if "named es path s" for s
      using that False name pf(3) pf(1) by (auto simp: named_def split: option.splits)
    ultimately show ?thesis by blast
  next
    case True
    show ?thesis
    proof (cases "directChildStrLen path = length path")
      case len: True
      then have "c' = Some c" using loop True "2.prems"(1) by simp
      moreover have "named (e # es) path e" using True name len pf(1,3) by (simp add: named_def)
      ultimately show ?thesis using ty(1) by blast
    next
      case len: False
      then obtain sep where sep: "strchr path (CHR ''$'') = Some sep" using pf(3) by auto
      have "CHR ''.'' \<notin> set (drop (directChildStrLen path + 1) path)" using "2.prems"(3) set_drop_subset by fast
      then obtain s n es' where s: "e = T_structure n es'" "named es' (tl sep) s" "MmsVariableSpecification_isValueOfType s (Some c) = Some True"
          "CHR ''.'' \<notin> set (tl sep)"
        using "2.IH"(1) [OF name refl] "2.prems"(1) loop True len ty(1) pf(1,2) pf(4) [OF sep] by auto
      then have "named (e # es) path s"
        using named_structure [OF s(4,2), of n] name True by (simp add: named_def sep)
      with s(3) show ?thesis by blast
    qed
  qed
qed auto

text \<open>
  C40: The lookup of a component in a value and the lookup of a variable in a type follow a path to
  the same place: in a value of the type, a component found under a path that uses the separator
  \<open>$\<close> has the type that is found under this path.
\<close>

theorem child_value_has_type:
  assumes "MmsVariableSpecification_isValueOfType s (Some v) = Some True" and "CHR ''.'' \<notin> set path"
    and "MmsVariableSpecification_getChildValue s (Some v) path = Some (Some c)"
  shows "\<exists>t. MmsVariableSpecification_getNamedVariableRecursive s path = Some (Some t) \<and> MmsVariableSpecification_isValueOfType t (Some c) = Some True"
  using child_of_type [OF assms(3,1,2)] named_structure [OF assms(2)] by blast

theorem child_value_has_type_witness:
  "\<exists>t. MmsVariableSpecification_getNamedVariableRecursive (T_structure None [T_structure (Some ''x'') [T_simple MMS_BOOLEAN (Some ''y'') 0]]) ''x$y'' = Some (Some t) \<and>
     MmsVariableSpecification_isValueOfType t (Some (V_boolean 0 True)) = Some True"
  by (rule child_value_has_type [of _ "V_structure MMS_STRUCTURE 0 [Some (V_structure MMS_STRUCTURE 0 [Some (V_boolean 0 True)])]"])
    (simp_all add: directChildStrLen_def)

text \<open>
  Asking a domain for a component of a variable that has none is undefined when the rest of the path
  has a separator: the union of a simple type is read as a structure.
\<close>

theorem named_variable_of_simple_type:
  "MmsDomain_getNamedVariable (Some [T_simple t (Some ''x'') n]) ''x$a$b'' = None"
  unfolding MmsDomain_getNamedVariable_def
  by (simp add: strchr_def MmsVariableSpecification_getNamedVariableRecursive.simps [of "T_simple t (Some ''x'') n"])

end
