(* ===== verification/Mms_Data.thy ===== *)
theory Mms_Data
  imports Ber_Parser Mms_Type_Spec
begin

text \<open>
  The encoding of MMS values as ASN.1 \<open>Data\<close>, \<^verbatim>\<open>src/sources/mms/iso_mms/server/mms_access_result.c\<close>:
  the size of an encoding, the encoder, the decoder and the bounds on sizes. The C encoder runs in
  two modes; \<open>encodedSize\<close> is \<open>MmsValue_encodeMmsData(self, NULL, 0, false)\<close> and
  \<open>MmsValue_encodeMmsData\<close> the mode that writes. A component that is \<open>NULL\<close> is dereferenced.
\<close>

declare split_paired_All [simp del] split_paired_Ex [simp del]

section \<open>Encoding\<close>

text \<open>The string a value points to, or \<open>NULL\<close>.\<close>

definition string_of :: "byte list option \<Rightarrow> byte list option option" where
  "string_of buf = (case buf of None \<Rightarrow> Some None | Some b \<Rightarrow> map_option Some (c_string b))"

fun encodedSize :: "bool \<Rightarrow> MmsValue \<Rightarrow> int option" and
  encodedSize_components :: "bool \<Rightarrow> MmsValue option list \<Rightarrow> int option" where
  "encodedSize le (V_boolean d b) = Some 3"
| "encodedSize le (V_structure t d xs) = do {
     componentsSize \<leftarrow> encodedSize_components le xs;
     i32 (1 + componentsSize + BerEncoder_determineLengthSize (word_of_int componentsSize)) }"
| "encodedSize le (V_dataAccessError d e) = do {
     n \<leftarrow> BerEncoder_UInt32determineEncodedSize le e;
     Some (2 + n) }"
| "encodedSize le (V_visibleString t d buf n) = do {
     s \<leftarrow> string_of buf;
     Some (BerEncoder_determineEncodedStringSize s) }"
| "encodedSize le (V_integer t d i) = Some (2 + uint (pv_size i))"
| "encodedSize le (V_utcTime d buf) = Some 10"
| "encodedSize le (V_bitString d n buf) = Some (BerEncoder_determineEncodedBitStringSize n)"
| "encodedSize le (V_binaryTime d n buf) = Some (2 + uint n)"
| "encodedSize le (V_octetString d n maxSize buf) = Some (1 + BerEncoder_determineLengthSize (ucast n) + uint n)"
| "encodedSize le (V_floatingPoint d ew fw buf) = Some (uint fw div 8 + 1 + 2)"
| "encodedSize_components le [] = Some 0"
| "encodedSize_components le (x # xs) = do {
     v \<leftarrow> x;
     n \<leftarrow> encodedSize le v;
     m \<leftarrow> encodedSize_components le xs;
     i32 (n + m) }"

text \<open>\<open>encodeArrayAccessResult\<close> and \<open>encodeStructuredAccessResult\<close> differ in the tag.\<close>

fun MmsValue_encodeMmsData :: "bool \<Rightarrow> MmsValue \<Rightarrow> cursor \<Rightarrow> cursor option" and
  encode_components :: "bool \<Rightarrow> MmsValue option list \<Rightarrow> cursor \<Rightarrow> cursor option" where
  "MmsValue_encodeMmsData le (V_boolean d b) s = BerEncoder_encodeBoolean 0x83 b s"
| "MmsValue_encodeMmsData le (V_structure t d xs) s = do {
     componentsSize \<leftarrow> encodedSize_components le xs;
     s \<leftarrow> put (if t = MMS_ARRAY then 0xa1 else 0xa2) s;
     s \<leftarrow> BerEncoder_encodeLength (word_of_int componentsSize) s;
     encode_components le xs s }"
| "MmsValue_encodeMmsData le (V_dataAccessError d e) s = do {
     n \<leftarrow> BerEncoder_UInt32determineEncodedSize le e;
     s \<leftarrow> BerEncoder_encodeTL 0x80 (word_of_int n) s;
     BerEncoder_encodeUInt32 le e s }"
| "MmsValue_encodeMmsData le (V_visibleString t d buf n) s = do {
     str \<leftarrow> string_of buf;
     BerEncoder_encodeStringWithTag (if t = MMS_VISIBLE_STRING then 0x8a else 0x90) str s }"
| "MmsValue_encodeMmsData le (V_integer t d i) s =
     BerEncoder_encodeAsn1PrimitiveValue (if t = MMS_UNSIGNED then 0x86 else 0x85) i s"
| "MmsValue_encodeMmsData le (V_utcTime d buf) s = BerEncoder_encodeOctetString 0x91 (buf, 0) 8 s"
| "MmsValue_encodeMmsData le (V_bitString d n buf) s = BerEncoder_encodeBitString 0x84 n (buf, 0) s"
| "MmsValue_encodeMmsData le (V_binaryTime d n buf) s = BerEncoder_encodeOctetString 0x8c (buf, 0) (ucast n) s"
| "MmsValue_encodeMmsData le (V_octetString d n maxSize buf) s = BerEncoder_encodeOctetString 0x89 (buf, 0) (ucast n) s"
| "MmsValue_encodeMmsData le (V_floatingPoint d ew fw buf) s = do {
     s \<leftarrow> BerEncoder_encodeTL 0x87 (word_of_int (uint fw div 8 + 1)) s;
     BerEncoder_encodeFloat le (buf, 0) fw ew s }"
| "encode_components le [] s = Some s"
| "encode_components le (x # xs) s = do {
     v \<leftarrow> x;
     s \<leftarrow> MmsValue_encodeMmsData le v s;
     encode_components le xs s }"

section \<open>Bounds on the size\<close>

fun MmsValue_getMaxEncodedSize :: "MmsValue \<Rightarrow> int option" and
  MmsValue_getMaxStructSize :: "MmsValue option list \<Rightarrow> int option" where
  "MmsValue_getMaxEncodedSize (V_structure t d xs) = do {
     componentsSize \<leftarrow> MmsValue_getMaxStructSize xs;
     i32 (1 + componentsSize + BerEncoder_determineLengthSize (word_of_int componentsSize)) }"
| "MmsValue_getMaxEncodedSize (V_boolean d b) = Some 3"
| "MmsValue_getMaxEncodedSize (V_dataAccessError d e) = Some 7"
| "MmsValue_getMaxEncodedSize (V_visibleString t d buf n) = (let elementSize = \<bar>sint n\<bar> in
     Some (1 + elementSize + BerEncoder_determineLengthSize (word_of_int elementSize)))"
| "MmsValue_getMaxEncodedSize (V_integer t d i) = Some (2 + uint (pv_maxSize i))"
| "MmsValue_getMaxEncodedSize (V_utcTime d buf) = Some 10"
| "MmsValue_getMaxEncodedSize (V_bitString d n buf) = Some (BerEncoder_determineEncodedBitStringSize \<bar>n\<bar>)"
| "MmsValue_getMaxEncodedSize (V_binaryTime d n buf) = Some (2 + uint n)"
| "MmsValue_getMaxEncodedSize (V_octetString d n maxSize buf) = (let elementSize = \<bar>maxSize\<bar> in
     Some (1 + BerEncoder_determineLengthSize (word_of_int elementSize) + elementSize))"
| "MmsValue_getMaxEncodedSize (V_floatingPoint d ew fw buf) = Some (uint fw div 8 + 1 + 2)"
| "MmsValue_getMaxStructSize [] = Some 0"
| "MmsValue_getMaxStructSize (x # xs) = do {
     v \<leftarrow> x;
     n \<leftarrow> MmsValue_getMaxEncodedSize v;
     m \<leftarrow> MmsValue_getMaxStructSize xs;
     i32 (n + m) }"

fun MmsVariableSpecification_getMaxEncodedSize :: "MmsVariableSpecification \<Rightarrow> int option" and
  getMaxStructSize :: "MmsVariableSpecification list \<Rightarrow> int option" where
  "MmsVariableSpecification_getMaxEncodedSize (T_structure _ elements) = do {
     componentsSize \<leftarrow> getMaxStructSize elements;
     i32 (1 + componentsSize + BerEncoder_determineLengthSize (word_of_int componentsSize)) }"
| "MmsVariableSpecification_getMaxEncodedSize (T_array _ n e) = do {
     m \<leftarrow> MmsVariableSpecification_getMaxEncodedSize e;
     elementSize \<leftarrow> i32 (m * n);
     i32 (1 + elementSize + BerEncoder_determineLengthSize (word_of_int elementSize)) }"
| "MmsVariableSpecification_getMaxEncodedSize (T_floatingpoint _ ew fw) = Some (uint fw div 8 + 1 + 2)"
| "MmsVariableSpecification_getMaxEncodedSize (T_simple t _ n) = (case t of
     MMS_BOOLEAN \<Rightarrow> Some 3
   | MMS_DATA_ACCESS_ERROR \<Rightarrow> Some 7
   | MMS_VISIBLE_STRING \<Rightarrow> Some (1 + \<bar>n\<bar> + BerEncoder_determineLengthSize (word_of_int \<bar>n\<bar>))
   | MMS_UNSIGNED \<Rightarrow> Some (2 + n sdiv 8 + 1)
   | MMS_INTEGER \<Rightarrow> Some (2 + n sdiv 8 + 1)
   | MMS_UTC_TIME \<Rightarrow> Some 10
   | MMS_BIT_STRING \<Rightarrow> Some (BerEncoder_determineEncodedBitStringSize \<bar>n\<bar>)
   | MMS_BINARY_TIME \<Rightarrow> Some (2 + n)
   | MMS_OCTET_STRING \<Rightarrow> Some (1 + BerEncoder_determineLengthSize (word_of_int \<bar>n\<bar>) + \<bar>n\<bar>)
   | MMS_STRING \<Rightarrow> Some (1 + \<bar>n\<bar> + BerEncoder_determineLengthSize (word_of_int \<bar>n\<bar>))
   | _ \<Rightarrow> Some 0)"
| "getMaxStructSize [] = Some 0"
| "getMaxStructSize (e # es) = do {
     n \<leftarrow> MmsVariableSpecification_getMaxEncodedSize e;
     m \<leftarrow> getMaxStructSize es;
     i32 (n + m) }"

section \<open>Decoding\<close>

text \<open>The tags that \<open>getNumberOfElements\<close> accepts.\<close>

definition element_tags :: "byte list" where
  "element_tags = [0x80, 0xa1, 0xa2, 0x83, 0x84, 0x85, 0x86, 0x87, 0x89, 0x8a, 0x8c, 0x91, 0x00]"

partial_function (option) getNumberOfElements_loop :: "ptr \<Rightarrow> int \<Rightarrow> int \<Rightarrow> int \<Rightarrow> int option" where
  "getNumberOfElements_loop buffer elementEndBufPos bufPos elementIndex =
     (if bufPos < elementEndBufPos then do {
        r \<leftarrow> decodeTL buffer bufPos elementEndBufPos;
        case r of
          None \<Rightarrow> Some (- 1)
        | Some (tag, bufPos, elementLength) \<Rightarrow>
            if tag \<in> set element_tags
            then getNumberOfElements_loop buffer elementEndBufPos (bufPos + elementLength) (elementIndex + 1)
            else Some (- 1) }
      else Some elementIndex)"

definition getNumberOfElements :: "ptr \<Rightarrow> int \<Rightarrow> int \<Rightarrow> int option" where
  "getNumberOfElements buffer bufPos elementLength = getNumberOfElements_loop buffer (bufPos + elementLength) bufPos 0"

text \<open>
  The loop over the elements of an array or structure; \<open>decode p e\<close> is the recursive call on the
  octets from \<open>p\<close> to \<open>e\<close>, \<open>None\<close> its result \<open>NULL\<close> and the result \<open>exit_with_error\<close> of the loop.
\<close>

fun decode_elements ::
  "(int \<Rightarrow> int \<Rightarrow> (MmsValue option \<times> int option) option) \<Rightarrow> ptr \<Rightarrow> int \<Rightarrow> nat \<Rightarrow> int \<Rightarrow> MmsValue \<Rightarrow> int \<Rightarrow> (MmsValue \<times> int) option option" where
  "decode_elements decode buffer dataEndBufPos 0 i v bufPos = Some (Some (v, bufPos))"
| "decode_elements decode buffer dataEndBufPos (Suc k) i v bufPos = do {
     r \<leftarrow> decodeLength_or_fail buffer (bufPos + 1) dataEndBufPos;
     (case r of
       None \<Rightarrow> Some None
     | Some (newBufPos, elementLength) \<Rightarrow> do {
         let elementBufLength = newBufPos - bufPos + elementLength;
         (elementValue, _) \<leftarrow> decode bufPos (bufPos + elementBufLength);
         (case elementValue of
           None \<Rightarrow> Some None
         | Some e \<Rightarrow> decode_elements decode buffer dataEndBufPos k (i + 1) (MmsValue_setElement v i (Some e)) (newBufPos + elementLength)) }) }"

text \<open>\<open>value->type = MMS_STRING\<close>\<close>

fun retag_string :: "MmsValue \<Rightarrow> MmsValue" where
  "retag_string (V_visibleString t d buf n) = V_visibleString MMS_STRING d buf n"
| "retag_string v = v"

text \<open>
  \<open>memcpy(value->value.integer->octets, buffer + bufPos, n); value->value.integer->size = n\<close>, and
  the \<open>memcpy\<close> into the octets of the other types.
\<close>

fun store_octets :: "MmsValue \<Rightarrow> byte list \<Rightarrow> MmsValue option" where
  "store_octets (V_integer t d i) xs = do {
     octets \<leftarrow> set_octets (pv_octets i) xs;
     Some (V_integer t d (i\<lparr>pv_octets := octets, pv_size := word_of_int (int (length xs))\<rparr>)) }"
| "store_octets (V_bitString d n buf) xs = do { buf \<leftarrow> set_octets buf xs; Some (V_bitString d n buf) }"
| "store_octets (V_octetString d n maxSize buf) xs = do { buf \<leftarrow> set_octets buf xs; Some (V_octetString d n maxSize buf) }"
| "store_octets (V_binaryTime d n buf) xs = do { buf \<leftarrow> set_octets buf xs; Some (V_binaryTime d n buf) }"
| "store_octets _ _ = None"

text \<open>
  The cases of the \<open>switch\<close> that read the contents of one value: the octets \<open>xs\<close> at \<open>bufPos\<close>. The
  result \<open>None\<close> is \<open>exit_with_error\<close>; \<open>Some None\<close> is a \<open>break\<close> with \<open>value == NULL\<close>. \<open>junk\<close> is what
  \<open>MmsValue_newFloat\<close> finds in the memory of a new value.
\<close>

definition decode_leaf :: "HalApi \<Rightarrow> byte \<times> byte list \<Rightarrow> byte \<Rightarrow> ptr \<Rightarrow> int \<Rightarrow> int \<Rightarrow> MmsValue option option option" where
  "decode_leaf h junk tag buffer bufPos dataLength = (
     let ok = (\<lambda>v. Some (Some (Some v))); break = Some (Some None); exit_with_error = Some None in
     if tag = 0x80 then do {
       e \<leftarrow> BerDecoder_decodeUint32 buffer dataLength bufPos;
       ok (MmsValue_newDataAccessError e) }
     else if tag = 0x83 then do {
       b \<leftarrow> BerDecoder_decodeBoolean buffer bufPos;
       ok (MmsValue_newBoolean b) }
     else if tag = 0x84 then do {
       padding \<leftarrow> rd buffer bufPos;
       if padding > 7 then exit_with_error
       else do {
         n \<leftarrow> i32 (8 * (dataLength - 1));
         let bitStringLength = n - uint padding;
         xs \<leftarrow> rdn buffer (bufPos + 1) (nat (dataLength - 1));
         v \<leftarrow> store_octets (MmsValue_newBitString bitStringLength) xs;
         ok v } }
     else if tag = 0x85 \<or> tag = 0x86 then
       if dataLength > 8 then exit_with_error
       else do {
         v \<leftarrow> (if tag = 0x85 then MmsValue_newInteger (dataLength * 8) else MmsValue_newUnsigned (dataLength * 8));
         xs \<leftarrow> rdn buffer bufPos (nat dataLength);
         v \<leftarrow> store_octets v xs;
         ok v }
     else if tag = 0x87 then
       if dataLength = 9 then do {
         x \<leftarrow> BerDecoder_decodeDouble (hal_le h) buffer bufPos;
         v \<leftarrow> MmsValue_newDouble x;
         ok v }
       else if dataLength = 5 then do {
         x \<leftarrow> BerDecoder_decodeFloat (hal_le h) buffer bufPos;
         v \<leftarrow> MmsValue_newFloat (fst junk) (snd junk) x;
         ok v }
       else break
     else if tag = 0x89 then do {
       xs \<leftarrow> rdn buffer bufPos (nat dataLength);
       v \<leftarrow> store_octets (MmsValue_newOctetString dataLength dataLength) xs;
       ok v }
     else if tag = 0x8a then do {
       v \<leftarrow> MmsValue_newVisibleStringFromByteArray h (padd buffer bufPos) dataLength;
       ok v }
     else if tag = 0x8c then
       if dataLength = 4 \<or> dataLength = 6 then do {
         xs \<leftarrow> rdn buffer bufPos (nat dataLength);
         v \<leftarrow> store_octets (MmsValue_newBinaryTime (dataLength = 4)) xs;
         ok v }
       else break
     else if tag = 0x90 then do {
       v \<leftarrow> MmsValue_newVisibleStringFromByteArray h (padd buffer bufPos) dataLength;
       ok (retag_string v) }
     else if tag = 0x91 then
       if dataLength = 8 then do {
         v \<leftarrow> MmsValue_setUtcTimeByBuffer (MmsValue_newUtcTime h 0) (Some (padd buffer bufPos));
         ok v }
       else exit_with_error
     else if tag = 0x00 then break
     else exit_with_error)"

text \<open>
  The result is the value or \<open>NULL\<close>, and what is stored in \<open>*endBufPos\<close>, if anything: an end
  marker is the only case whose contents the position does not skip.
\<close>

function MmsValue_decodeMmsDataRecursive ::
  "HalApi \<Rightarrow> byte \<times> byte list \<Rightarrow> ptr \<Rightarrow> int \<Rightarrow> int \<Rightarrow> nat \<Rightarrow> nat \<Rightarrow> (MmsValue option \<times> int option) option" where
  "MmsValue_decodeMmsDataRecursive h junk buffer bufPos bufferLength depth maxDepth =
     (let depth = depth + 1; dataEndBufPos = bufferLength in
      if depth > maxDepth then Some (None, None)
      else if bufferLength < 1 then Some (None, None)
      else do {
        r \<leftarrow> decodeTL buffer bufPos dataEndBufPos;
        (case r of
          None \<Rightarrow> Some (None, None)
        | Some (tag, bufPos, dataLength) \<Rightarrow>
            if tag \<noteq> 0 \<and> tag \<noteq> 0x8a \<and> tag \<noteq> 0x90 \<and> tag \<noteq> 0x89 \<and> dataLength = 0 then Some (None, None)
            else if tag = 0xa1 \<or> tag = 0xa2 then do {
              elementCount \<leftarrow> getNumberOfElements buffer bufPos dataLength;
              if elementCount < 0 then Some (None, None)
              else do {
                let v = (if tag = 0xa1 then MmsValue_createEmptyArray elementCount else MmsValue_createEmptyStructure elementCount);
                r \<leftarrow> decode_elements
                  (\<lambda>p e. MmsValue_decodeMmsDataRecursive h junk buffer p e depth maxDepth) buffer dataEndBufPos (nat elementCount) 0 v bufPos;
                Some (case r of None \<Rightarrow> (None, None) | Some (v, bufPos) \<Rightarrow> (Some v, Some bufPos)) } }
            else do {
              r \<leftarrow> decode_leaf h junk tag buffer bufPos dataLength;
              Some (case r of None \<Rightarrow> (None, None)
                | Some v \<Rightarrow> (v, Some (if tag = 0 then bufPos else bufPos + dataLength))) }) })"
  by pat_completeness auto
termination
  by (relation "measure (\<lambda>(h, junk, buffer, p, n, d, m). m - d)") auto

declare MmsValue_decodeMmsDataRecursive.simps [simp del]

definition MmsValue_decodeMmsDataMaxRecursion ::
  "HalApi \<Rightarrow> byte \<times> byte list \<Rightarrow> ptr \<Rightarrow> int \<Rightarrow> int \<Rightarrow> nat \<Rightarrow> (MmsValue option \<times> int option) option" where
  "MmsValue_decodeMmsDataMaxRecursion h junk buffer bufPos bufferLength maxDepth =
     MmsValue_decodeMmsDataRecursive h junk buffer bufPos bufferLength 0 maxDepth"

definition MmsValue_decodeMmsData ::
  "HalApi \<Rightarrow> byte \<times> byte list \<Rightarrow> ptr \<Rightarrow> int \<Rightarrow> int \<Rightarrow> (MmsValue option \<times> int option) option" where
  "MmsValue_decodeMmsData h junk buffer bufPos bufferLength = MmsValue_decodeMmsDataMaxRecursion h junk buffer bufPos bufferLength 25"

end
