(* ===== verification/Mms_Data_Props.thy ===== *)
theory Mms_Data_Props
  imports Mms_Data
begin

text \<open>
  Properties of the encoding of values: the size announced for a value is the size written, and
  decoding any message is safe.
\<close>

declare split_paired_All [simp del] split_paired_Ex [simp del]

section \<open>The octets of a value\<close>

definition string_octets :: "byte list option \<Rightarrow> byte list" where
  "string_octets buf = (case buf of None \<Rightarrow> [] | Some b \<Rightarrow> takeWhile (\<lambda>c. c \<noteq> 0) b)"

fun mms_octets :: "bool \<Rightarrow> MmsValue \<Rightarrow> byte list" and components_octets :: "bool \<Rightarrow> MmsValue option list \<Rightarrow> byte list" where
  "mms_octets le (V_boolean d b) = tlv 0x83 [if b then 1 else 0]"
| "mms_octets le (V_structure t d xs) = tlv (if t = MMS_ARRAY then 0xa1 else 0xa2) (components_octets le xs)"
| "mms_octets le (V_dataAccessError d e) = tlv 0x80 (uint32_octets e)"
| "mms_octets le (V_visibleString t d buf n) = tlv (if t = MMS_VISIBLE_STRING then 0x8a else 0x90) (string_octets buf)"
| "mms_octets le (V_integer t d i) = tlv (if t = MMS_UNSIGNED then 0x86 else 0x85) (pv_bytes i)"
| "mms_octets le (V_utcTime d buf) = tlv 0x91 buf"
| "mms_octets le (V_bitString d n buf) = tlv 0x84 (bit_string_octets n buf)"
| "mms_octets le (V_binaryTime d n buf) = tlv 0x8c (take (unat n) buf)"
| "mms_octets le (V_octetString d n maxSize buf) = tlv 0x89 (take (unat n) buf)"
| "mms_octets le (V_floatingPoint d ew fw buf) =
     tlv 0x87 (ew # (let xs = take (nat (uint fw div 8)) buf in if le then rev xs else xs))"
| "components_octets le [] = []"
| "components_octets le (x # xs) = (case x of None \<Rightarrow> [] | Some v \<Rightarrow> mms_octets le v) @ components_octets le xs"

text \<open>
  The sizes for which the announced size is right: the length 65535 is announced one octet too
  short, and so are the bit strings whose octets with the octet for the padding just need a longer
  length.
\<close>

fun sizes_ok :: "bool \<Rightarrow> MmsValue \<Rightarrow> bool" and components_sizes_ok :: "bool \<Rightarrow> MmsValue option list \<Rightarrow> bool" where
  "sizes_ok le (V_structure t d xs) \<longleftrightarrow> length (components_octets le xs) < 2 ^ 22 \<and> length (components_octets le xs) \<noteq> 65535 \<and> components_sizes_ok le xs"
| "sizes_ok le (V_bitString d n buf) \<longleftrightarrow> bitStringByteSize n \<notin> {127, 255, 65534, 65535}"
| "sizes_ok le (V_octetString d n maxSize buf) \<longleftrightarrow> n \<noteq> 65535"
| "sizes_ok le (V_integer t d i) \<longleftrightarrow> pv_size i < 128"
| "sizes_ok le v \<longleftrightarrow> True"
| "components_sizes_ok le [] \<longleftrightarrow> True"
| "components_sizes_ok le (x # xs) \<longleftrightarrow> (case x of None \<Rightarrow> True | Some v \<Rightarrow> sizes_ok le v) \<and> components_sizes_ok le xs"

lemma tlv_emit: "tl_octets tag (int (length xs)) @ xs = tlv tag xs"
  by (simp add: tlv_def)

lemma wf_string: "leaf_wf (V_visibleString t d buf n) \<Longrightarrow> string_of buf = Some (Some (string_octets buf)) \<and> length (string_octets buf) < 2 ^ 15"
proof -
  assume "leaf_wf (V_visibleString t d buf n)"
  then obtain b cs where b: "buf = Some b" "c_string b = Some cs" "int (length b) = sint n + 1" by (auto simp: c_string_def split: option.splits)
  moreover from b have "cs = string_octets buf" by (auto simp: string_octets_def c_string_def split: if_splits)
  moreover have "int (length cs) < 32768" using sint_lt [of n] b(3) c_string_SomeD [OF b(2)] by simp
  ultimately show ?thesis by (auto simp: string_of_def)
qed

definition encodes :: "bool \<Rightarrow> MmsValue \<Rightarrow> bool" where
  "encodes le v \<longleftrightarrow> encodedSize le v = Some (int (length (mms_octets le v))) \<and> MmsValue_encodeMmsData le v = emit (mms_octets le v)"

lemma tlv_short_length: "length xs < 128 \<Longrightarrow> length (tlv tag xs) = length xs + 2"
  by (simp add: tlv_short)

lemma encode_tlv:
  assumes "length xs < 2 ^ 32"
  shows "do { s \<leftarrow> put tag s; s \<leftarrow> BerEncoder_encodeLength (word_of_int (int (length xs))) s; emit xs s } = emit (tlv tag xs) s"
proof -
  have "uint (word_of_int (int (length xs)) :: 32 word) = int (length xs)" using assms by (intro uint32_of_int) auto
  then show ?thesis by (simp add: encodeLength_emits tlv_def tl_octets_def emit_single emit_fuse emit_fuse_bind del: emit.simps)
qed

lemma determineLengthSize_tlv:
  "length xs < 2 ^ 32 \<Longrightarrow> length xs \<noteq> 65535 \<Longrightarrow> 1 + BerEncoder_determineLengthSize (word_of_int (int (length xs))) + int (length xs) = int (length (tlv tag xs))"
  using determineLengthSize_octets [of "int (length xs)" tag] by (simp add: tlv_def)

lemma encodes_string:
  assumes "leaf_wf (V_visibleString t d buf n)"
  shows "encodes le (V_visibleString t d buf n)"
proof -
  note w = wf_string [OF assms]
  then have l: "length (string_octets buf) < 2 ^ 15" by simp
  show ?thesis
    using w l determineLengthSize_tlv [of "string_octets buf"]
    by (auto simp: encodes_def BerEncoder_determineEncodedStringSize_def encodeStringWithTag_emits tlv_def tl_octets_def fun_eq_iff)
qed

lemma encodes_integer:
  assumes "leaf_wf (V_integer t d i)" and "pv_size i < 128"
  shows "encodes le (V_integer t d i)"
proof -
  have wf: "pv_wf i" using assms(1) by simp
  have l: "length (pv_bytes i) = unat (pv_size i)" "unat (pv_size i) < 128"
    using pv_wf_bytes [OF wf] assms(2) by (simp_all add: word_less_nat_alt)
  have "copy_bytes (pv_octets i, 0) (uint (pv_size i)) = emit (pv_bytes i)"
    using pv_wf_rdn [OF wf] by (intro ext copy_bytes_emits) simp_all
  moreover have "(ucast (pv_size i) :: 32 word) = word_of_int (int (length (pv_bytes i)))" by (simp add: l(1))
  ultimately have "BerEncoder_encodeAsn1PrimitiveValue tag i s = emit (tlv tag (pv_bytes i)) s" for tag s
    unfolding BerEncoder_encodeAsn1PrimitiveValue_def using l encode_tlv [of "pv_bytes i" tag s] by simp
  then show ?thesis using l by (auto simp: encodes_def tlv_short_length fun_eq_iff)
qed

lemma encodes_octets:
  assumes "unat n \<le> length buf" and "n \<noteq> 65535"
  shows "BerEncoder_encodeOctetString tag (buf, 0) (ucast (n :: 16 word)) = emit (tlv tag (take (unat n) buf))"
    and "1 + BerEncoder_determineLengthSize (ucast n) + uint n = int (length (tlv tag (take (unat n) buf)))"
proof -
  have l: "length (take (unat n) buf) = unat n" using assms(1) by simp
  have b: "unat n < 65536" "uint n < 65536" using unsigned_less [of n, where 'a = nat] unsigned_less [of n, where 'a = int] by simp_all
  have u: "unat (ucast n :: 32 word) = unat n" "(ucast n :: 32 word) = word_of_int (int (unat n))" "uint (ucast n :: 32 word) = uint n"
    using b by (simp_all add: unsigned_ucast_eq take_bit_nat_eq_self take_bit_int_eq_self)
  have "unat n \<noteq> 65535" using assms(2) word_unat_eq_iff [of n 65535] by simp
  then show "1 + BerEncoder_determineLengthSize (ucast n) + uint n = int (length (tlv tag (take (unat n) buf)))"
    using determineLengthSize_tlv [of "take (unat n) buf" tag] b unfolding l u(2) by simp
  show "BerEncoder_encodeOctetString tag (buf, 0) (ucast n) = emit (tlv tag (take (unat n) buf))"
    by (rule ext, subst encodeOctetString_emits [where xs = "take (unat n) buf"]) (use assms(1) u(1,3) l in \<open>simp_all add: rdn_take tlv_def tl_octets_def\<close>)
qed

lemma length_bit_string_octets: "length (bit_string_octets n buf) = length buf + 1"
  by (simp add: bit_string_octets_def Let_def)

lemma encodes_bits:
  assumes "leaf_wf (V_bitString d n buf)" and "bitStringByteSize n \<notin> {127, 255, 65534, 65535}"
  shows "encodes le (V_bitString d n buf)"
proof -
  have n: "0 \<le> n" "n < 2 ^ 31" "int (length buf) = bitStringByteSize n" using assms(1) by auto
  have e: "bit_string_byte_size n = bitStringByteSize n" "0 \<le> bitStringByteSize n" "bitStringByteSize n < 2 ^ 29"
    using n bitStringByteSize_nonneg [OF n(1)] by (auto simp: bit_string_byte_size_def getBitStringByteSize_def Let_def)
  have l: "nat (bitStringByteSize n) = length buf" using n(3) by simp
  have lb: "int (length (bit_string_octets n buf)) = bitStringByteSize n + 1" using n(3) by (simp add: length_bit_string_octets)
  have "BerEncoder_encodeBitString 0x84 n (buf, 0) = emit (tlv 0x84 (bit_string_octets n buf))"
    by (rule ext, subst encodeBitString_emits [where xs = buf])
      (use n e l in \<open>simp_all add: rdn_take tlv_def tl_octets_def lb\<close>)
  moreover have "BerEncoder_determineLengthSize (word_of_int (bitStringByteSize n)) = int (length (len_octets (bitStringByteSize n + 1)))"
  proof -
    have "uint (word_of_int (bitStringByteSize n) :: 32 word) = bitStringByteSize n" using e by (intro uint32_of_int) simp_all
    then show ?thesis using assms(2) e(2)
      by (auto simp: BerEncoder_determineLengthSize_def word_less_def length_len_octets)
  qed
  then have "BerEncoder_determineEncodedBitStringSize n = int (length (tlv 0x84 (bit_string_octets n buf)))"
    unfolding BerEncoder_determineEncodedBitStringSize_def Let_def e(1) length_tlv lb by (simp only: of_nat_Suc of_nat_add lb)
  ultimately show ?thesis by (simp add: encodes_def fun_eq_iff)
qed

lemma encodes_float:
  assumes "leaf_wf (V_floatingPoint d ew fw buf)"
  shows "encodes le (V_floatingPoint d ew fw buf)"
proof -
  have n: "nat (uint fw div 8) \<le> length buf" "uint fw div 8 = 4 \<or> uint fw div 8 = 8" using assms by auto
  let ?xs = "take (nat (uint fw div 8)) buf"
  let ?ys = "ew # (if le then rev ?xs else ?xs)"
  have f: "BerEncoder_encodeFloat le (buf, 0) fw ew = emit ?ys"
    by (rule ext, rule encodeFloat_emits) (use n in \<open>simp add: rdn_take\<close>)
  have l: "uint fw div 8 + 1 = int (length ?ys)" "length ?ys < 128" using n by auto
  have "BerEncoder_encodeTL 0x87 (word_of_int (uint fw div 8 + 1)) = emit (tl_octets 0x87 (int (length ?ys)))"
    unfolding l(1) using l(2) by (intro encodeTL_tl_octets) simp_all
  then have "MmsValue_encodeMmsData le (V_floatingPoint d ew fw buf) = emit (tlv 0x87 ?ys)"
    by (simp only: MmsValue_encodeMmsData.simps f emit_fuse tlv_def fun_eq_iff) simp
  moreover have "encodedSize le (V_floatingPoint d ew fw buf) = Some (int (length (tlv 0x87 ?ys)))"
    unfolding tlv_short_length [OF l(2)] using l(1) by simp
  ultimately show ?thesis by (simp only: encodes_def mms_octets.simps Let_def)
qed

lemma encodes_leaf:
  assumes "leaf_wf v" and "sizes_ok le v" and "is_leaf v"
  shows "encodes le v"
proof (cases v)
  case (V_octetString d n m buf)
  then have "uint n \<le> int (length buf)" "n \<noteq> 65535" using assms(1,2) by auto
  then have "unat n \<le> length buf" "n \<noteq> 65535" by (simp_all flip: of_nat_le_iff [where 'a = int])
  with V_octetString encodes_octets [of n buf "0x89"] show ?thesis by (simp add: encodes_def fun_eq_iff)
next
  case (V_binaryTime d n buf)
  then have n: "n = 4 \<or> n = 6" "length buf = 6" using assms(1) by auto
  have u: "(ucast n :: 32 word) = ucast (ucast n :: 16 word)" "unat (ucast n :: 16 word) = unat n" using n(1) by auto
  have "BerEncoder_encodeOctetString 0x8c (buf, 0) (ucast n) = emit (tlv 0x8c (take (unat n) buf))"
    using encodes_octets(1) [of "ucast n" buf "0x8c"] n unfolding u(1) u(2) [symmetric] by auto
  with V_binaryTime n show ?thesis by (auto simp: encodes_def tlv_short_length fun_eq_iff)
next
  case (V_utcTime d buf)
  then have n: "length buf = 8" using assms(1) by simp
  then have "BerEncoder_encodeOctetString 0x91 (buf, 0) 8 = emit (tlv 0x91 buf)"
    using encodes_octets(1) [of 8 buf "0x91"] by simp
  with V_utcTime n show ?thesis by (simp add: encodes_def tlv_short_length fun_eq_iff)
next
  case (V_dataAccessError d e)
  have l: "length (uint32_octets e) < 128" using uint32_octets_len [of e] by simp
  have "encodedSize le v = Some (int (length (mms_octets le v)))"
    using l by (simp add: V_dataAccessError UInt32determineEncodedSize_eq tlv_short_length)
  moreover have "BerEncoder_encodeUInt32 le e = emit (uint32_octets e)" by (rule ext) (rule encodeUInt32_emits)
  then have "MmsValue_encodeMmsData le v = emit (mms_octets le v)"
    using l encodeTL_tl_octets [where n = "int (length (uint32_octets e))" and tag = "0x80"]
    by (intro ext) (simp add: V_dataAccessError UInt32determineEncodedSize_eq tlv_def emit_fuse)
  ultimately show ?thesis by (simp add: encodes_def)
next
  case (V_boolean d b)
  then show ?thesis by (simp add: encodes_def encodeBoolean_emits tlv_short fun_eq_iff)
next
  case (V_visibleString t d buf n)
  with assms(1) encodes_string show ?thesis by simp
next
  case (V_integer t d i)
  with assms(1,2) encodes_integer show ?thesis by simp
next
  case (V_bitString d n buf)
  with assms(1,2) encodes_bits show ?thesis by simp
next
  case (V_floatingPoint d ew fw buf)
  with assms(1) encodes_float show ?thesis by simp
qed (use assms in simp)

lemma encodes_structure:
  assumes "encodedSize_components le xs = Some (int (length (components_octets le xs)))" and "encode_components le xs = emit (components_octets le xs)"
    and "sizes_ok le (V_structure t d xs)"
  shows "encodes le (V_structure t d xs)"
proof -
  let ?ys = "components_octets le xs" and ?tag = "if t = MMS_ARRAY then 0xa1 else 0xa2 :: byte"
  have l: "length ?ys < 2 ^ 22" "length ?ys \<noteq> 65535" using assms(3) by simp_all
  have e: "1 + int (length ?ys) + BerEncoder_determineLengthSize (word_of_int (int (length ?ys))) = int (length (tlv ?tag ?ys))"
    using determineLengthSize_tlv [of ?ys ?tag] l by simp
  have "int (length (tlv ?tag ?ys)) < 2 ^ 31" using length_tlv_le [of ?ys ?tag] l(1) by simp
  then have "i32 (int (length (tlv ?tag ?ys))) = Some (int (length (tlv ?tag ?ys)))" by (intro i32_Some) simp_all
  then have "encodedSize le (V_structure t d xs) = Some (int (length (tlv ?tag ?ys)))"
    using assms(1) by (simp only: encodedSize.simps bind.simps e)
  moreover have "MmsValue_encodeMmsData le (V_structure t d xs) s = emit (tlv ?tag ?ys) s" for s
    using encode_tlv [of ?ys ?tag s] l(1) by (simp only: MmsValue_encodeMmsData.simps assms(1,2) bind.simps) simp
  ultimately show ?thesis by (simp only: encodes_def mms_octets.simps fun_eq_iff) simp
qed

lemma encodes_value: "value_wf v \<Longrightarrow> sizes_ok le v \<Longrightarrow> encodes le v"
  and encodes_components: "components_wf xs \<Longrightarrow> components_sizes_ok le xs \<Longrightarrow> length (components_octets le xs) < 2 ^ 22 \<Longrightarrow>
    encodedSize_components le xs = Some (int (length (components_octets le xs))) \<and> encode_components le xs = emit (components_octets le xs)"
proof (induction v and xs rule: value_wf_components_wf.induct)
  case (1 t d xs)
  then show ?case by (intro encodes_structure) auto
next
  case 3
  then show ?case by (simp add: emit_Nil_eq fun_eq_iff)
next
  case (4 x xs)
  then obtain v where v: "x = Some v" "value_wf v" "sizes_ok le v" "components_wf xs" "components_sizes_ok le xs"
    by (auto split: option.splits)
  have "encodes le v" using 4 v by auto
  moreover have "encodedSize_components le xs = Some (int (length (components_octets le xs))) \<and> encode_components le xs = emit (components_octets le xs)"
    using 4 v by auto
  moreover have "i32 (int (length (mms_octets le v)) + int (length (components_octets le xs))) =
      Some (int (length (mms_octets le v)) + int (length (components_octets le xs)))"
    using "4.prems"(3) v(1) by (intro i32_Some) simp_all
  ultimately show ?case using v(1) by (intro conjI ext) (simp_all add: encodes_def emit_fuse)
qed (simp_all add: encodes_leaf)

section \<open>Decoding is safe\<close>

lemma components_wf_alt: "components_wf xs \<longleftrightarrow> (\<forall>x\<in>set xs. \<exists>v. x = Some v \<and> value_wf v)"
  by (induction xs) (auto split: option.splits)

lemma getNumberOfElements_safe:
  assumes v: "valid_range buffer 0 hi" "hi < 2 ^ 22" and e: "0 \<le> p" "e \<le> hi" and i: "0 \<le> i"
  shows "\<exists>n. getNumberOfElements_loop buffer e p i = Some n \<and> (n = - 1 \<or> 0 \<le> n)"
  using e(1) i
proof (induction "nat (e - p)" arbitrary: p i rule: less_induct)
  case less
  show ?case
  proof (cases "p < e")
    case True
    have "decodeTL buffer p e = Some None \<or> (\<exists>tag q n. decodeTL buffer p e = Some (Some (tag, q, n)) \<and> p + 1 < q \<and> 0 \<le> n \<and> q + n \<le> e)"
    proof -
      have "e < 2 ^ 22" "p < hi" using True e(2) v(2) by simp_all
      from decodeTL_safe [OF v(1) this(1) order_refl less.prems(1) this(2) e(2)] show ?thesis by blast
    qed
    then show ?thesis
    proof (elim disjE exE conjE)
      fix tag q n assume r: "decodeTL buffer p e = Some (Some (tag, q, n))" "p + 1 < q" "0 \<le> n" "q + n \<le> e"
      then have "\<exists>m. getNumberOfElements_loop buffer e (q + n) (i + 1) = Some m \<and> (m = - 1 \<or> 0 \<le> m)"
        using less.prems True by (intro less.hyps) auto
      then show ?thesis using True r(1) by (subst getNumberOfElements_loop.simps) auto
    qed (subst getNumberOfElements_loop.simps, use True in simp)
  qed (use less.prems(2) in \<open>subst getNumberOfElements_loop.simps, simp\<close>)
qed

lemma decode_elements_safe:
  assumes v: "valid_range buffer 0 hi" "hi < 2 ^ 22" and e: "e \<le> hi"
    and dec: "\<And>p q. 0 \<le> p \<Longrightarrow> p < q \<Longrightarrow> q \<le> e \<Longrightarrow> \<exists>w r. dec p q = Some (w, r) \<and> (\<forall>x. w = Some x \<longrightarrow> Q x)"
  shows "0 \<le> p \<Longrightarrow> p \<le> e \<Longrightarrow> 0 \<le> i \<Longrightarrow> i + int k = int (length xs) \<Longrightarrow> (\<forall>j < nat i. \<exists>x. xs ! j = Some x \<and> Q x) \<Longrightarrow>
    decode_elements dec buffer e k i (V_structure t d xs) p = Some None \<or>
    (\<exists>xs' q. decode_elements dec buffer e k i (V_structure t d xs) p = Some (Some (V_structure t d xs', q)) \<and>
      p \<le> q \<and> q \<le> e \<and> length xs' = length xs \<and> (\<forall>x\<in>set xs'. \<exists>w. x = Some w \<and> Q w))"
proof (induction k arbitrary: p i xs)
  case 0
  then show ?case by (auto simp: in_set_conv_nth)
next
  case (Suc k)
  have "valid_range buffer 0 e" using v(1) e by (auto simp: valid_range_def)
  then consider "decodeLength_or_fail buffer (p + 1) e = Some None"
    | q n where "decodeLength_or_fail buffer (p + 1) e = Some (Some (q, n))" "p + 1 < q" "0 \<le> n" "q + n \<le> e"
    using decodeLength_or_fail_safe [of buffer 0 e "p + 1"] Suc.prems(1) e v(2) by auto
  then show ?case
  proof cases
    case (2 q n)
    obtain w r where w: "dec p (q + n) = Some (w, r)" "\<forall>x. w = Some x \<longrightarrow> Q x" using dec [of p "q + n"] Suc.prems(1) 2 by auto
    show ?thesis
    proof (cases w)
      case None
      then show ?thesis using 2 w by simp
    next
      case (Some x)
      let ?xs = "xs[nat i := Some x]"
      have "\<forall>j < nat (i + 1). \<exists>y. ?xs ! j = Some y \<and> Q y"
        using Suc.prems(3-5) w(2) Some by (auto simp: nth_list_update nat_add_distrib less_Suc_eq)
      then have "decode_elements dec buffer e k (i + 1) (V_structure t d ?xs) (q + n) = Some None \<or>
        (\<exists>xs' q'. decode_elements dec buffer e k (i + 1) (V_structure t d ?xs) (q + n) = Some (Some (V_structure t d xs', q')) \<and>
          q + n \<le> q' \<and> q' \<le> e \<and> length xs' = length ?xs \<and> (\<forall>x\<in>set xs'. \<exists>w. x = Some w \<and> Q w))"
        using Suc.prems 2 by (intro Suc.IH) auto
      moreover have "decode_elements dec buffer e (Suc k) i (V_structure t d xs) p = decode_elements dec buffer e k (i + 1) (V_structure t d ?xs) (q + n)"
        using 2(1) w(1) Some Suc.prems(3,4) by simp
      ultimately show ?thesis using 2(2,3) by auto
    qed
  qed simp
qed

lemma store_bits:
  assumes "0 < n" and "n < 2 ^ 22" and "padding \<le> (7 :: byte)" and "length xs = nat (n - 1)"
  shows "\<exists>v. store_octets (MmsValue_newBitString (8 * (n - 1) - uint padding)) xs = Some v \<and> value_wf v"
proof -
  have p: "0 \<le> uint padding" "uint padding \<le> 7" using assms(3) by (simp_all add: word_le_def)
  let ?n = "\<bar>8 * (n - 1) - uint padding\<bar>"
  have s: "0 \<le> bitStringByteSize ?n" "bitStringByteSize ?n = (?n + 7) div 8" using bitStringByteSize_nonneg [of ?n] by simp_all
  then have "n - 1 \<le> bitStringByteSize ?n" using p assms(1) by auto
  then have l: "length xs \<le> nat (bitStringByteSize ?n)" using assms(4) by simp
  have "n < 4194304" using assms(2) by simp
  then have "8 * (n - 1) - uint padding < 2147483640" "- (8 * (n - 1) - uint padding) < 2147483640" using p assms(1) by presburger+
  then have "?n < 2 ^ 31 - 8" unfolding abs_less_iff by simp
  with l s(1) show ?thesis by (simp add: MmsValue_newBitString_def set_octets_fits)
qed

lemma store_integer_wf:
  assumes "0 < n" and "n \<le> 8" and "length xs = nat n"
  shows "\<exists>v. (do { v \<leftarrow> MmsValue_newInteger (n * 8); store_octets v xs }) = Some v \<and> value_wf v"
    and "\<exists>v. (do { v \<leftarrow> MmsValue_newUnsigned (n * 8); store_octets v xs }) = Some v \<and> value_wf v"
  using assms
  by (auto simp: MmsValue_newInteger_def MmsValue_newUnsigned_def BerInteger_createInt32_def BerInteger_createInt64_def
      Asn1PrimitiveValue_create_def set_octets_fits pv_wf_def word_less_def word_le_def uint_word_of_int)

lemma new_string_from_octets:
  assumes "hal_ok h" and "rdn buffer p (nat n) = Some xs" and "0 \<le> n" and "t \<in> {MMS_VISIBLE_STRING, MMS_STRING}"
  shows "MmsValue_newStringFromByteArray h (padd buffer p) n t = Some (V_visibleString t 0 (Some (xs @ [0])) (word_of_int n))"
    and "n < 2 ^ 15 \<Longrightarrow> value_wf (V_visibleString t 0 (Some (xs @ [0])) (word_of_int n))"
  using assms length_rdn [OF assms(2)] by (auto simp: MmsValue_newStringFromByteArray_def hal_ok_def sint16)

lemma decode_leaf_safe:
  assumes h: "hal_ok h" "length (snd junk) = 8" and v: "valid_range buffer 0 hi" "hi < 2 ^ 22" and p: "0 \<le> p" "0 \<le> n" "p + n \<le> hi"
    and n: "tag \<notin> {0, 0x8a, 0x90, 0x89} \<Longrightarrow> 0 < n"
  shows "\<exists>r. decode_leaf h junk tag buffer p n = Some r \<and> (\<forall>w. r = Some (Some w) \<longrightarrow> n < 2 ^ 15 \<longrightarrow> value_wf w)"
proof -
  obtain xs where xs: "rdn buffer p (nat n) = Some xs" "length xs = nat n" using rdn_total [OF v(1) p(1), of "nat n"] p length_rdn by fastforce
  have r0: "\<exists>b. rd buffer p = Some b" if "0 < n" using rd_valid [OF v(1) p(1)] that p(3) by auto
  note string = new_string_from_octets [OF h(1) xs(1) p(2)]
  consider "tag = 0x80" | "tag = 0x83" | "tag = 0x84" | "tag = 0x85" | "tag = 0x86" | "tag = 0x87" "n = 9" | "tag = 0x87" "n = 5" | "tag = 0x87" "n \<noteq> 9" "n \<noteq> 5"
    | "tag = 0x89" | "tag = 0x8a" | "tag = 0x8c" | "tag = 0x90" | "tag = 0x91" | "tag \<notin> {0x80, 0x83, 0x84, 0x85, 0x86, 0x87, 0x89, 0x8a, 0x8c, 0x90, 0x91}"
    by blast
  then show ?thesis
  proof cases
    case 1
    then show ?thesis using decodeUint32_total [OF v(1) p] by (auto simp: decode_leaf_def MmsValue_newDataAccessError_def)
  next
    case 2
    then show ?thesis using r0 n by (auto simp: decode_leaf_def BerDecoder_decodeBoolean_def MmsValue_newBoolean_def)
  next
    case 3
    then obtain padding where b: "rd buffer p = Some padding" "0 < n" using r0 n by auto
    obtain ys where ys: "rdn buffer (p + 1) (nat (n - 1)) = Some ys" "length ys = nat (n - 1)"
      using rdn_total [OF v(1), of "p + 1" "nat (n - 1)"] p b(2) length_rdn by fastforce
    have "i32 (8 * (n - 1)) = Some (8 * (n - 1))" using v(2) p b(2) by (intro i32_Some) simp_all
    moreover have "padding \<le> 7 \<Longrightarrow> \<exists>v. store_octets (MmsValue_newBitString (8 * (n - 1) - uint padding)) ys = Some v \<and> value_wf v"
      using store_bits [OF b(2) _ _ ys(2)] v(2) p by simp
    ultimately show ?thesis using 3 b ys by (auto simp: decode_leaf_def not_less simp del: value_wf.simps)
  next
    case 4
    then show ?thesis using store_integer_wf(1) [of n xs] xs n by (cases "8 < n") (auto simp: decode_leaf_def not_less bind_eq_Some_conv simp del: value_wf.simps)
  next
    case 5
    then show ?thesis using store_integer_wf(2) [of n xs] xs n by (cases "8 < n") (auto simp: decode_leaf_def not_less bind_eq_Some_conv simp del: value_wf.simps)
  next
    case 6
    obtain ys where "rdn buffer (p + 1) 8 = Some ys" "length ys = 8" using rdn_total [OF v(1), of "p + 1" 8] p 6 length_rdn by fastforce
    then show ?thesis using 6 by (auto simp: decode_leaf_def BerDecoder_decodeDouble_def MmsValue_newDouble_def set_octets_fits)
  next
    case 7
    obtain ys where "rdn buffer (p + 1) 4 = Some ys" "length ys = 4" using rdn_total [OF v(1), of "p + 1" 4] p 7 length_rdn by fastforce
    then show ?thesis using 7 h(2) by (auto simp: decode_leaf_def BerDecoder_decodeFloat_def MmsValue_newFloat_def set_octets_fits)
  next
    case 8
    then show ?thesis by (simp add: decode_leaf_def)
  next
    case 9
    have "uint (word_of_int n :: 16 word) \<le> n" using p(2) by (simp add: uint_word_of_int zmod_le_nonneg_dividend)
    then show ?thesis using 9 xs p(2) by (simp add: decode_leaf_def MmsValue_newOctetString_def set_octets_fits)
  next
    case 10
    then show ?thesis using string [of MMS_VISIBLE_STRING] by (simp add: decode_leaf_def MmsValue_newVisibleStringFromByteArray_def del: value_wf.simps)
  next
    case 11
    then show ?thesis using xs by (auto simp: decode_leaf_def MmsValue_newBinaryTime_def set_octets_fits)
  next
    case 12
    then show ?thesis using string [of MMS_VISIBLE_STRING] string(2) [of MMS_STRING]
      by (simp add: decode_leaf_def MmsValue_newVisibleStringFromByteArray_def del: value_wf.simps)
  next
    case 13
    then show ?thesis using xs by (auto simp: decode_leaf_def MmsValue_newUtcTime_def set_octets_fits native_bytes_def)
  next
    case 14
    then show ?thesis by (simp add: decode_leaf_def)
  qed
qed

text \<open>What the decoder promises for the octets from \<open>p\<close> to \<open>e\<close>.\<close>

definition decodes_safely :: "int \<Rightarrow> int \<Rightarrow> (MmsValue option \<times> int option) option \<Rightarrow> bool" where
  "decodes_safely p e r \<longleftrightarrow> (\<exists>w q. r = Some (w, q) \<and> (\<forall>x. q = Some x \<longrightarrow> p < x \<and> x \<le> e) \<and> (\<forall>x. w = Some x \<longrightarrow> e < 2 ^ 15 \<longrightarrow> value_wf x))"

lemma decode_container_safe:
  assumes v: "valid_range buffer 0 hi" "hi < 2 ^ 22" and p: "0 \<le> p" "p < q" "0 \<le> n" "q + n \<le> e" "e \<le> hi" and tag: "tag = 0xa1 \<or> tag = (0xa2 :: byte)"
    and dec: "\<And>p q. 0 \<le> p \<Longrightarrow> p < q \<Longrightarrow> q \<le> e \<Longrightarrow> decodes_safely p q (dec p q)"
  shows "decodes_safely p e (do {
      elementCount \<leftarrow> getNumberOfElements buffer q n;
      if elementCount < 0 then Some (None, None)
      else do {
        let v = (if tag = 0xa1 then MmsValue_createEmptyArray elementCount else MmsValue_createEmptyStructure elementCount);
        r \<leftarrow> decode_elements dec buffer e (nat elementCount) 0 v q;
        Some (case r of None \<Rightarrow> (None, None) | Some (v, bufPos) \<Rightarrow> (Some v, Some bufPos)) } })"
proof -
  obtain c where c: "getNumberOfElements buffer q n = Some c" "c = - 1 \<or> 0 \<le> c"
    using getNumberOfElements_safe [OF v, of q "q + n" 0] p by (auto simp: getNumberOfElements_def)
  let ?Q = "\<lambda>x. e < 2 ^ 15 \<longrightarrow> value_wf x"
  have "\<exists>w r. dec p q = Some (w, r) \<and> (\<forall>x. w = Some x \<longrightarrow> ?Q x)" if "0 \<le> p" "p < q" "q \<le> e" for p q
    using dec [OF that] that(3) unfolding decodes_safely_def by auto
  note loop = decode_elements_safe [OF v p(5), of dec ?Q q 0, OF this]
  have "decodes_safely p e (do {
        r \<leftarrow> decode_elements dec buffer e (nat c) 0 (V_structure t 0 (replicate (nat c) None)) q;
        Some (case r of None \<Rightarrow> (None, None) | Some (v, bufPos) \<Rightarrow> (Some v, Some bufPos)) })"
    if "0 \<le> c" "t \<in> {MMS_ARRAY, MMS_STRUCTURE}" for t
    using loop [of "nat c" "replicate (nat c) None" t 0] p that
    by (auto simp: decodes_safely_def components_wf_alt)
  then show ?thesis using c tag by (auto simp: decodes_safely_def MmsValue_createEmptyArray_def MmsValue_createEmptyStructure_def)
qed

text \<open>The rounds of the decoder: a container and a value without components.\<close>

definition empty_refused :: "byte \<Rightarrow> int \<Rightarrow> bool" where
  "empty_refused tag n \<longleftrightarrow> tag \<noteq> 0 \<and> tag \<noteq> 0x8a \<and> tag \<noteq> 0x90 \<and> tag \<noteq> 0x89 \<and> n = 0"

lemma decode_container:
  assumes "depth + 1 \<le> maxDepth" and "1 \<le> e" and "decodeTL buffer p e = Some (Some (tag, q, n))" and "\<not> empty_refused tag n" and "tag = 0xa1 \<or> tag = 0xa2"
  shows "MmsValue_decodeMmsDataRecursive h junk buffer p e depth maxDepth = do {
      elementCount \<leftarrow> getNumberOfElements buffer q n;
      if elementCount < 0 then Some (None, None)
      else do {
        let v = (if tag = 0xa1 then MmsValue_createEmptyArray elementCount else MmsValue_createEmptyStructure elementCount);
        r \<leftarrow> decode_elements (\<lambda>a b. MmsValue_decodeMmsDataRecursive h junk buffer a b (Suc depth) maxDepth) buffer e (nat elementCount) 0 v q;
        Some (case r of None \<Rightarrow> (None, None) | Some (v, bufPos) \<Rightarrow> (Some v, Some bufPos)) } }"
  using assms unfolding empty_refused_def by (subst MmsValue_decodeMmsDataRecursive.simps) (simp, fast?)

lemma decode_simple:
  assumes "depth + 1 \<le> maxDepth" and "1 \<le> e" and "decodeTL buffer p e = Some (Some (tag, q, n))" and "\<not> empty_refused tag n" and "tag \<noteq> 0xa1" and "tag \<noteq> 0xa2"
  shows "MmsValue_decodeMmsDataRecursive h junk buffer p e depth maxDepth = do {
      r \<leftarrow> decode_leaf h junk tag buffer q n;
      Some (case r of None \<Rightarrow> (None, None) | Some v \<Rightarrow> (v, Some (if tag = 0 then q else q + n))) }"
  using assms unfolding empty_refused_def by (subst MmsValue_decodeMmsDataRecursive.simps) (simp, fast?)

lemma decode_refused:
  assumes "decodeTL buffer p e = Some None \<or> (\<exists>tag q n. decodeTL buffer p e = Some (Some (tag, q, n)) \<and> empty_refused tag n) \<or> e < 1 \<or> maxDepth < depth + 1"
  shows "MmsValue_decodeMmsDataRecursive h junk buffer p e depth maxDepth = Some (None, None)"
  using assms unfolding empty_refused_def by (subst MmsValue_decodeMmsDataRecursive.simps) (auto simp: Let_def)

lemma decode_safe:
  assumes h: "hal_ok h" "length (snd junk) = 8" and v: "valid_range buffer 0 hi" "hi < 2 ^ 22"
  shows "0 \<le> p \<Longrightarrow> p < hi \<Longrightarrow> e \<le> hi \<Longrightarrow> decodes_safely p e (MmsValue_decodeMmsDataRecursive h junk buffer p e depth maxDepth)"
proof (induction "maxDepth - depth" arbitrary: p e depth)
  case 0
  then show ?case using decode_refused [of buffer p e maxDepth depth h junk] by (simp add: decodes_safely_def)
next
  case (Suc k)
  have d: "depth + 1 \<le> maxDepth" using Suc.hyps(2) by simp
  have IH: "decodes_safely a b (MmsValue_decodeMmsDataRecursive h junk buffer a b (Suc depth) maxDepth)" if "0 \<le> a" "a < b" "b \<le> e" for a b
    using Suc.hyps(1) [of "Suc depth"] Suc.hyps(2) Suc.prems that by simp
  have e22: "e < 2 ^ 22" using Suc.prems v(2) by simp
  from decodeTL_safe [OF v(1) this order_refl Suc.prems(1,2,3)]
  consider "decodeTL buffer p e = Some None"
    | tag q n where "decodeTL buffer p e = Some (Some (tag, q, n))" "p + 1 < q" "0 \<le> n" "q + n \<le> e" by blast
  then show ?case
  proof cases
    case 1
    then show ?thesis using decode_refused by (simp add: decodes_safely_def)
  next
    case (2 tag q n)
    then have e: "1 \<le> e" "0 \<le> p" "p < q" using Suc.prems by simp_all
    show ?thesis
    proof (cases "empty_refused tag n")
      case True
      with 2(1) have "MmsValue_decodeMmsDataRecursive h junk buffer p e depth maxDepth = Some (None, None)" by (intro decode_refused) blast
      then show ?thesis by (simp add: decodes_safely_def)
    next
      case ne: False
      show ?thesis
      proof (cases "tag = 0xa1 \<or> tag = 0xa2")
        case True
        show ?thesis unfolding decode_container [OF d e(1) 2(1) ne True]
          by (rule decode_container_safe [OF v e(2,3) 2(3,4) Suc.prems(3) True IH])
      next
        case False
        obtain r where r: "decode_leaf h junk tag buffer q n = Some r" "\<forall>w. r = Some (Some w) \<longrightarrow> n < 2 ^ 15 \<longrightarrow> value_wf w"
          using decode_leaf_safe [OF h v, of q n tag] Suc.prems 2 ne by (auto simp: empty_refused_def)
        then show ?thesis using decode_simple [OF d e(1) 2(1) ne] False 2 Suc.prems by (auto simp: decodes_safely_def split: option.split)
      qed
    qed
  qed
qed

section \<open>The bound on the size\<close>

lemma determineLengthSize_range: "1 \<le> BerEncoder_determineLengthSize w \<and> BerEncoder_determineLengthSize w \<le> 4"
  by (simp add: BerEncoder_determineLengthSize_def)

lemma sized_mono:
  assumes "0 \<le> a" and "a \<le> b" and "a < 2 ^ 31"
  shows "1 + a + BerEncoder_determineLengthSize (word_of_int a) \<le> 1 + b + BerEncoder_determineLengthSize (word_of_int b)"
proof (cases "b < 2 ^ 32")
  case True
  then have "uint (word_of_int a :: 32 word) = a" "uint (word_of_int b :: 32 word) = b" using assms by (simp_all add: uint32_of_int)
  then show ?thesis using assms(2) by (auto simp: BerEncoder_determineLengthSize_def word_less_def)
next
  case False
  then have "a + 4 \<le> b" using assms(3) by simp
  then show ?thesis using determineLengthSize_range [of "word_of_int a"] determineLengthSize_range [of "word_of_int b"] by simp
qed

lemma i32_SomeD: "i32 x = Some y \<Longrightarrow> y = x \<and> x < 2 ^ 31"
  by (simp add: i32_def split: if_splits)

lemma leaf_size_bound:
  assumes "leaf_wf v" and "is_leaf v" and "encodedSize le v = Some n" and "MmsValue_getMaxEncodedSize v = Some m"
  shows "0 \<le> n \<and> n \<le> m"
proof (cases v)
  case (V_visibleString t d buf k)
  then obtain b cs where b: "buf = Some b" "c_string b = Some cs" "int (length b) = sint k + 1" using assms(1) by (auto simp: c_string_def split: option.splits)
  have l: "int (length cs) \<le> sint k" "int (length cs) < 2 ^ 31" using c_string_SomeD [OF b(2)] b(3) sint_lt [of k] by simp_all
  have "n = 1 + int (length cs) + BerEncoder_determineLengthSize (word_of_int (int (length cs)))"
    using assms(3) b V_visibleString by (simp add: string_of_def BerEncoder_determineEncodedStringSize_def)
  moreover have "m = 1 + sint k + BerEncoder_determineLengthSize (word_of_int (sint k))"
    using assms(4) l(1) V_visibleString by (simp add: Let_def)
  ultimately show ?thesis using sized_mono [of "int (length cs)" "sint k"] l determineLengthSize_range [of "word_of_int (int (length cs))"] by simp
next
  case (V_octetString d k maxSize buf)
  define M where "M = \<bar>maxSize\<bar>"
  have k: "0 \<le> uint k" "uint k \<le> M" "uint k < 2 ^ 31"
    using assms(1) V_octetString unsigned_less [of k, where 'a = int] by (simp_all add: M_def)
  have "n = 1 + uint k + BerEncoder_determineLengthSize (word_of_int (uint k))" "m = 1 + M + BerEncoder_determineLengthSize (word_of_int M)"
    using V_octetString assms(3,4) by (simp_all add: Let_def M_def)
  then show ?thesis using sized_mono [OF k] determineLengthSize_range [of "word_of_int (uint k)"] k(1) by presburger
next
  case (V_integer t d i)
  then show ?thesis using assms by (auto simp: pv_wf_def word_le_def)
next
  case (V_dataAccessError d e)
  then show ?thesis using assms uint32_octets_len [of e] by (auto simp: UInt32determineEncodedSize_eq)
next
  case (V_bitString d k buf)
  then have k: "0 \<le> k" using assms(1) by simp
  then have "0 \<le> bit_string_byte_size k" by (simp add: bit_string_byte_size_def Let_def pos_imp_zdiv_nonneg_iff add_increasing2)
  then have "0 \<le> BerEncoder_determineEncodedBitStringSize k"
    using determineLengthSize_range [of "word_of_int (bit_string_byte_size k)"] by (simp add: BerEncoder_determineEncodedBitStringSize_def Let_def)
  then show ?thesis using V_bitString k assms(3,4) by simp
qed (use assms in auto)

lemma value_size_bound:
  "value_wf v \<Longrightarrow> encodedSize le v = Some n \<Longrightarrow> MmsValue_getMaxEncodedSize v = Some m \<Longrightarrow> 0 \<le> n \<and> n \<le> m"
  and components_size_bound:
  "components_wf xs \<Longrightarrow> encodedSize_components le xs = Some k \<Longrightarrow> MmsValue_getMaxStructSize xs = Some l \<Longrightarrow> 0 \<le> k \<and> k \<le> l"
proof (induction v and xs arbitrary: n m and k l rule: value_wf_components_wf.induct)
  case (1 t d xs)
  obtain k l where k: "encodedSize_components le xs = Some k" "n = 1 + k + BerEncoder_determineLengthSize (word_of_int k)" "n < 2 ^ 31"
    and l: "MmsValue_getMaxStructSize xs = Some l" "m = 1 + l + BerEncoder_determineLengthSize (word_of_int l)"
    using "1.prems"(2,3) by (auto simp: bind_eq_Some_conv dest!: i32_SomeD)
  have "0 \<le> k" "k \<le> l" using "1.IH" [OF _ k(1) l(1)] "1.prems"(1) by simp_all
  then show ?case using sized_mono [of k l] k(2,3) l(2) determineLengthSize_range [of "word_of_int k"] by simp
next
  case (4 x xs)
  then obtain v n m k' l' where v: "x = Some v" "value_wf v" "components_wf xs" "encodedSize le v = Some n" "MmsValue_getMaxEncodedSize v = Some m"
      "encodedSize_components le xs = Some k'" "MmsValue_getMaxStructSize xs = Some l'" "k = n + k'" "l = m + l'"
    by (auto simp: bind_eq_Some_conv split: option.splits dest!: i32_SomeD)
  have "0 \<le> n \<and> n \<le> m" using 4(1) [OF v(1,2,4,5)] .
  moreover have "0 \<le> k' \<and> k' \<le> l'" using 4(2) [OF v(3,6,7)] .
  ultimately show ?case using v(8,9) by simp
qed (use leaf_size_bound in \<open>auto simp del: leaf_wf.simps encodedSize.simps MmsValue_getMaxEncodedSize.simps\<close>)

section \<open>Properties\<close>

interpretation octet_writer: byte_encoder emit "\<lambda>xs. xs"
  by unfold_locales simp

lemma example_value_octets:
  "mms_octets le example_value = [0xa2, 11, 0x83, 1, 1, 0x84, 2, 5, 0xa0, 0x8a, 2, 0x61, 0x62]" "sizes_ok le example_value"
  by (simp_all add: example_value_def tlv_short string_octets_def bit_string_octets_def Let_def bit_string_byte_size_def bitStringByteSize_def)



text \<open>
  C33: \<open>MmsValue_getMaxEncodedSize\<close> is an upper bound: no value is announced with more octets than
  this function returns, whatever it holds at the moment.
\<close>

theorem max_encoded_size_bounds:
  assumes "value_wf v" and "encodedSize le v = Some n" and "MmsValue_getMaxEncodedSize v = Some m"
  shows "0 \<le> n \<and> n \<le> m"
  using value_size_bound [OF assms] .

theorem max_encoded_size_bounds_witness:
  "\<exists>n m. encodedSize True example_value = Some n \<and> MmsValue_getMaxEncodedSize example_value = Some m \<and> n \<le> m"
proof -
  have e: "encodedSize True example_value = Some 13"
    using encodes_value [OF example_values_wf(1) example_value_octets(2)] by (simp add: encodes_def example_value_octets(1))
  moreover have m: "MmsValue_getMaxEncodedSize example_value = Some 13"
    by (simp add: example_value_def BerEncoder_determineLengthSize_def BerEncoder_determineEncodedBitStringSize_def bit_string_byte_size_def i32_def)
  ultimately show ?thesis using max_encoded_size_bounds [OF example_values_wf(1) e m] by simp
qed

text \<open>
  C9: Decoding any message of less than 4 MiB terminates without undefined behaviour, at every
  nesting of structures and arrays: the position reported lies behind the tag and inside the
  announced end, and a value decoded from a message of less than 32 KiB is well-formed.
\<close>

theorem data_decoding_safe:
  assumes "hal_ok h" and "length (snd junk) = 8" and "valid_range buffer 0 hi" and "hi < 2 ^ 22"
    and "0 \<le> bufPos" and "bufPos < hi" and "bufferLength \<le> hi"
  shows "\<exists>v endBufPos. MmsValue_decodeMmsData h junk buffer bufPos bufferLength = Some (v, endBufPos) \<and>
    (\<forall>p. endBufPos = Some p \<longrightarrow> bufPos < p \<and> p \<le> bufferLength) \<and>
    (\<forall>w. v = Some w \<longrightarrow> bufferLength < 2 ^ 15 \<longrightarrow> value_wf w)"
  using decode_safe [OF assms, of 0 25]
  unfolding decodes_safely_def MmsValue_decodeMmsData_def MmsValue_decodeMmsDataMaxRecursion_def .

theorem data_decoding_safe_witness:
  "\<exists>v endBufPos. MmsValue_decodeMmsData plain_hal (0, replicate 8 0) ([0xa2, 0x80, 0xa1, 0x03, 0x85, 0x01, 0x05, 0x00, 0x00], 0) 0 9 = Some (v, endBufPos) \<and>
    (\<forall>p. endBufPos = Some p \<longrightarrow> 0 < p \<and> p \<le> 9)"
  using data_decoding_safe [OF plain_hal_ok, of "(0, replicate 8 0)" "([0xa2, 0x80, 0xa1, 0x03, 0x85, 0x01, 0x05, 0x00, 0x00], 0)" 9 0 9]
  by (auto simp: valid_range_def)

text \<open>
  The size announced for a bit string whose octets just fit a short length is one octet too small:
  the octet for the number of padding bits is not counted when the length of the length is chosen.
\<close>

theorem bit_string_size_short:
  "length buf = 127 \<Longrightarrow> encodedSize le (V_bitString d 1016 buf) = Some 130 \<and> length (mms_octets le (V_bitString d 1016 buf)) = 131 \<and>
   MmsValue_encodeMmsData le (V_bitString d 1016 buf) = emit (mms_octets le (V_bitString d 1016 buf))"
proof (intro conjI)
  assume l: "length buf = 127"
  show "encodedSize le (V_bitString d 1016 buf) = Some 130"
    by (simp add: BerEncoder_determineEncodedBitStringSize_def bit_string_byte_size_def BerEncoder_determineLengthSize_def)
  show "length (mms_octets le (V_bitString d 1016 buf)) = 131"
    using l by (simp add: length_tlv length_bit_string_octets length_len_octets)
  have "rdn (buf, 0) 0 127 = Some buf" using l by (simp add: rdn_take)
  then have "BerEncoder_encodeBitString 0x84 1016 (buf, 0) s = emit (tlv 0x84 (bit_string_octets 1016 buf)) s" for s
    using encodeBitString_emits [of 1016 "(buf, 0)" buf "0x84" s] l
    by (simp add: bit_string_byte_size_def tlv_def tl_octets_def length_bit_string_octets)
  then show "MmsValue_encodeMmsData le (V_bitString d 1016 buf) = emit (mms_octets le (V_bitString d 1016 buf))"
    by (intro ext) simp
qed

end
