(* ===== verification/Mms_Data_Roundtrip.thy ===== *)
theory Mms_Data_Roundtrip
  imports Mms_Data_Props
begin

text \<open>
  What the encoder writes for a value is decoded to an equal value.
\<close>

declare split_paired_All [simp del] split_paired_Ex [simp del]

section \<open>Tag and contents\<close>

fun data_tag :: "MmsValue \<Rightarrow> byte" where
  "data_tag (V_boolean d b) = 0x83"
| "data_tag (V_structure t d xs) = (if t = MMS_ARRAY then 0xa1 else 0xa2)"
| "data_tag (V_dataAccessError d e) = 0x80"
| "data_tag (V_visibleString t d buf n) = (if t = MMS_VISIBLE_STRING then 0x8a else 0x90)"
| "data_tag (V_integer t d i) = (if t = MMS_UNSIGNED then 0x86 else 0x85)"
| "data_tag (V_utcTime d buf) = 0x91"
| "data_tag (V_bitString d n buf) = 0x84"
| "data_tag (V_binaryTime d n buf) = 0x8c"
| "data_tag (V_octetString d n maxSize buf) = 0x89"
| "data_tag (V_floatingPoint d ew fw buf) = 0x87"

fun contents :: "bool \<Rightarrow> MmsValue \<Rightarrow> byte list" where
  "contents le (V_boolean d b) = [if b then 1 else 0]"
| "contents le (V_structure t d xs) = components_octets le xs"
| "contents le (V_dataAccessError d e) = uint32_octets e"
| "contents le (V_visibleString t d buf n) = string_octets buf"
| "contents le (V_integer t d i) = pv_bytes i"
| "contents le (V_utcTime d buf) = buf"
| "contents le (V_bitString d n buf) = bit_string_octets n buf"
| "contents le (V_binaryTime d n buf) = take (unat n) buf"
| "contents le (V_octetString d n maxSize buf) = take (unat n) buf"
| "contents le (V_floatingPoint d ew fw buf) = ew # (let xs = take (nat (uint fw div 8)) buf in if le then rev xs else xs)"

lemma mms_octets_tlv: "mms_octets le v = tlv (data_tag v) (contents le v)"
  by (cases v) simp_all

text \<open>
  The values whose octets the decoder accepts: integers of at most eight octets, clear padding bits,
  and structures and arrays that are not empty and have no component of type \<open>MMS_STRING\<close>.
\<close>

fun decodable :: "MmsValue \<Rightarrow> bool" and components_decodable :: "MmsValue option list \<Rightarrow> bool" where
  "decodable (V_structure t d xs) \<longleftrightarrow> xs \<noteq> [] \<and> components_decodable xs"
| "decodable (V_bitString d n buf) \<longleftrightarrow> bit_string_octets n buf = word_of_int (bitStringByteSize n * 8 - n) # buf"
| "decodable (V_integer t d i) \<longleftrightarrow> pv_size i \<le> 8"
| "decodable v \<longleftrightarrow> True"
| "components_decodable [] \<longleftrightarrow> True"
| "components_decodable (x # xs) \<longleftrightarrow> (case x of None \<Rightarrow> False | Some v \<Rightarrow> decodable v \<and> MmsValue_getType v \<noteq> MMS_STRING) \<and> components_decodable xs"

text \<open>The levels of nesting of a value.\<close>

fun value_depth :: "MmsValue \<Rightarrow> nat" and components_depth :: "MmsValue option list \<Rightarrow> nat" where
  "value_depth (V_structure t d xs) = Suc (components_depth xs)"
| "value_depth v = 1"
| "components_depth [] = 0"
| "components_depth (x # xs) = max (case x of None \<Rightarrow> 0 | Some v \<Rightarrow> value_depth v) (components_depth xs)"

section \<open>Values without components\<close>

definition leaf_decoded :: "HalApi \<Rightarrow> byte \<times> byte list \<Rightarrow> ptr \<Rightarrow> int \<Rightarrow> MmsValue \<Rightarrow> bool" where
  "leaf_decoded h junk buffer q v \<longleftrightarrow> (\<exists>v'. decode_leaf h junk (data_tag v) buffer q (int (length (contents (hal_le h) v))) = Some (Some (Some v')) \<and>
     MmsValue_getType v' = MmsValue_getType v \<and> equals_leaf v v' = Some True)"

lemma leaf_decoded_bits:
  assumes "leaf_wf (V_bitString d n buf)" and "decodable (V_bitString d n buf)" and "holds buffer q (bit_string_octets n buf)"
  shows "leaf_decoded h junk buffer q (V_bitString d n buf)"
proof -
  have n: "0 \<le> n" "n < 2 ^ 31 - 8" "int (length buf) = bitStringByteSize n" using assms(1) by auto
  define p where "p = bitStringByteSize n * 8 - n"
  have p: "0 \<le> p" "p < 8" unfolding p_def using n(1) bitStringByteSize_nonneg(2) [OF n(1)] by presburger+
  have c: "bit_string_octets n buf = word_of_int p # buf" using assms(2) by (simp only: decodable.simps p_def)
  have r: "rd buffer q = Some (word_of_int p)" "rdn buffer (q + 1) (length buf) = Some buf" using assms(3) unfolding c holds_def rdn_Cons by simp_all
  have u: "uint (word_of_int p :: byte) = p" unfolding uint_byte_of_int using p by (intro mod_pos_pos_trivial) simp_all
  then have np: "\<not> 7 < (word_of_int p :: byte)" using p by (simp add: word_less_def)
  have b: "8 * int (length buf) - p = n" using n(3) p_def by presburger
  then have "8 * int (length buf) < 2 ^ 31" using n(2) p by presburger
  then have i: "i32 (8 * int (length buf)) = Some (8 * int (length buf))" by (intro i32_Some) simp_all
  have "store_octets (MmsValue_newBitString n) buf = Some (V_bitString 0 n buf)"
    using n by (simp add: MmsValue_newBitString_def set_octets_fits)
  then have "decode_leaf h junk 0x84 buffer q (int (length (bit_string_octets n buf))) = Some (Some (Some (V_bitString 0 n buf)))"
    unfolding c using r np i u by (simp add: decode_leaf_def b)
  then show ?thesis using n by (auto simp: leaf_decoded_def equals_leaf_def same_bytes_take)
qed

lemma leaf_decoded_integer:
  assumes "leaf_wf (V_integer t d i)" and "pv_size i \<le> 8" and "holds buffer q (pv_bytes i)"
  shows "leaf_decoded h junk buffer q (V_integer t d i)"
proof -
  have wf: "pv_wf i" "t = MMS_INTEGER \<or> t = MMS_UNSIGNED" using assms(1) by simp_all
  let ?xs = "pv_bytes i"
  have l: "length ?xs = unat (pv_size i)" "0 < length ?xs" "length ?xs \<le> 8"
    using pv_wf_bytes [OF wf(1)] assms(2) by (auto simp: word_le_nat_alt simp flip: length_greater_0_conv)
  define m :: int where "m = (if int (length ?xs) * 8 \<le> 32 then 5 else 9)"
  let ?j = "\<lparr>pv_size = pv_size i, pv_maxSize = word_of_int m, pv_octets = ?xs @ replicate (nat m - length ?xs) 0\<rparr>"
  have "m = 5 \<and> length ?xs \<le> 4 \<or> m = 9 \<and> length ?xs \<le> 8" unfolding m_def using l(3) by presburger
  then have m: "length ?xs \<le> nat m" "m = 5 \<or> m = 9" by (elim disjE conjE; simp only:; simp)+
  have s: "word_of_int (int (length ?xs)) = pv_size i" by (simp add: l(1))
  have st: "store_octets (V_integer t 0 \<lparr>pv_size = 1, pv_maxSize = word_of_int m, pv_octets = replicate (nat m) 0\<rparr>) ?xs = Some (V_integer t 0 ?j)"
    using m(1) s by (simp add: set_octets_fits)
  have "(if t = MMS_UNSIGNED then MmsValue_newUnsigned (int (length ?xs) * 8) else MmsValue_newInteger (int (length ?xs) * 8)) =
      Some (V_integer t 0 \<lparr>pv_size = 1, pv_maxSize = word_of_int m, pv_octets = replicate (nat m) 0\<rparr>)"
    using wf(2) by (auto simp: MmsValue_newInteger_def MmsValue_newUnsigned_def BerInteger_createInt32_def BerInteger_createInt64_def Asn1PrimitiveValue_create_def m_def)
  then have dec: "decode_leaf h junk (data_tag (V_integer t d i)) buffer q (int (length ?xs)) = Some (Some (Some (V_integer t 0 ?j)))"
    using wf(2) l(3) st assms(3) by (auto simp: decode_leaf_def holds_def)
  have "unat (word_of_int m :: byte) = nat m" using m(2) by auto
  moreover have "0 < pv_size i" "pv_size i \<le> word_of_int m" using wf(1) m l by (auto simp: pv_wf_def word_le_nat_alt)
  ultimately have "pv_wf ?j" using m(1) by (simp add: pv_wf_def)
  moreover have "pv_bytes ?j = ?xs" using l(1) by (simp add: pv_bytes_def)
  ultimately have "Asn1PrimitivaValue_compare i ?j = Some True" using compare_pv [OF wf(1)] by simp
  then show ?thesis unfolding leaf_decoded_def using dec by (intro exI [of _ "V_integer t 0 ?j"]) (simp add: equals_leaf_def)
qed

lemma leaf_decoded_float:
  assumes "leaf_wf (V_floatingPoint d ew fw buf)" and "holds buffer q (contents (hal_le h) (V_floatingPoint d ew fw buf))" and "length (snd junk) = 8"
  shows "leaf_decoded h junk buffer q (V_floatingPoint d ew fw buf)"
proof -
  have l: "length buf = 8" "fw = 32 \<or> fw = 64" using assms(1) by simp_all
  have r: "rdn buffer (q + 1) (nat (uint fw div 8)) = Some (let xs = take (nat (uint fw div 8)) buf in if hal_le h then rev xs else xs)"
    using assms(2) l by (auto simp: holds_def Let_def bind_eq_Some_conv)
  from l(2) show ?thesis
  proof
    assume "fw = 32"
    then show ?thesis using r l assms(3)
      by (auto simp: leaf_decoded_def decode_leaf_def BerDecoder_decodeFloat_def MmsValue_newFloat_def set_octets_fits equals_leaf_def same_bytes_take Let_def)
  next
    assume "fw = 64"
    then show ?thesis using r l
      by (auto simp: leaf_decoded_def decode_leaf_def BerDecoder_decodeDouble_def MmsValue_newDouble_def set_octets_fits equals_leaf_def same_bytes_take Let_def)
  qed
qed

lemma leaf_decoded_string:
  assumes "leaf_wf (V_visibleString t d buf n)" and "holds buffer q (string_octets buf)" and "hal_ok h"
  shows "leaf_decoded h junk buffer q (V_visibleString t d buf n)"
proof -
  have t: "t = MMS_VISIBLE_STRING \<or> t = MMS_STRING" using assms(1) by simp
  obtain b cs where b: "buf = Some b" "c_string b = Some cs" using assms(1) by (auto simp: c_string_def split: option.splits)
  then have cs: "string_octets buf = cs" by (auto simp: string_octets_def c_string_def split: if_splits)
  have "c_string (cs @ [0]) = Some cs" using c_string_SomeD [OF b(2)] by simp
  then show ?thesis
    using t b cs new_string_from_octets(1) [OF assms(3), of buffer q "int (length cs)" cs MMS_VISIBLE_STRING] assms(2)
    by (auto simp: leaf_decoded_def decode_leaf_def MmsValue_newVisibleStringFromByteArray_def equals_leaf_def holds_def)
qed

lemma leaf_decoded_octets:
  assumes "leaf_wf (V_octetString d n maxSize buf)" and "holds buffer q (take (unat n) buf)"
  shows "leaf_decoded h junk buffer q (V_octetString d n maxSize buf)"
proof -
  have "uint n \<le> int (length buf)" using assms(1) by simp
  then have l: "unat n \<le> length buf" by (simp flip: of_nat_le_iff [where 'a = int])
  then show ?thesis using assms(2)
    by (simp add: leaf_decoded_def decode_leaf_def MmsValue_newOctetString_def set_octets_fits equals_leaf_def same_bytes_take holds_def)
qed

lemma leaf_decoded_other:
  assumes "hal_ok h"
  shows "holds buffer q [if b then 1 else 0] \<Longrightarrow> leaf_decoded h junk buffer q (V_boolean d b)"
    and "holds buffer q (uint32_octets e) \<Longrightarrow> leaf_decoded h junk buffer q (V_dataAccessError d e)"
    and "leaf_wf (V_utcTime d buf) \<Longrightarrow> holds buffer q buf \<Longrightarrow> leaf_decoded h junk buffer q (V_utcTime d buf)"
    and "leaf_wf (V_binaryTime d n buf) \<Longrightarrow> holds buffer q (take (unat n) buf) \<Longrightarrow> leaf_decoded h junk buffer q (V_binaryTime d n buf)"
proof -
  show "leaf_decoded h junk buffer q (V_boolean d b)" if "holds buffer q [if b then 1 else 0]"
    using that by (simp add: leaf_decoded_def decode_leaf_def BerDecoder_decodeBoolean_def MmsValue_newBoolean_def equals_leaf_def)
  have "be_uint (uint32_octets e) = uint e" using be_uint_nonneg [of "uint32_octets e"] by (simp add: uint32_octets_value)
  then show "leaf_decoded h junk buffer q (V_dataAccessError d e)" if "holds buffer q (uint32_octets e)"
    using that decodeUint32_value [of buffer q "length (uint32_octets e)" "uint32_octets e"]
    by (simp add: leaf_decoded_def decode_leaf_def MmsValue_newDataAccessError_def equals_leaf_def holds_def)
  show "leaf_decoded h junk buffer q (V_utcTime d buf)" if "leaf_wf (V_utcTime d buf)" "holds buffer q buf"
    using that by (auto simp: leaf_decoded_def decode_leaf_def MmsValue_newUtcTime_def set_octets_fits native_bytes_def equals_leaf_def same_bytes_take holds_def)
  show "leaf_decoded h junk buffer q (V_binaryTime d n buf)" if "leaf_wf (V_binaryTime d n buf)" "holds buffer q (take (unat n) buf)"
    using that by (auto simp: leaf_decoded_def decode_leaf_def MmsValue_newBinaryTime_def set_octets_fits equals_leaf_def same_bytes_take holds_def)
qed

lemma leaf_is_decoded:
  assumes "is_leaf v" and "leaf_wf v" and "decodable v" and "holds buffer q (contents (hal_le h) v)" and "hal_ok h" and "length (snd junk) = 8"
  shows "leaf_decoded h junk buffer q v"
  using assms leaf_decoded_other [OF assms(5), where buffer = buffer and q = q and junk = junk]
    leaf_decoded_octets leaf_decoded_string [OF _ _ assms(5)] leaf_decoded_float [OF _ _ assms(6)]
    leaf_decoded_integer leaf_decoded_bits
  by (cases v) (simp_all del: leaf_wf.simps)

section \<open>Structures and arrays\<close>

lemma element_bounds:
  assumes "0 \<le> p" and "p + int (length (tlv tag c)) \<le> e" and "e < 2 ^ 22"
  shows "length c < 2 ^ 24" and "0 \<le> p + int (length (tlv tag c)) - int (length c)" and "p < e" and "e < 2 ^ 30"
proof -
  define n m where "n = length c" and "m = length (tlv tag c)"
  have l: "n + 2 \<le> m" "p + int m \<le> e" "e < 4194304" unfolding n_def m_def using length_tlv_le [of c tag] assms(2,3) by simp_all
  have "n < 16777216" "0 \<le> p + int m - int n" "p < e" "e < 1073741824" using l assms(1) by presburger+
  then show "length c < 2 ^ 24" "0 \<le> p + int (length (tlv tag c)) - int (length c)" "p < e" "e < 2 ^ 30"
    unfolding n_def m_def by simp_all
qed

lemma element_tag:
  assumes "leaf_wf v \<or> \<not> is_leaf v" and "MmsValue_getType v \<noteq> MMS_STRING"
  shows "data_tag v \<in> set element_tags"
  using assms by (cases v) (auto simp: element_tags_def)

lemma wf_leaf_or_structure: "value_wf v \<Longrightarrow> leaf_wf v \<or> \<not> is_leaf v"
  by (cases v) simp_all

lemma count_elements:
  "components_wf xs \<Longrightarrow> components_decodable xs \<Longrightarrow> holds buffer p (components_octets le xs) \<Longrightarrow> 0 \<le> p \<Longrightarrow>
   e = p + int (length (components_octets le xs)) \<Longrightarrow> e < 2 ^ 22 \<Longrightarrow>
   getNumberOfElements_loop buffer e p i = Some (i + int (length xs))"
proof (induction xs arbitrary: p i)
  case Nil
  then show ?case by (simp add: getNumberOfElements_loop.simps)
next
  case (Cons x xs)
  then obtain v where v: "x = Some v" "value_wf v" "MmsValue_getType v \<noteq> MMS_STRING" "components_wf xs" "components_decodable xs"
    by (auto split: option.splits)
  let ?o = "tlv (data_tag v) (contents le v)" and ?c = "contents le v"
  let ?q = "p + int (length ?o)"
  have h: "holds buffer p ?o" "holds buffer ?q (components_octets le xs)" "e = ?q + int (length (components_octets le xs))"
    using Cons.prems v(1) by (simp_all add: mms_octets_tlv)
  have q: "?q \<le> e" using h(3) by simp
  note b = element_bounds [OF Cons.prems(4) q Cons.prems(6)]
  have "decodeTL buffer p e = Some (Some (data_tag v, ?q - int (length ?c), int (length ?c)))"
    by (rule decodeTL_tlv(1) [OF h(1) b(1) Cons.prems(4) b(4) q])
  moreover have "data_tag v \<in> set element_tags" using element_tag wf_leaf_or_structure v(2,3) by blast
  moreover have "getNumberOfElements_loop buffer e ?q (i + 1) = Some (i + 1 + int (length xs))"
    using Cons.IH [OF v(4,5) h(2) _ h(3)] Cons.prems by simp
  ultimately show ?case using b(3) by (subst getNumberOfElements_loop.simps) simp
qed

text \<open>A value is decoded at \<open>p\<close> to an equal value, whatever end \<open>e\<close> behind its octets is announced.\<close>

definition value_decoded :: "bool \<Rightarrow> (int \<Rightarrow> int \<Rightarrow> (MmsValue option \<times> int option) option) \<Rightarrow> int \<Rightarrow> int \<Rightarrow> MmsValue \<Rightarrow> bool" where
  "value_decoded le dec p e v \<longleftrightarrow> (\<exists>v'. dec p e = Some (Some v', Some (p + int (length (mms_octets le v)))) \<and> MmsValue_equals (Some v) (Some v') = Some True)"

definition components_decoded ::
  "bool \<Rightarrow> (int \<Rightarrow> int \<Rightarrow> (MmsValue option \<times> int option) option) \<Rightarrow> ptr \<Rightarrow> int \<Rightarrow> int \<Rightarrow> MmsValue option list \<Rightarrow> bool" where
  "components_decoded le dec buffer p e xs \<longleftrightarrow> (\<forall>t d ys zs. length zs = length xs \<longrightarrow>
     (\<exists>xs'. decode_elements dec buffer e (length xs) (int (length ys)) (V_structure t d (ys @ zs)) p =
        Some (Some (V_structure t d (ys @ xs'), p + int (length (components_octets le xs)))) \<and>
      length xs' = length xs \<and> equals_components xs xs' = Some True))"

lemma components_decoded_Nil: "components_decoded le dec buffer p e []"
  by (simp add: components_decoded_def)

lemma components_decoded_all:
  "components_decoded le dec buffer p e xs \<Longrightarrow>
   \<exists>xs'. decode_elements dec buffer e (length xs) 0 (V_structure t d (replicate (length xs) None)) p =
       Some (Some (V_structure t d xs', p + int (length (components_octets le xs)))) \<and>
     length xs' = length xs \<and> equals_components xs xs' = Some True"
  unfolding components_decoded_def
  by (drule spec [of _ t], drule spec [of _ d], drule spec [of _ "[]"], drule spec [of _ "replicate (length xs) None"]) simp

lemma components_decoded_Cons:
  assumes h: "holds buffer p (mms_octets le v)" and p: "0 \<le> p" "p + int (length (mms_octets le v)) \<le> e" "e < 2 ^ 22"
    and v: "value_decoded le dec p (p + int (length (mms_octets le v))) v"
    and xs: "components_decoded le dec buffer (p + int (length (mms_octets le v))) e xs"
  shows "components_decoded le dec buffer p e (Some v # xs)"
  unfolding components_decoded_def
proof (intro allI impI)
  fix t d and ys zs :: "MmsValue option list"
  assume "length zs = length (Some v # xs)"
  then obtain z zs' where z: "zs = z # zs'" "length zs' = length xs" by (cases zs) auto
  let ?c = "contents le v" and ?q = "p + int (length (mms_octets le v))"
  note b = element_bounds [OF p(1) p(2) [unfolded mms_octets_tlv] p(3)]
  have "decodeLength_or_fail buffer (p + 1) e = Some (Some (?q - int (length ?c), int (length ?c)))"
    using decodeLength_tlv(2) [OF h [unfolded mms_octets_tlv] b(1) p(1) b(4) p(2) [unfolded mms_octets_tlv]] by (simp add: mms_octets_tlv)
  moreover obtain v' r where v': "dec p ?q = Some (Some v', r)" "MmsValue_equals (Some v) (Some v') = Some True"
    using v by (auto simp: value_decoded_def)
  moreover have i: "int (length (ys @ [Some v'])) = int (length ys) + 1" by simp
  moreover obtain xs' where xs': "decode_elements dec buffer e (length xs) (int (length ys) + 1) (V_structure t d ((ys @ [Some v']) @ zs')) ?q =
      Some (Some (V_structure t d ((ys @ [Some v']) @ xs'), ?q + int (length (components_octets le xs))))"
      "length xs' = length xs" "equals_components xs xs' = Some True"
    using xs z(2) unfolding components_decoded_def i [symmetric] by blast
  moreover have "MmsValue_setElement (V_structure t d (ys @ z # zs')) (int (length ys)) (Some v') = V_structure t d ((ys @ [Some v']) @ zs')" by simp
  ultimately show "\<exists>xs'. decode_elements dec buffer e (length (Some v # xs)) (int (length ys)) (V_structure t d (ys @ zs)) p =
      Some (Some (V_structure t d (ys @ xs'), p + int (length (components_octets le (Some v # xs))))) \<and>
      length xs' = length (Some v # xs) \<and> equals_components (Some v # xs) xs' = Some True"
    unfolding z(1) by (intro exI [of _ "Some v' # xs'"]) (simp add: add.assoc)
qed

lemma structure_decoded:
  assumes h: "holds buffer p (mms_octets le (V_structure t d xs))" and p: "0 \<le> p" "p + int (length (mms_octets le (V_structure t d xs))) \<le> e" "e < 2 ^ 22"
    and wf: "value_wf (V_structure t d xs)" "decodable (V_structure t d xs)" and depth: "depth < maxDepth"
    and xs: "\<And>q. 0 \<le> q \<Longrightarrow> holds buffer q (components_octets le xs) \<Longrightarrow> q + int (length (components_octets le xs)) \<le> e \<Longrightarrow>
      components_decoded le (\<lambda>a b. MmsValue_decodeMmsDataRecursive hal junk buffer a b (Suc depth) maxDepth) buffer q e xs"
  shows "value_decoded le (\<lambda>a b. MmsValue_decodeMmsDataRecursive hal junk buffer a b depth maxDepth) p e (V_structure t d xs)"
proof -
  let ?tag = "if t = MMS_ARRAY then 0xa1 else 0xa2 :: byte" and ?c = "components_octets le xs"
  let ?stop = "p + int (length (tlv ?tag ?c))"
  define q where "q = ?stop - int (length ?c)"
  have t: "t = MMS_ARRAY \<or> t = MMS_STRUCTURE" "components_wf xs" "xs \<noteq> []" "components_decodable xs" using wf by auto
  have h': "holds buffer p (tlv ?tag ?c)" and e: "?stop \<le> e" using h p(2) by simp_all
  note b = element_bounds [OF p(1) e p(3)]
  have q: "0 \<le> q" "q + int (length ?c) \<le> e" "1 \<le> e" and qe: "q + int (length ?c) = ?stop"
    unfolding q_def using b(2,3) p(1) e by simp_all
  have TL: "decodeTL buffer p e = Some (Some (?tag, q, int (length ?c)))" and hc: "holds buffer q ?c"
    using decodeTL_tlv [OF h' b(1) p(1) b(4) e] unfolding q_def by simp_all
  obtain v ys where v: "xs = Some v # ys" using t(2,3) by (cases xs) (auto split: option.splits)
  have "?c \<noteq> []" using length_tlv_le [of "contents le v" "data_tag v"] unfolding v by (auto simp: mms_octets_tlv)
  then have ne: "\<not> empty_refused ?tag (int (length ?c))" by (simp add: empty_refused_def)
  have count: "getNumberOfElements buffer q (int (length ?c)) = Some (int (length xs))"
    unfolding getNumberOfElements_def using count_elements [OF t(2,4) hc q(1) refl, of 0] q(2) p(3) by simp
  obtain xs' where xs': "decode_elements (\<lambda>a b. MmsValue_decodeMmsDataRecursive hal junk buffer a b (Suc depth) maxDepth) buffer e (length xs) 0
      (V_structure t 0 (replicate (length xs) None)) q = Some (Some (V_structure t 0 xs', ?stop))" "length xs' = length xs" "equals_components xs xs' = Some True"
    using components_decoded_all [OF xs [OF q(1) hc q(2)], of t 0] unfolding qe by blast
  have "MmsValue_decodeMmsDataRecursive hal junk buffer p e depth maxDepth = Some (Some (V_structure t 0 xs'), Some ?stop)"
    using decode_container [OF _ q(3) TL ne, of depth maxDepth hal junk] depth t(1) count xs'(1)
    by (auto simp: MmsValue_createEmptyArray_def MmsValue_createEmptyStructure_def)
  then show ?thesis using xs'(2,3) by (simp add: value_decoded_def)
qed

lemma leaf_value_decoded:
  assumes "is_leaf v" and "value_wf v" and "decodable v" and h: "holds buffer p (mms_octets (hal_le hal) v)"
    and p: "0 \<le> p" "p + int (length (mms_octets (hal_le hal) v)) \<le> e" "e < 2 ^ 22" and hal: "hal_ok hal" "length (snd junk) = 8" and depth: "depth < maxDepth"
  shows "value_decoded (hal_le hal) (\<lambda>a b. MmsValue_decodeMmsDataRecursive hal junk buffer a b depth maxDepth) p e v"
proof -
  let ?c = "contents (hal_le hal) v"
  let ?stop = "p + int (length (tlv (data_tag v) ?c))"
  define q where "q = ?stop - int (length ?c)"
  have h': "holds buffer p (tlv (data_tag v) ?c)" and e: "?stop \<le> e" using h p(2) by (simp_all add: mms_octets_tlv)
  note b = element_bounds [OF p(1) e p(3)]
  have q: "1 \<le> e" "q + int (length ?c) = ?stop" unfolding q_def using b(3) p(1) by simp_all
  have TL: "decodeTL buffer p e = Some (Some (data_tag v, q, int (length ?c)))" and hc: "holds buffer q ?c"
    using decodeTL_tlv [OF h' b(1) p(1) b(4) e] unfolding q_def by simp_all
  have wf: "leaf_wf v" using assms(1,2) value_leaf_wf by blast
  have "?c \<noteq> []" if "data_tag v \<notin> {0x8a, 0x90, 0x89}"
    using that wf assms(1) pv_wf_bytes uint32_octets_len by (cases v) (auto simp: bit_string_octets_def Let_def split: if_splits)
  then have ne: "\<not> empty_refused (data_tag v) (int (length ?c))" by (auto simp: empty_refused_def)
  have tag: "data_tag v \<noteq> 0xa1" "data_tag v \<noteq> 0xa2" "data_tag v \<noteq> 0" using assms(1) by (cases v; simp)+
  obtain v' where v': "decode_leaf hal junk (data_tag v) buffer q (int (length ?c)) = Some (Some (Some v'))"
      "MmsValue_getType v' = MmsValue_getType v" "equals_leaf v v' = Some True"
    using leaf_is_decoded [OF assms(1) wf assms(3) hc hal] by (auto simp: leaf_decoded_def)
  have "MmsValue_decodeMmsDataRecursive hal junk buffer p e depth maxDepth = Some (Some v', Some ?stop)"
    using decode_simple [OF _ q(1) TL ne tag(1,2), of depth maxDepth hal junk] depth v'(1) tag(3) q(2) by simp
  moreover have "MmsValue_equals (Some v) (Some v') = Some True" using v'(2,3) assms(1) by (intro equals_leafI) simp_all
  ultimately show ?thesis unfolding value_decoded_def mms_octets_tlv by blast
qed

lemma value_is_decoded:
  assumes "hal_ok hal" and "length (snd junk) = 8" and "e < 2 ^ 22"
  shows "value_wf v \<Longrightarrow> decodable v \<Longrightarrow> depth + value_depth v \<le> maxDepth \<Longrightarrow> 0 \<le> p \<Longrightarrow> holds buffer p (mms_octets (hal_le hal) v) \<Longrightarrow>
      p + int (length (mms_octets (hal_le hal) v)) \<le> e' \<Longrightarrow> e' \<le> e \<Longrightarrow>
      value_decoded (hal_le hal) (\<lambda>a b. MmsValue_decodeMmsDataRecursive hal junk buffer a b depth maxDepth) p e' v"
    and "components_wf xs \<Longrightarrow> components_decodable xs \<Longrightarrow> depth + components_depth xs \<le> maxDepth \<Longrightarrow> 0 \<le> p \<Longrightarrow>
      holds buffer p (components_octets (hal_le hal) xs) \<Longrightarrow> p + int (length (components_octets (hal_le hal) xs)) \<le> e' \<Longrightarrow> e' \<le> e \<Longrightarrow>
      components_decoded (hal_le hal) (\<lambda>a b. MmsValue_decodeMmsDataRecursive hal junk buffer a b depth maxDepth) buffer p e' xs"
proof (induction v and xs arbitrary: p e' depth and p e' depth rule: value_wf_components_wf.induct)
  case (1 t d xs)
  then show ?case using assms(3) by (intro structure_decoded) auto
next
  case 3
  show ?case by (rule components_decoded_Nil)
next
  case (4 x xs)
  then obtain v where v: "x = Some v" "value_wf v" "decodable v" "components_wf xs" "components_decodable xs" by (auto split: option.splits)
  have "components_decoded (hal_le hal) (\<lambda>a b. MmsValue_decodeMmsDataRecursive hal junk buffer a b depth maxDepth) buffer p e' (Some v # xs)"
    by (rule components_decoded_Cons) (use 4 v assms(3) in \<open>auto simp: add.assoc\<close>)
  then show ?case using v(1) by simp
qed (use assms in \<open>auto intro!: leaf_value_decoded\<close>)

section \<open>Strings of type \<open>MMS_STRING\<close> inside structures\<close>

lemma count_refused:
  "components_wf xs \<Longrightarrow> \<exists>v. Some v \<in> set xs \<and> MmsValue_getType v = MMS_STRING \<Longrightarrow> holds buffer p (components_octets le xs) \<Longrightarrow> 0 \<le> p \<Longrightarrow>
   e = p + int (length (components_octets le xs)) \<Longrightarrow> e < 2 ^ 22 \<Longrightarrow> getNumberOfElements_loop buffer e p i = Some (- 1)"
proof (induction xs arbitrary: p i)
  case (Cons x xs)
  then obtain v where v: "x = Some v" "value_wf v" "components_wf xs" by (auto split: option.splits)
  let ?o = "tlv (data_tag v) (contents le v)" and ?c = "contents le v"
  let ?q = "p + int (length ?o)"
  have h: "holds buffer p ?o" "holds buffer ?q (components_octets le xs)" "e = ?q + int (length (components_octets le xs))"
    using Cons.prems v(1) by (simp_all add: mms_octets_tlv)
  have q: "?q \<le> e" using h(3) by simp
  note b = element_bounds [OF Cons.prems(4) q Cons.prems(6)]
  have TL: "decodeTL buffer p e = Some (Some (data_tag v, ?q - int (length ?c), int (length ?c)))"
    by (rule decodeTL_tlv(1) [OF h(1) b(1) Cons.prems(4) b(4) q])
  show ?case
  proof (cases "MmsValue_getType v = MMS_STRING")
    case True
    then have "data_tag v = 0x90" using v(2) by (cases v) auto
    then show ?thesis using TL b(3) by (subst getNumberOfElements_loop.simps) (simp add: element_tags_def)
  next
    case False
    then have "getNumberOfElements_loop buffer e ?q (i + 1) = Some (- 1)"
      using Cons.IH [OF v(3) _ h(2) _ h(3)] Cons.prems v(1) by auto
    moreover have "data_tag v \<in> set element_tags" using element_tag wf_leaf_or_structure v(2) False by blast
    ultimately show ?thesis using TL b(3) by (subst getNumberOfElements_loop.simps) simp
  qed
qed simp

section \<open>Properties\<close>



text \<open>
  C34: A structure or array with a component of type \<open>MMS_STRING\<close> is encoded but cannot be decoded:
  \<open>getNumberOfElements\<close> does not know the tag \<open>0x90\<close> that the encoder writes for the component, so
  the decoder rejects the whole value.
\<close>

theorem mms_string_component_refused:
  assumes "value_wf (V_structure t d xs)" and "sizes_ok (hal_le h) (V_structure t d xs)" and "Some v \<in> set xs" and "MmsValue_getType v = MMS_STRING"
    and "MmsValue_encodeMmsData (hal_le h) (V_structure t d xs) (b, pos) = Some (b', pos')" and "0 \<le> pos" and "0 \<le> snd b"
    and "pos' \<le> bufferLength" and "bufferLength < 2 ^ 22"
  shows "MmsValue_decodeMmsData h junk b' pos bufferLength = Some (None, None)"
proof -
  let ?c = "components_octets (hal_le h) xs" and ?tag = "if t = MMS_ARRAY then 0xa1 else 0xa2 :: byte"
  have e: "emit (tlv ?tag ?c) (b, pos) = Some (b', pos')"
    using encodes_value [OF assms(1,2)] assms(5) by (simp only: encodes_def mms_octets.simps)
  have p: "pos' = pos + int (length (tlv ?tag ?c))" using octet_writer.enc_position [OF e] by simp
  have h: "holds b' pos (tlv ?tag ?c)" using octet_writer.enc_bytes [OF e] assms(6,7) by (simp add: holds_def)
  define q where "q = pos' - int (length ?c)"
  note b = element_bounds [OF assms(6) assms(8) [unfolded p] assms(9)]
  have TL: "decodeTL b' pos bufferLength = Some (Some (?tag, q, int (length ?c)))" and hc: "holds b' q ?c"
    using decodeTL_tlv [OF h b(1) assms(6) b(4) assms(8) [unfolded p]] unfolding q_def p by simp_all
  have q: "0 \<le> q" "q + int (length ?c) < 2 ^ 22" "1 \<le> bufferLength" using b(2,3) assms(6,8,9) unfolding q_def p by simp_all
  show ?thesis
  proof (cases "empty_refused ?tag (int (length ?c))")
    case True
    then show ?thesis unfolding MmsValue_decodeMmsData_def MmsValue_decodeMmsDataMaxRecursion_def using TL by (intro decode_refused) blast
  next
    case False
    have "getNumberOfElements b' q (int (length ?c)) = Some (- 1)"
      unfolding getNumberOfElements_def using count_refused [OF _ _ hc q(1) refl q(2)] assms(1,3,4) by auto
    then show ?thesis
      using decode_container [OF _ q(3) TL False, of 0 25 h junk] by (simp add: MmsValue_decodeMmsData_def MmsValue_decodeMmsDataMaxRecursion_def)
  qed
qed

theorem mms_string_component_refused_witness:
  "\<exists>b'. MmsValue_encodeMmsData True (V_structure MMS_STRUCTURE 0 [Some (V_visibleString MMS_STRING 0 (Some [0x61, 0]) 1)]) ((replicate 9 0, 0), 0) = Some (b', 5) \<and>
     MmsValue_decodeMmsData plain_hal (0, replicate 8 0) b' 0 9 = Some (None, None)"
proof -
  let ?v = "V_structure MMS_STRUCTURE 0 [Some (V_visibleString MMS_STRING 0 (Some [0x61, 0]) 1)]"
  have le: "hal_le plain_hal" by (simp add: plain_hal_def)
  have wf: "value_wf ?v" "sizes_ok True ?v" by (simp_all add: tlv_short string_octets_def)
  have o: "mms_octets True ?v = [0xa2, 3, 0x90, 1, 0x61]" by (simp add: tlv_short string_octets_def)
  obtain blk off where "MmsValue_encodeMmsData (hal_le plain_hal) ?v ((replicate 9 0, 0), 0) = Some ((blk, off), 5)"
    using encodes_value [OF wf] le
    by (simp add: encodes_def o emit_valid valid_range_def store_def del: emit.simps mms_octets.simps MmsValue_encodeMmsData.simps)
  then show ?thesis
    using mms_string_component_refused [OF wf(1), of plain_hal _ "(replicate 9 0, 0)" 0 "(blk, off)" 5 9 "(0, replicate 8 0)"] wf(2) le
    by (simp del: mms_octets.simps MmsValue_encodeMmsData.simps value_wf.simps sizes_ok.simps)
qed

end
