(* ===== verification/Spec2Isabelle.thy ===== *)
theory Spec2Isabelle
  imports Ber_Integer Iso_Client_Props Mms_Data_Roundtrip
begin

text \<open>
  Verification of the C implementation of MMS under \<^verbatim>\<open>src/sources/mms\<close>: the stack of protocols
  that carries MMS messages between a client and a server, and the values and types of MMS with
  their encoding.

  \<^bold>\<open>The program.\<close> A message of the MMS layer travels down through ACSE and presentation or presentation
  alone, session, COTP and TPKT to a TCP socket, and up again on the other side. A server drives one
  connection with \<open>IsoConnection_handleTcpConnection\<close>; a client drives it with the state machine
  \<open>IsoClientConnection_handleConnection\<close>. All layers write and read BER through \<open>asn1\<close>. The MMS layer
  keeps its data in \<open>MmsValue\<close> objects described by \<open>MmsVariableSpecification\<close> and encodes them as
  ASN.1 \<open>Data\<close>.

  \<^bold>\<open>Conventions.\<close> A definition has the name of the C function it translates. Its result is an
  \<open>option\<close>: \<open>None\<close> means that the C code has no defined behaviour there (an access outside an array, a
  signed overflow, a read of something never written, a failed assertion, a loop that does not end).
  Error codes are values. A pointer is a block with an offset, so every access is checked; machine
  integers whose wrap-around matters are words, the \<open>int\<close> arithmetic that may overflow goes through
  \<open>i32\<close>. A safety theorem therefore says that the result is not \<open>None\<close>.

  \<^bold>\<open>Theories and code.\<close>
  \<^item> \<open>Mms_Prelude\<close>: memory, cursors and the algebra of emitting octets; the locale \<open>byte_encoder\<close> is the
    contract of an encoder (new position, octets written, nothing else changed).
  \<^item> \<open>Ber_Encoder\<close>, \<open>Ber_Decoder\<close>, \<open>Ber_Integer\<close>: \<^verbatim>\<open>asn1/ber_encoder.c\<close>, \<^verbatim>\<open>asn1/ber_decode.c\<close>,
    \<^verbatim>\<open>asn1/ber_integer.c\<close> and \<^verbatim>\<open>asn1/asn1_ber_primitive_value.c\<close>. Round trips of lengths and integers,
    minimal encodings, the announced sizes, and safety of the decoding of lengths. \<open>Ber_Parser\<close> holds
    the step that all parsers repeat.
  \<^item> \<open>Stack_Buffers\<close>: byte buffers and buffer chains, and the locales \<open>pdu_layer\<close> and \<open>pdu_stack\<close>, the
    contract of a layer on the data path and its composition.
  \<^item> \<open>Iso_Connection_Parameters\<close>: \<^verbatim>\<open>iso_common/iso_connection_parameters.c\<close>.
  \<^item> \<open>Cotp\<close> with \<open>Cotp_Send\<close>, \<open>Cotp_Receive\<close>, \<open>Cotp_Connect\<close>: \<^verbatim>\<open>iso_cotp/cotp.c\<close>. What is sent is the
    TPKT stream of the message; however the network cuts the stream, the peer reassembles it; polling
    completes a packet; parsing a packet is safe.
  \<^item> \<open>Iso_Session\<close>: \<^verbatim>\<open>iso_session/iso_session.c\<close>; \<open>Iso_Presentation\<close> with \<open>Iso_Presentation_Props\<close>:
    \<^verbatim>\<open>iso_presentation/iso_presentation.c\<close>; \<open>Acse\<close> with \<open>Acse_Props\<close>: \<^verbatim>\<open>iso_acse/acse.c\<close>. The peer
    reads back what is created; the session and presentation parsers are safe on every message; ACSE
    accepts an association request only with the consent of the authenticator. Session and
    presentation interpret \<open>pdu_layer\<close>.
  \<^item> \<open>Iso_Environment\<close>, \<open>Iso_Connection\<close> with \<open>Iso_Connection_Props\<close>: \<^verbatim>\<open>iso_server/iso_connection.c\<close>, with
    the life of a connection as an inductive step relation. \<open>Iso_Client_Connection\<close> with
    \<open>Iso_Client_Props\<close>: \<^verbatim>\<open>iso_client/iso_client_connection.c\<close> and who holds the transmit buffer.
  \<^item> \<open>Mms_Value\<close> with \<open>Mms_Value_Props\<close>: \<^verbatim>\<open>iso_mms/common/mms_value.c\<close>. A copy equals its original, an
    update makes a value equal to its source, bit strings and times give back what they store.
  \<^item> \<open>Mms_Type_Spec\<close>: \<^verbatim>\<open>iso_mms/common/mms_type_spec.c\<close>, with the lookup of named variables in
    \<^verbatim>\<open>iso_mms/server/mms_domain.c\<close> and \<^verbatim>\<open>iso_mms/server/mms_device.c\<close>. The default value of a type
    belongs to the type, and a component found along a path has the type found along it.
  \<^item> \<open>Mms_Data\<close> with \<open>Mms_Data_Props\<close> and \<open>Mms_Data_Roundtrip\<close>:
    \<^verbatim>\<open>iso_mms/server/mms_access_result.c\<close>. The announced size is the size written, the maximum is a
    bound, decoding is safe on every message, and what is encoded is decoded to an equal value.
  \<^item> This theory: an association and an exchange of data between a client and a server, as refinements
    of a call of the authenticator and of the MMS layer.

  \<^bold>\<open>Errors in the code.\<close> Where the code does not do what it means to, a theorem shows it: an announced
  length that is one octet short (\<open>announced_length_size\<close>, \<open>announced_int32_size\<close>,
  \<open>bit_string_size_short\<close>), lost signs (\<open>setUint8_loses_sign\<close>), writes and shifts out of range
  (\<open>apTitle_overrun\<close>, \<open>wide_tpdu_size_undefined\<close>, \<open>binary_time_undefined\<close>, \<open>set_all_empty\<close>,
  \<open>named_variable_of_simple_type\<close>), messages that are lost, accepted or rejected by mistake
  (\<open>small_tpdu_drops_data\<close>, \<open>session_truncated_user_data\<close>, \<open>accept_without_payload\<close>,
  \<open>acse_other_mechanism_rejected\<close>, \<open>data_before_association\<close>, \<open>mms_string_component_refused\<close>), an
  endless loop (\<open>acse_circular_request\<close>), a use of freed layers (\<open>send_after_close\<close>), a buffer that is
  never released (\<open>transmit_buffer_lost\<close>) and a comparison that is not symmetric
  (\<open>equals_ignores_width\<close>). The other theorems exclude these inputs by a hypothesis.

  \<^bold>\<open>Parameters.\<close> Sockets, TLS, byte buffers, string functions and memory of the platform layer, the
  authenticator, the handler of the MMS layer and the callback of the client are not part of the
  repository or belong to the application. They are arguments of the definitions; \<open>socket_ok\<close>,
  \<open>bytebuffer_ok\<close>, \<open>hal_ok\<close> and \<open>env_ok\<close> name what the code relies on, and the witnesses instantiate them.

  \<^bold>\<open>Bounds.\<close> Messages are below \<open>2^22\<close> octets where they are parsed, far above the sizes a COTP
  connection accepts; the bound keeps the \<open>int\<close> arithmetic of the length decoder in range. Nested
  indefinite lengths and nested values end at the depth limits of the code (25 levels for values).
  Loops over the elements of a message are \<open>partial_function\<close>s, and the safety theorems show that they
  return; no fuel is used.

  \<^bold>\<open>Not modelled.\<close> The MMS services of server and client (\<^verbatim>\<open>iso_mms/server\<close>, \<^verbatim>\<open>iso_mms/client\<close>,
  \<^verbatim>\<open>iso_mms/common/mms_common_msg.c\<close>): they work on the structures generated by asn1c and on lists,
  maps, files, threads and semaphores of the platform layer; here they are the function that answers
  a message. The generated coder \<^verbatim>\<open>iso_mms/asn1c\<close>. The server object \<^verbatim>\<open>iso_server/iso_server.c\<close>, which
  is threads and lists of connections. Of \<^verbatim>\<open>mms_value.c\<close>: conversions between \<open>float\<close> and \<open>double\<close>,
  printing, copies into a flat buffer, destructors, and failed allocations. Freed memory is tracked
  for the layers of a server connection only. Concurrency between threads, debug output, the Go
  packages of the repository and the dissector under \<^verbatim>\<open>src/sources/wireshark\<close> are outside this
  development.
\<close>

declare split_paired_All [simp del] split_paired_Ex [simp del]

section \<open>Client and server\<close>


text \<open>
  C2: The exchange of data refines a call of the MMS server. A request that an associated client
  sends goes out as one message; a server connection with the same presentation
  context that receives it calls its MMS layer with exactly the octets of the request, sends a
  message if and only if there is a response, and a client that receives that message is
  handed exactly the octets of the response.
\<close>

theorem request_response:
  assumes "env_ok wire1 inbox1 ce" and "client_ok ce c" and "cl_state c = STATE_CONNECTED" and "bb_wf req" and "bb_bytes req = xs"
    and "xs \<noteq> []" and "length xs \<le> 65000" and "int (length xs) + 18 \<le> ISO_CLIENT_BUFFER_SIZE ce"
    and "mmsContextId (cl_presentation c) = ctx" and "can_send e1 (int (length (data_octets ctx xs))) (cl_cotp c)"
    and "env_ok wire inbox se" and "layers_ok se l" and "mmsContextId (il_presentation l) = ctx"
    and "msgRcvdHandler self = Some f" and "implements f srv" and "srv (handlerParameter self) xs = (h', ys)"
    and "length ys \<le> 65000" and "int (length ys) + 18 \<le> SEND_BUF_SIZE se" and "can_send e (int (length (data_octets ctx ys))) (il_cotp l)"
  shows "\<exists>c1 v1 msg. IsoClientConnection_sendMessage ce c req v = Some (c1, v1) \<and> transmitted wire1 e1 (cl_cotp c) v (cl_cotp c1) v1 msg \<and>
    (\<forall>m. bb_wf m \<longrightarrow> bb_bytes m = msg \<longrightarrow>
      (\<exists>self' w' resp. handle_message se self (server_received l m) w = Some (self', w') \<and> answered wire e self l w h' resp self' w' \<and>
        (resp = [] \<longleftrightarrow> ys = []) \<and> (\<forall>m' cb u. bb_wf m' \<longrightarrow> bb_bytes m' = resp \<longrightarrow> resp \<noteq> [] \<longrightarrow>
          (\<exists>b c2. data_message ce cb (client_received c m') u = do {
               (_, c3, u) \<leftarrow> cb ISO_IND_DATA (Some b) c2 u;
               Some (False, INT_STATE_WAIT_FOR_DATA_MSG, reset_payload c3, u) } \<and> bb_bytes b = ys))))"
proof -
  have api: "bytebuffer_ok (env_bb ce)" using assms(1) by (simp add: env_ok_def)
  obtain c1 v1 where c: "IsoClientConnection_sendMessage ce c req v = Some (c1, v1)"
      "transmitted wire1 e1 (cl_cotp c) v (cl_cotp c1) v1 (data_octets ctx xs)"
    using client_send_run [OF assms(1-8), of e1 v] assms(9,10) by auto
  have ne: "data_octets ctx ys \<noteq> []" by (simp add: data_octets_def dataSpdu_def)
  show ?thesis
    apply (rule exI [of _ c1], rule exI [of _ v1], rule exI [of _ "data_octets ctx xs"], intro conjI allI impI)
    subgoal by (rule c(1))
    subgoal by (rule c(2))
    subgoal premises m for m
    proof -
      let ?l = "server_received l m" and ?resp = "if ys = [] then [] else data_octets ctx ys"
      have l: "layers_ok se ?l" "mmsContextId (il_presentation ?l) = ctx" "can_send e (int (length (data_octets ctx ys))) (il_cotp ?l)"
        "bb_bytes (cc_payload (il_cotp ?l)) = data_octets ctx xs"
        using assms(12,13,19) m by (simp_all add: server_received)
      obtain self' w' where s: "handle_message se self ?l w = Some (self', w')" "answered wire e self ?l w h' ?resp self' w'"
        using data_handled [OF assms(11) l(1) assms(14,15), unfolded l(2), OF l(4) assms(7,16-18) l(3)] by blast
      have "\<exists>b c2. data_message ce cb (client_received c m') u = do {
               (_, c3, u) \<leftarrow> cb ISO_IND_DATA (Some b) c2 u;
               Some (False, INT_STATE_WAIT_FOR_DATA_MSG, reset_payload c3, u) } \<and> bb_bytes b = ys"
        if "bb_wf m'" "bb_bytes m' = ?resp" "?resp \<noteq> []" for m' cb u
        using data_message_run [OF api, of "client_received c m'" ctx ys cb u] that assms(17) by (auto split: if_splits)
      then show ?thesis
        using s(1) s(2) [unfolded answered_cong [OF server_received(3) refl]] ne
        by (intro exI [of _ self'] exI [of _ w'] exI [of _ ?resp]) simp
    qed
    done
qed

section \<open>Examples\<close>

text \<open>A new server connection with a handler that echoes, and a client with three octets to send.\<close>

definition example_server :: "(unit, unit, nat) IsoConnection option" where
  "example_server = do {
     (self, _) \<leftarrow> IsoConnection_create example_env 0 0 1 None None () 0 True ([], []);
     Some (IsoConnection_installListener self (Some echo_handler) None 0) }"

definition requesting_client :: "(unit, unit) IsoClientConnection" where
  "requesting_client = example_client\<lparr>transmitPayloadBuffer := message_of [1, 2, 3]\<rparr>"

lemma example_server_layers:
  "\<exists>self l. example_server = Some self \<and> ic_layers self = Some l \<and> layers_ok example_env l \<and> msgRcvdHandler self = Some echo_handler \<and>
    handlerParameter self = 0 \<and> il_presentation l = zero_presentation \<and> authenticator (il_acse l) = None \<and> can_send 13 257 (il_cotp l)"
proof -
  obtain self l w where c: "IsoConnection_create example_env 0 0 1 None (None :: (unit, unit) AcseAuthenticator option) () (0 :: nat) True ([], []) = Some (self, w)" "ic_layers self = Some l"
      "layers_ok example_env l" "il_presentation l = zero_presentation" "il_acse l = AcseConnection_init (zero_acse ()) None () None"
      "\<forall>n. 7 * fragment_count n 8189 + n \<le> env_maxPdu example_env + 1000 \<longrightarrow> can_send 13 n (il_cotp l)"
    using create_run [of example_env 0 0 1 None "None :: (unit, unit) AcseAuthenticator option" "()" "0 :: nat" True "([], [])",
        unfolded example_env(3,4), OF plain_bytebuffer_ok example_env(2) zero_le_numeral] unfolding example_env(3) by fast
  have "can_send 13 257 (il_cotp l)" using c(6) by (simp add: fragment_count_def)
  with c(1-5) show ?thesis by (simp add: example_server_def IsoConnection_installListener_def AcseConnection_init_def)
qed

lemma requesting_client:
  "client_ok example_client_env requesting_client" "acseAuthParameter (cl_parameters requesting_client) = password_auth None"
  "transmitPayloadBuffer requesting_client = message_of [1, 2, 3]" "ISO_CLIENT_BUFFER_SIZE example_client_env = 2100"
  "cl_parameters requesting_client = IsoConnectionParameters_create"
  by (simp_all add: requesting_client_def client_ok_def example_client_def IsoClientConnection_create_def ISO_CLIENT_BUFFER_SIZE_def client_env_defs
      valid_range_def password_auth_def Let_def, simp add: IsoConnectionParameters_create_def)

lemma example_request_length:
  "length (connect_octets (IsoConnectionParameters_create :: unit IsoConnectionParameters) None (sessionRequirement IsoSession_init) [1, 2, 3]) \<le> 257"
  by code_simp


theorem request_response_witness:
  "\<exists>self l c1 v1 msg self' w' m c2. example_server = Some self \<and> ic_layers self = Some l \<and>
    IsoClientConnection_sendMessage example_client_env (example_client\<lparr>cl_state := STATE_CONNECTED, cl_cotp := il_cotp l\<rparr>) (message_of [1, 2]) ([], []) =
      Some (c1, v1) \<and>
    handle_message example_env self (server_received l (message_of msg)) ([], []) = Some (self', w') \<and> handlerParameter self' = 1 \<and>
    data_message example_client_env quiet_callback (client_received (example_client\<lparr>cl_state := STATE_CONNECTED, cl_cotp := il_cotp l\<rparr>) m) ([], []) =
      Some (False, INT_STATE_WAIT_FOR_DATA_MSG, reset_payload c2, ([], []))"
proof -
  obtain self l where s: "example_server = Some self" "ic_layers self = Some l" "layers_ok example_env l" "msgRcvdHandler self = Some echo_handler"
      "handlerParameter self = 0" "il_presentation l = zero_presentation" "can_send 13 257 (il_cotp l)"
    using example_server_layers by blast
  define c :: "(unit, unit) IsoClientConnection" where "c = example_client\<lparr>cl_state := STATE_CONNECTED, cl_cotp := il_cotp l\<rparr>"
  have len: "length (data_octets 0 [1, 2]) = 15" by (simp add: data_octets_def dataSpdu_def user_data_def pdv_def tlv_short)
  have env: "env_ok fst snd example_client_env"
    by (simp add: env_ok_def client_env_defs plain_bytebuffer_ok chunk_net_ok chunk_net_never_fails)
  have cl: "client_ok example_client_env c" "cl_state c = STATE_CONNECTED" "mmsContextId (cl_presentation c) = 0" "cl_cotp c = il_cotp l"
    using requesting_client(1) by (simp_all add: c_def client_ok_def requesting_client_def example_client_def IsoClientConnection_create_def
        zero_presentation_def Let_def)
  have l: "mmsContextId (il_presentation l) = 0" "can_send 13 (int (length (data_octets 0 [1, 2]))) (il_cotp l)"
    "can_send 13 (int (length (data_octets 0 [1, 2]))) (cl_cotp c)"
    using s(6) can_send_mono [OF s(7), of 15] len cl(4) by (simp_all add: zero_presentation_def)
  have room: "int (length [1, 2 :: byte]) + 18 \<le> ISO_CLIENT_BUFFER_SIZE example_client_env" "int (length [1, 2 :: byte]) + 18 \<le> SEND_BUF_SIZE example_env"
    by (simp_all add: requesting_client SEND_BUF_SIZE_def)
  have srv: "(\<lambda>h xs. (Suc h, xs)) (handlerParameter self) [1, 2] = (1, [1, 2 :: byte])" using s(5) by simp
  obtain c1 v1 msg where r: "IsoClientConnection_sendMessage example_client_env c (message_of [1, 2]) ([], []) = Some (c1, v1)"
      "\<forall>m. bb_wf m \<longrightarrow> bb_bytes m = msg \<longrightarrow> (\<exists>self' w' resp. handle_message example_env self (server_received l m) ([], []) = Some (self', w') \<and>
        answered fst 13 self l ([], []) 1 resp self' w' \<and> (resp = [] \<longleftrightarrow> [1, 2 :: byte] = []) \<and>
        (\<forall>m' cb u. bb_wf m' \<longrightarrow> bb_bytes m' = resp \<longrightarrow> resp \<noteq> [] \<longrightarrow>
          (\<exists>b c2. data_message example_client_env cb (client_received c m') u = do {
               (_, c3, u) \<leftarrow> cb ISO_IND_DATA (Some b) c2 u;
               Some (False, INT_STATE_WAIT_FOR_DATA_MSG, reset_payload c3, u) } \<and> bb_bytes b = [1, 2])))"
    using request_response [OF env cl(1,2) message_of(1,2) _ _ room(1) cl(3) l(3) example_env(1) s(3) l(1) s(4) echo_implements srv _ room(2) l(2),
        of "([], [])" "([], [])"] by auto
  obtain self' w' resp where h: "handle_message example_env self (server_received l (message_of msg)) ([], []) = Some (self', w')"
      "handlerParameter self' = 1" "resp \<noteq> []"
      "\<forall>m' cb u. bb_wf m' \<longrightarrow> bb_bytes m' = resp \<longrightarrow> resp \<noteq> [] \<longrightarrow>
          (\<exists>b c2. data_message example_client_env cb (client_received c m') u = do {
               (_, c3, u) \<leftarrow> cb ISO_IND_DATA (Some b) c2 u;
               Some (False, INT_STATE_WAIT_FOR_DATA_MSG, reset_payload c3, u) } \<and> bb_bytes b = [1, 2])"
    using r(2) [rule_format, of "message_of msg"] by (auto simp: answered_def)
  obtain c2 where "data_message example_client_env quiet_callback (client_received c (message_of resp)) ([], []) =
      Some (False, INT_STATE_WAIT_FOR_DATA_MSG, reset_payload c2, ([], []))"
    using h(4) [rule_format, of "message_of resp" quiet_callback "([], [])"] h(3) by auto
  then show ?thesis using s(1,2) r(1) h(1,2) unfolding c_def by fast
qed

end
